(* ===== verification/Dext_Prelude.thy ===== *)
theory Dext_Prelude
  imports "HOL-Library.Word" "HOL-Library.State_Monad"
begin

text \<open>
  Shared vocabulary of the development: the machine types of the sources, the states every
  component keeps (the list of platform calls it has made and the undefined behaviour it has run
  into), a weakest-precondition calculus for the state monad the handlers are written in,
  little-endian bytes and \<^verbatim>\<open>memcpy\<close>.

  The C++ sources call Apple's frameworks all the time.  A framework function is a parameter of the
  model: it is a function from the calls made so far to the answer, so that a theorem that holds
  for every such function holds for every behaviour of the framework, also one in which the same
  call is answered differently the second time.  \<open>invoke\<close> makes one such call and records
  it with its answer.  Undefined behaviour of C++ (a null pointer followed, an access outside a
  buffer) is recorded in the component's \<open>ub\<close> list; the model then goes on with a default
  value, so a run says something about the code exactly when it adds nothing to \<open>ub\<close>.
\<close>

unbundle bit_operations_syntax

type_synonym u8 = "8 word"
type_synonym u16 = "16 word"
type_synonym u32 = "32 word"
type_synonym u64 = "64 word"

text \<open>A pointer is null (\<open>None\<close>) or refers to something.\<close>
type_synonym 'a ptr = "'a option"

text \<open>Identity of a framework object.\<close>
type_synonym ref = nat

text \<open>
  \<^verbatim>\<open>kern_return_t\<close>: the codes the sources name, and any other code a
  framework function may return.
\<close>
datatype kern_return =
    kIOReturnSuccess
  | kIOReturnError
  | kIOReturnNotFound
  | kIOReturnBadArgument
  | kern_return_code u32

datatype ub =
    Null_deref
  | Read_out_of_bounds nat nat
  | Write_out_of_bounds nat nat

record 'c world =
  calls :: "'c list"
  ub :: "ub list"

abbreviation return :: "'a \<Rightarrow> ('s, 'a) state" where
  "return \<equiv> State_Monad.return"

definition invoke :: "('r \<Rightarrow> 'c) \<Rightarrow> ('c list \<Rightarrow> 'r) \<Rightarrow> (('c, 'z) world_scheme, 'r) state" where
  "invoke c f = State (\<lambda>s. let r = f (calls s) in (r, s\<lparr>calls := calls s @ [c r]\<rparr>))"

definition emit :: "'c \<Rightarrow> (('c, 'z) world_scheme, unit) state" where
  "emit c = State (\<lambda>s. ((), s\<lparr>calls := calls s @ [c]\<rparr>))"

definition ub_unless :: "bool \<Rightarrow> ub \<Rightarrow> (('c, 'z) world_scheme, unit) state" where
  "ub_unless b u = State (\<lambda>s. ((), if b then s else s\<lparr>ub := ub s @ [u]\<rparr>))"

text \<open>Following a pointer: the object, or undefined behaviour and a default.\<close>
definition deref :: "'a \<Rightarrow> 'a ptr \<Rightarrow> (('c, 'z) world_scheme, 'a) state" where
  "deref d p = State (\<lambda>s. case p of Some x \<Rightarrow> (x, s) | None \<Rightarrow> (d, s\<lparr>ub := ub s @ [Null_deref]\<rparr>))"

definition when_do :: "bool \<Rightarrow> ('s, unit) state \<Rightarrow> ('s, unit) state" where
  "when_do b m = (if b then m else return ())"

definition modify :: "('s \<Rightarrow> 's) \<Rightarrow> ('s, unit) state" where
  "modify f = State (\<lambda>s. ((), f s))"

definition gets :: "('s \<Rightarrow> 'a) \<Rightarrow> ('s, 'a) state" where
  "gets f = State (\<lambda>s. (f s, s))"

text \<open>\<^verbatim>\<open>OSDynamicCast\<close>: the pointer itself when the object is of the class, else null.\<close>
definition OSDynamicCast :: "(ref \<Rightarrow> bool) \<Rightarrow> ref ptr \<Rightarrow> ref ptr" where
  "OSDynamicCast is_class p = (case p of Some r \<Rightarrow> if is_class r then Some r else None | None \<Rightarrow> None)"

text \<open>
  Reading and writing a member through the object's \<^verbatim>\<open>ivars\<close> pointer; the pointer is
  found with \<open>get\<close> and stored with \<open>put\<close>.
\<close>
definition member :: "(('c, 'z) world_scheme \<Rightarrow> 'v ptr) \<Rightarrow> 'a \<Rightarrow> ('v \<Rightarrow> 'a) \<Rightarrow>
    (('c, 'z) world_scheme, 'a) state" where
  "member get d f = do { p \<leftarrow> gets get; deref d (map_option f p) }"

definition set_member :: "(('c, 'z) world_scheme \<Rightarrow> 'v ptr) \<Rightarrow>
    (('v ptr \<Rightarrow> 'v ptr) \<Rightarrow> ('c, 'z) world_scheme \<Rightarrow> ('c, 'z) world_scheme) \<Rightarrow> ('v \<Rightarrow> 'v) \<Rightarrow>
    (('c, 'z) world_scheme, unit) state" where
  "set_member get put f = do {
     p \<leftarrow> gets get;
     ub_unless (p \<noteq> None) Null_deref;
     modify (put (map_option f))
   }"

text \<open>One action after the other.\<close>
primrec run_all :: "('a \<Rightarrow> ('s, unit) state) \<Rightarrow> 'a list \<Rightarrow> ('s, unit) state" where
  "run_all f [] = return ()"
| "run_all f (x # xs) = do { f x; run_all f xs }"

definition wp :: "('s, 'a) state \<Rightarrow> ('a \<Rightarrow> 's \<Rightarrow> bool) \<Rightarrow> 's \<Rightarrow> bool" where
  "wp m Q s = (case run_state m s of (r, s') \<Rightarrow> Q r s')"

definition byte_at :: "u8 list \<Rightarrow> nat \<Rightarrow> u8" where
  "byte_at bs i = (if i < length bs then bs ! i else 0)"

definition memcpy :: "u8 list \<Rightarrow> u8 list \<Rightarrow> nat \<Rightarrow> u8 list" where
  "memcpy dst src n = take n src @ drop n dst"

definition le16 :: "u16 \<Rightarrow> u8 list" where
  "le16 w = [ucast w, ucast (drop_bit 8 w)]"

definition u16_of :: "u8 \<Rightarrow> u8 \<Rightarrow> u16" where
  "u16_of lo hi = ucast lo OR push_bit 8 (ucast hi)"

definition u16_at :: "u8 list \<Rightarrow> nat \<Rightarrow> u16" where
  "u16_at bs i = u16_of (byte_at bs i) (byte_at bs (Suc i))"

text \<open>An action that keeps a property of the state, whatever it returns.\<close>
definition keeps :: "('s \<Rightarrow> bool) \<Rightarrow> ('s, 'a) state \<Rightarrow> bool" where
  "keeps I m \<longleftrightarrow> (\<forall>s. I s \<longrightarrow> wp m (\<lambda>_. I) s)"

text \<open>Every call so far is of a kind.\<close>
definition calls_ok :: "('c \<Rightarrow> bool) \<Rightarrow> ('c, 'z) world_scheme \<Rightarrow> bool" where
  "calls_ok P s \<longleftrightarrow> list_all P (calls s)"

named_theorems wp_simps \<open>weakest preconditions of the monad's operations\<close>
named_theorems keeps_intros \<open>actions that keep a property of the calls\<close>
named_theorems run_simps \<open>runs of the monad's operations, for evaluation\<close>

subsection \<open>Runs of the primitive operations\<close>

lemma run_invoke [simp, run_simps]:
  "run_state (invoke c f) s = (f (calls s), s\<lparr>calls := calls s @ [c (f (calls s))]\<rparr>)"
  by (simp add: invoke_def Let_def)

lemma run_emit [simp, run_simps]:
  "run_state (emit c) s = ((), s\<lparr>calls := calls s @ [c]\<rparr>)"
  by (simp add: emit_def)

lemma run_ub_unless [simp, run_simps]:
  "run_state (ub_unless b u) s = ((), if b then s else s\<lparr>ub := ub s @ [u]\<rparr>)"
  by (simp add: ub_unless_def)

lemma run_deref_Some [simp, run_simps]: "run_state (deref d (Some x)) s = (x, s)"
  by (simp add: deref_def)

lemma run_deref_None [simp, run_simps]:
  "run_state (deref d None) s = (d, s\<lparr>ub := ub s @ [Null_deref]\<rparr>)"
  by (simp add: deref_def)

lemma run_if [simp, run_simps]:
  "run_state (if b then m else m') s = (if b then run_state m s else run_state m' s)"
  by simp

lemma run_when_do [simp, run_simps]:
  "run_state (when_do b m) s = (if b then run_state m s else ((), s))"
  by (simp add: when_do_def)

lemma run_modify [simp, run_simps]: "run_state (modify f) s = ((), f s)"
  by (simp add: modify_def)

lemma run_gets [simp, run_simps]: "run_state (gets f) s = (f s, s)"
  by (simp add: gets_def)

lemma OSDynamicCast_simps [simp]:
  "OSDynamicCast is_class None = None"
  "OSDynamicCast is_class (Some r) = (if is_class r then Some r else None)"
  by (simp_all add: OSDynamicCast_def)

lemma OSDynamicCast_Some: "OSDynamicCast is_class p = Some r \<longleftrightarrow> p = Some r \<and> is_class r"
  by (auto simp: OSDynamicCast_def split: option.splits)

subsection \<open>Weakest preconditions\<close>

lemma wp_run: "wp m Q s \<Longrightarrow> run_state m s = (r, s') \<Longrightarrow> Q r s'"
  by (simp add: wp_def)

lemma wpI: "(\<And>r s'. run_state m s = (r, s') \<Longrightarrow> Q r s') \<Longrightarrow> wp m Q s"
  by (simp add: wp_def split: prod.split)

lemma wp_mono: "wp m Q s \<Longrightarrow> (\<And>r s'. Q r s' \<Longrightarrow> R r s') \<Longrightarrow> wp m R s"
  by (auto simp: wp_def split: prod.splits)

lemma wp_conj: "wp m Q s \<Longrightarrow> wp m R s \<Longrightarrow> wp m (\<lambda>r s'. Q r s' \<and> R r s') s"
  by (auto simp: wp_def split: prod.splits)

lemma wp_bind [wp_simps]: "wp (State_Monad.bind m f) Q s = wp m (\<lambda>r. wp (f r) Q) s"
  by (simp add: wp_def split: prod.split)

lemma wp_return [wp_simps]: "wp (return x) Q s = Q x s"
  by (simp add: wp_def)

lemma wp_get [wp_simps]: "wp State_Monad.get Q s = Q s s"
  by (simp add: wp_def)

lemma wp_set [wp_simps]: "wp (State_Monad.set t) Q s = Q () t"
  by (simp add: wp_def)

lemma wp_invoke [wp_simps]:
  "wp (invoke c f) Q s = Q (f (calls s)) (s\<lparr>calls := calls s @ [c (f (calls s))]\<rparr>)"
  by (simp add: wp_def)

lemma wp_emit [wp_simps]: "wp (emit c) Q s = Q () (s\<lparr>calls := calls s @ [c]\<rparr>)"
  by (simp add: wp_def)

lemma wp_ub_unless [wp_simps]:
  "wp (ub_unless b u) Q s = Q () (if b then s else s\<lparr>ub := ub s @ [u]\<rparr>)"
  by (simp add: wp_def)

lemma wp_deref_Some [wp_simps]: "wp (deref d (Some x)) Q s = Q x s"
  by (simp add: wp_def)

lemma wp_deref_None [wp_simps]: "wp (deref d None) Q s = Q d (s\<lparr>ub := ub s @ [Null_deref]\<rparr>)"
  by (simp add: wp_def)

lemma wp_deref:
  "wp (deref d p) Q s =
     (case p of None \<Rightarrow> Q d (s\<lparr>ub := ub s @ [Null_deref]\<rparr>) | Some x \<Rightarrow> Q x s)"
  by (simp add: wp_def split: option.split)

lemma wp_modify [wp_simps]: "wp (modify f) Q s = Q () (f s)"
  by (simp add: wp_def)

lemma wp_gets [wp_simps]: "wp (gets f) Q s = Q (f s) s"
  by (simp add: wp_def)

lemma wp_member [wp_simps]:
  "get s = Some v \<Longrightarrow> wp (member get d f) Q s = Q (f v) s"
  by (simp add: member_def wp_bind wp_gets wp_deref_Some)

lemma wp_set_member [wp_simps]:
  "get s = Some v \<Longrightarrow> wp (set_member get put f) Q s = Q () (put (map_option f) s)"
  by (simp add: set_member_def wp_bind wp_gets wp_ub_unless wp_modify)

lemma wp_if [wp_simps]: "wp (if b then m else m') Q s = (if b then wp m Q s else wp m' Q s)"
  by simp

lemma wp_when_do [wp_simps]: "wp (when_do b m) Q s = (if b then wp m Q s else Q () s)"
  by (simp add: wp_def)

lemma wp_case_option [wp_simps]:
  "wp (case x of None \<Rightarrow> m | Some y \<Rightarrow> f y) Q s = (case x of None \<Rightarrow> wp m Q s | Some y \<Rightarrow> wp (f y) Q s)"
  by (simp split: option.split)

lemma wp_case_prod [wp_simps]:
  "wp (case x of (a, b) \<Rightarrow> f a b) Q s = (case x of (a, b) \<Rightarrow> wp (f a b) Q s)"
  by (simp split: prod.split)

text \<open>An invariant of every action is one of the sequence.\<close>
lemma wp_run_all:
  assumes "\<And>x s. I s \<Longrightarrow> x \<in> set xs \<Longrightarrow> wp (f x) (\<lambda>_. I) s" "I s"
  shows "wp (run_all f xs) (\<lambda>_. I) s"
  using assms
proof (induction xs arbitrary: s)
  case (Cons x xs)
  have "wp (f x) (\<lambda>_. I) s" using Cons.prems by simp
  then have "wp (f x) (\<lambda>_. wp (run_all f xs) (\<lambda>_. I)) s"
    by (rule wp_mono) (rule Cons.IH; use Cons.prems in simp)
  then show ?case by (simp add: wp_bind)
qed (simp add: wp_return)

lemma wp_let [wp_simps]: "wp (let x = e in f x) Q s = (let x = e in wp (f x) Q s)"
  by (simp add: Let_def)

subsection \<open>Properties of the calls\<close>

lemma keeps_bind [keeps_intros]:
  "keeps I m \<Longrightarrow> (\<And>x. keeps I (f x)) \<Longrightarrow> keeps I (State_Monad.bind m f)"
  by (auto simp: keeps_def wp_bind elim!: wp_mono)

lemma keeps_return [keeps_intros]: "keeps I (return x)"
  by (simp add: keeps_def wp_return)

lemma keeps_if [keeps_intros]: "keeps I m \<Longrightarrow> keeps I m' \<Longrightarrow> keeps I (if b then m else m')"
  by simp

lemma keeps_when_do [keeps_intros]: "keeps I m \<Longrightarrow> keeps I (when_do b m)"
  by (simp add: keeps_def wp_when_do)

lemma keeps_case_option [keeps_intros]:
  "keeps I m \<Longrightarrow> (\<And>y. keeps I (f y)) \<Longrightarrow> keeps I (case x of None \<Rightarrow> m | Some y \<Rightarrow> f y)"
  by (cases x) simp_all

lemma keeps_case_prod [keeps_intros]:
  "(\<And>a b. keeps I (f a b)) \<Longrightarrow> keeps I (case x of (a, b) \<Rightarrow> f a b)"
  by (cases x) simp

lemma keeps_let [keeps_intros]: "(\<And>x. keeps I (f x)) \<Longrightarrow> keeps I (let x = e in f x)"
  by (simp add: Let_def)

lemma keeps_invoke [keeps_intros]: "(\<And>h. P (c (f h))) \<Longrightarrow> keeps (calls_ok P) (invoke c f)"
  by (simp add: keeps_def wp_invoke calls_ok_def)

lemma keeps_emit [keeps_intros]: "P c \<Longrightarrow> keeps (calls_ok P) (emit c)"
  by (simp add: keeps_def wp_emit calls_ok_def)

lemma keeps_deref [keeps_intros]: "keeps (calls_ok P) (deref d p)"
  by (simp add: keeps_def wp_deref calls_ok_def split: option.split)

lemma keeps_ub_unless [keeps_intros]: "keeps (calls_ok P) (ub_unless b u)"
  by (simp add: keeps_def wp_ub_unless calls_ok_def)

lemma keeps_member [keeps_intros]: "keeps (calls_ok P) (member get d f)"
  by (simp add: member_def keeps_def wp_bind wp_gets wp_deref calls_ok_def split: option.split)

lemma keeps_run: "keeps I m \<Longrightarrow> I s \<Longrightarrow> run_state m s = (r, s') \<Longrightarrow> I s'"
  by (auto simp: keeps_def wp_def)

subsection \<open>Bytes\<close>

lemma byte_at_nth [simp]: "i < length bs \<Longrightarrow> byte_at bs i = bs ! i"
  by (simp add: byte_at_def)

lemma length_memcpy [simp]:
  "n \<le> length src \<Longrightarrow> n \<le> length dst \<Longrightarrow> length (memcpy dst src n) = length dst"
  by (simp add: memcpy_def)

lemma take_memcpy [simp]:
  "n \<le> length src \<Longrightarrow> take n (memcpy dst src n) = take n src"
  by (simp add: memcpy_def)

lemma length_le16 [simp]: "length (le16 w) = 2"
  by (simp add: le16_def)

lemma u16_of_le16: "u16_of (ucast w) (ucast (drop_bit 8 w)) = w" for w :: u16
  by (rule bit_word_eqI) (auto simp: u16_of_def bit_simps)

lemma bit_u8_beyond [simp]: "\<not> bit w (8 + n)" for w :: u8
  by (auto dest: bit_imp_le_length)

lemma le16_u16_of [simp]: "le16 (u16_of lo hi) = [lo, hi]"
  by (auto simp: le16_def u16_of_def intro!: bit_word_eqI simp: bit_simps)

lemma bit_u16_of:
  "bit (u16_of lo hi) k = (if k < 8 then bit lo k else bit hi (k - 8))"
  by (auto simp: u16_of_def bit_simps dest: bit_imp_le_length)

end
