(* ===== verification/Packets.thy ===== *)
theory Packets
  imports Dext_Prelude
begin

text \<open>
  The packets of \<^verbatim>\<open>XboxOneInputPackets.h\<close>: the structures as records, their memory
  layout by the C++ rules for standard-layout structures (each member at the next multiple of its
  alignment, the size rounded up to the largest alignment), the size constants computed from that
  layout as the header computes them with \<^verbatim>\<open>sizeof\<close>, and the bytes of each structure
  on the little-endian machines the driver runs on.  The locale \<open>wire_struct\<close> is the
  contract between a structure and its bytes; it is interpreted for all four structures.
\<close>

subsection \<open>Packet types and structures\<close>

definition XBOXONE_IN_GUIDE :: u8 where
  "XBOXONE_IN_GUIDE = 0x07"

definition XBOXONE_IN_BUTTON :: u8 where
  "XBOXONE_IN_BUTTON = 0x20"

record xboxone_report_header =
  packetType :: u8
  version :: u8
  counter :: u8
  packetSize :: u8

text \<open>The stick members are \<^verbatim>\<open>int16_t\<close>: their value is the \<open>sint\<close> of the word.\<close>
record xboxone_button_report =
  button_header :: xboxone_report_header
  buttons :: u16
  trigL :: u16
  trigR :: u16
  leftX :: u16
  leftY :: u16
  rightX :: u16
  rightY :: u16

record xboxone_guide_report =
  guide_header :: xboxone_report_header
  guide :: u8
  reserved1 :: u8

record xboxone_guide_response =
  response_header :: xboxone_report_header
  constData :: "u8 list"
  padding :: "u8 list"

datatype xboxone_buttons =
    XBOXONE_SYNC | XBOXONE_GUIDE | XBOXONE_MENU | XBOXONE_VIEW
  | XBOXONE_A | XBOXONE_B | XBOXONE_X | XBOXONE_Y
  | XBOXONE_DPAD_UP | XBOXONE_DPAD_DOWN | XBOXONE_DPAD_LEFT | XBOXONE_DPAD_RIGHT
  | XBOXONE_LEFT_SHOULDER | XBOXONE_RIGHT_SHOULDER
  | XBOXONE_LEFT_THUMB | XBOXONE_RIGHT_THUMB

fun button_mask :: "xboxone_buttons \<Rightarrow> u16" where
  "button_mask XBOXONE_SYNC = 0x0001"
| "button_mask XBOXONE_GUIDE = 0x0002"
| "button_mask XBOXONE_MENU = 0x0004"
| "button_mask XBOXONE_VIEW = 0x0008"
| "button_mask XBOXONE_A = 0x0010"
| "button_mask XBOXONE_B = 0x0020"
| "button_mask XBOXONE_X = 0x0040"
| "button_mask XBOXONE_Y = 0x0080"
| "button_mask XBOXONE_DPAD_UP = 0x0100"
| "button_mask XBOXONE_DPAD_DOWN = 0x0200"
| "button_mask XBOXONE_DPAD_LEFT = 0x0400"
| "button_mask XBOXONE_DPAD_RIGHT = 0x0800"
| "button_mask XBOXONE_LEFT_SHOULDER = 0x1000"
| "button_mask XBOXONE_RIGHT_SHOULDER = 0x2000"
| "button_mask XBOXONE_LEFT_THUMB = 0x4000"
| "button_mask XBOXONE_RIGHT_THUMB = 0x8000"

definition all_buttons :: "xboxone_buttons list" where
  "all_buttons =
     [XBOXONE_SYNC, XBOXONE_GUIDE, XBOXONE_MENU, XBOXONE_VIEW,
      XBOXONE_A, XBOXONE_B, XBOXONE_X, XBOXONE_Y,
      XBOXONE_DPAD_UP, XBOXONE_DPAD_DOWN, XBOXONE_DPAD_LEFT, XBOXONE_DPAD_RIGHT,
      XBOXONE_LEFT_SHOULDER, XBOXONE_RIGHT_SHOULDER, XBOXONE_LEFT_THUMB, XBOXONE_RIGHT_THUMB]"

definition pressed :: "xboxone_button_report \<Rightarrow> xboxone_buttons \<Rightarrow> bool" where
  "pressed r b \<longleftrightarrow> buttons r AND button_mask b \<noteq> 0"

subsection \<open>Layout of a structure and the size constants\<close>

text \<open>A member is its size and its alignment in bytes.\<close>
type_synonym c_member = "nat \<times> nat"

definition round_up :: "nat \<Rightarrow> nat \<Rightarrow> nat" where
  "round_up n a = (n + a - 1) div a * a"

fun member_offsets :: "nat \<Rightarrow> c_member list \<Rightarrow> nat list" where
  "member_offsets n [] = []"
| "member_offsets n ((sz, al) # ms) = (let o' = round_up n al in o' # member_offsets (o' + sz) ms)"

fun members_end :: "nat \<Rightarrow> c_member list \<Rightarrow> nat" where
  "members_end n [] = n"
| "members_end n ((sz, al) # ms) = members_end (round_up n al + sz) ms"

definition struct_align :: "c_member list \<Rightarrow> nat" where
  "struct_align ms = fold max (map snd ms) 1"

definition struct_sizeof :: "c_member list \<Rightarrow> nat" where
  "struct_sizeof ms = round_up (members_end 0 ms) (struct_align ms)"

definition struct_member :: "c_member list \<Rightarrow> c_member" where
  "struct_member ms = (struct_sizeof ms, struct_align ms)"

definition header_members :: "c_member list" where
  "header_members = [(1, 1), (1, 1), (1, 1), (1, 1)]"

definition button_report_members :: "c_member list" where
  "button_report_members =
     [struct_member header_members, (2, 2), (2, 2), (2, 2), (2, 2), (2, 2), (2, 2), (2, 2)]"

definition guide_report_members :: "c_member list" where
  "guide_report_members = [struct_member header_members, (1, 1), (1, 1)]"

definition guide_response_members :: "c_member list" where
  "guide_response_members = [struct_member header_members, (4, 1), (5, 1)]"

definition XBOXONE_REPORT_HEADER_SIZE :: u8 where
  "XBOXONE_REPORT_HEADER_SIZE = of_nat (struct_sizeof header_members)"

definition XBOXONE_BUTTON_REPORT_SIZE :: u8 where
  "XBOXONE_BUTTON_REPORT_SIZE =
     of_nat (struct_sizeof button_report_members - unat XBOXONE_REPORT_HEADER_SIZE)"

definition XBOXONE_GUIDE_REPORT_SIZE :: u8 where
  "XBOXONE_GUIDE_REPORT_SIZE =
     of_nat (struct_sizeof guide_report_members - unat XBOXONE_REPORT_HEADER_SIZE)"

definition XBOXONE_GUIDE_RESPONSE_SIZE :: u8 where
  "XBOXONE_GUIDE_RESPONSE_SIZE =
     of_nat (struct_sizeof guide_response_members - unat XBOXONE_REPORT_HEADER_SIZE)"

subsection \<open>Bytes of a structure\<close>

definition header_bytes :: "xboxone_report_header \<Rightarrow> u8 list" where
  "header_bytes h = [packetType h, version h, counter h, packetSize h]"

definition header_of :: "u8 list \<Rightarrow> xboxone_report_header" where
  "header_of bs =
     \<lparr>packetType = byte_at bs 0, version = byte_at bs 1, counter = byte_at bs 2,
      packetSize = byte_at bs 3\<rparr>"

definition button_report_bytes :: "xboxone_button_report \<Rightarrow> u8 list" where
  "button_report_bytes r =
     header_bytes (button_header r) @ le16 (buttons r) @ le16 (trigL r) @ le16 (trigR r)
     @ le16 (leftX r) @ le16 (leftY r) @ le16 (rightX r) @ le16 (rightY r)"

definition button_report_of :: "u8 list \<Rightarrow> xboxone_button_report" where
  "button_report_of bs =
     (let off = (\<lambda>i. member_offsets 0 button_report_members ! i)
      in \<lparr>button_header = header_of bs, buttons = u16_at bs (off 1), trigL = u16_at bs (off 2),
          trigR = u16_at bs (off 3), leftX = u16_at bs (off 4), leftY = u16_at bs (off 5),
          rightX = u16_at bs (off 6), rightY = u16_at bs (off 7)\<rparr>)"

definition guide_report_bytes :: "xboxone_guide_report \<Rightarrow> u8 list" where
  "guide_report_bytes r = header_bytes (guide_header r) @ [guide r, reserved1 r]"

definition guide_report_of :: "u8 list \<Rightarrow> xboxone_guide_report" where
  "guide_report_of bs =
     (let off = (\<lambda>i. member_offsets 0 guide_report_members ! i)
      in \<lparr>guide_header = header_of bs, guide = byte_at bs (off 1), reserved1 = byte_at bs (off 2)\<rparr>)"

definition guide_response_bytes :: "xboxone_guide_response \<Rightarrow> u8 list" where
  "guide_response_bytes r = header_bytes (response_header r) @ constData r @ padding r"

text \<open>The array members have a fixed number of elements.\<close>
definition guide_response_ok :: "xboxone_guide_response \<Rightarrow> bool" where
  "guide_response_ok r \<longleftrightarrow> length (constData r) = 4 \<and> length (padding r) = 5"

definition guide_response_of :: "u8 list \<Rightarrow> xboxone_guide_response" where
  "guide_response_of bs =
     \<lparr>response_header = header_of bs, constData = map (byte_at bs) [4..<8],
      padding = map (byte_at bs) [8..<13]\<rparr>"

subsection \<open>Layout facts\<close>

lemma header_layout [simp]:
  "struct_sizeof header_members = 4" "struct_align header_members = 1"
  by (simp_all add: struct_sizeof_def struct_align_def header_members_def round_up_def)

lemma button_report_offsets [simp]:
  "member_offsets 0 button_report_members = [0, 4, 6, 8, 10, 12, 14, 16]"
  by (simp add: button_report_members_def struct_member_def round_up_def Let_def)

lemma guide_report_offsets [simp]: "member_offsets 0 guide_report_members = [0, 4, 5]"
  by (simp add: guide_report_members_def struct_member_def round_up_def Let_def)

lemma struct_sizes [simp]:
  "struct_sizeof button_report_members = 18"
  "struct_sizeof guide_report_members = 6"
  "struct_sizeof guide_response_members = 13"
  by code_simp+

lemma report_sizes [simp]:
  "XBOXONE_REPORT_HEADER_SIZE = 4"
  "XBOXONE_BUTTON_REPORT_SIZE = 14"
  "XBOXONE_GUIDE_REPORT_SIZE = 2"
  "XBOXONE_GUIDE_RESPONSE_SIZE = 9"
  by (simp_all add: XBOXONE_REPORT_HEADER_SIZE_def XBOXONE_BUTTON_REPORT_SIZE_def
      XBOXONE_GUIDE_REPORT_SIZE_def XBOXONE_GUIDE_RESPONSE_SIZE_def)

subsection \<open>The contract between a structure and its bytes\<close>

locale wire_struct =
  fixes ok :: "'a \<Rightarrow> bool"
    and to_bytes :: "'a \<Rightarrow> u8 list"
    and of_bytes :: "u8 list \<Rightarrow> 'a"
    and sz :: nat
  assumes length_to_bytes: "ok x \<Longrightarrow> length (to_bytes x) = sz"
    and of_to_bytes: "ok x \<Longrightarrow> of_bytes (to_bytes x @ rest) = x"
    and to_of_bytes: "sz \<le> length bs \<Longrightarrow> to_bytes (of_bytes bs) = take sz bs"
    and of_bytes_ok: "sz \<le> length bs \<Longrightarrow> ok (of_bytes bs)"
begin

lemma to_bytes_inj: "ok x \<Longrightarrow> ok y \<Longrightarrow> to_bytes x = to_bytes y \<Longrightarrow> x = y"
  by (metis append_Nil2 of_to_bytes)

lemma of_bytes_prefix:
  assumes "sz \<le> length bs"
  shows "of_bytes (take sz bs @ rest) = of_bytes bs"
proof -
  have "of_bytes (to_bytes (of_bytes bs) @ rest) = of_bytes bs"
    using assms by (intro of_to_bytes of_bytes_ok)
  with assms show ?thesis by (simp add: to_of_bytes)
qed

lemma of_bytes_eq_iff:
  assumes "sz \<le> length bs" "sz \<le> length cs"
  shows "of_bytes bs = of_bytes cs \<longleftrightarrow> take sz bs = take sz cs"
  using assms by (metis of_bytes_prefix to_of_bytes)

end

lemma take_upt: "n \<le> length bs \<Longrightarrow> take n bs = map (byte_at bs) [0..<n]"
  by (rule nth_equalityI) auto

lemmas bytes_upt = take_upt upt_rec numeral_eq_Suc

lemma header_of_append [simp]: "header_of (header_bytes h @ rest) = h"
  by (simp add: header_of_def header_bytes_def)

interpretation header_wire: wire_struct "\<lambda>_. True" header_bytes header_of "struct_sizeof header_members"
  by unfold_locales (simp_all add: header_bytes_def header_of_def bytes_upt)

lemma u16_at_le16:
  "length pre = n \<Longrightarrow> u16_at (pre @ le16 w @ post) n = w"
  by (simp add: u16_at_def le16_def byte_at_def nth_append u16_of_le16)

lemma le16_u16_at [simp]: "Suc i < length bs \<Longrightarrow> le16 (u16_at bs i) = [bs ! i, bs ! Suc i]"
  by (simp add: u16_at_def)

lemma u16_at_skip: "length pre \<le> n \<Longrightarrow> u16_at (pre @ bs) n = u16_at bs (n - length pre)"
  by (auto simp: u16_at_def byte_at_def nth_append Suc_diff_le)

lemma u16_at_0 [simp]: "u16_at (le16 w @ bs) 0 = w"
  using u16_at_le16 [of "[]" 0 w bs] by simp

lemma length_header_bytes [simp]: "length (header_bytes h) = 4"
  by (simp add: header_bytes_def)

interpretation button_wire:
  wire_struct "\<lambda>_. True" button_report_bytes button_report_of "struct_sizeof button_report_members"
proof unfold_locales
  fix x :: xboxone_button_report and rest :: "u8 list"
  show "button_report_of (button_report_bytes x @ rest) = x"
    by (simp add: button_report_of_def button_report_bytes_def u16_at_skip)
next
  fix bs :: "u8 list"
  assume "struct_sizeof button_report_members \<le> length bs"
  then have "18 \<le> length bs" by simp
  then show "button_report_bytes (button_report_of bs) = take (struct_sizeof button_report_members) bs"
    by (simp add: button_report_of_def button_report_bytes_def header_bytes_def header_of_def
        bytes_upt)
qed (simp_all add: button_report_bytes_def)

interpretation guide_wire:
  wire_struct "\<lambda>_. True" guide_report_bytes guide_report_of "struct_sizeof guide_report_members"
  by unfold_locales
    (simp_all add: guide_report_of_def guide_report_bytes_def header_bytes_def header_of_def
      bytes_upt)

lemma list_4_5_cases:
  assumes "length xs = 4" "length ys = 5"
  obtains a b c d e f g h i where "xs = [a, b, c, d]" "ys = [e, f, g, h, i]"
  using assms by (auto simp: numeral_eq_Suc length_Suc_conv)

interpretation response_wire:
  wire_struct guide_response_ok guide_response_bytes guide_response_of
    "struct_sizeof guide_response_members"
proof unfold_locales
  fix x :: xboxone_guide_response and rest :: "u8 list"
  assume "guide_response_ok x"
  then obtain a b c d e f g h i where
    "constData x = [a, b, c, d]" "padding x = [e, f, g, h, i]"
    by (auto simp: guide_response_ok_def elim: list_4_5_cases)
  then show "guide_response_of (guide_response_bytes x @ rest) = x"
    by (simp add: guide_response_of_def guide_response_bytes_def header_bytes_def header_of_def
        byte_at_def bytes_upt)
qed (simp_all add: guide_response_of_def guide_response_bytes_def guide_response_ok_def
    header_bytes_def header_of_def bytes_upt)

subsection \<open>Buttons\<close>

lemma all_buttons_complete [simp]: "set all_buttons = UNIV"
proof -
  have "b \<in> set all_buttons" for b
    by (cases b) (simp_all add: all_buttons_def)
  then show ?thesis by blast
qed

lemma button_mask_nth: "i < 16 \<Longrightarrow> button_mask (all_buttons ! i) = 2 ^ i"
  by (auto simp: all_buttons_def less_Suc_eq numeral_eq_Suc)

end
