(* ===== verification/HID_Spec.thy ===== *)
theory HID_Spec
  imports Dext_Prelude
begin

text \<open>
  The meaning of a HID report descriptor, as an abstract specification: it follows the USB
  Device Class Definition for HID (short items, item state table, reports as bit strings) and
  models no file of the repository.  The bytes of the driver's own descriptor are in
  \<open>Descriptors\<close>; this theory says what fields such bytes declare
  (\<open>hid_fields\<close>) and which value a report carries for a usage (\<open>hid_lookup\<close>).
  Only the item kinds an input device uses are interpreted; any other item is kept as
  \<open>Other_Item\<close> and makes \<open>hid_fields\<close> fail, so a theorem about the fields of a
  descriptor also says that every byte of it was understood.
\<close>

datatype hid_item =
    Usage_Page nat | Logical_Minimum int | Logical_Maximum int
  | Report_Size nat | Report_ID nat | Report_Count nat
  | Usage nat | Usage_Minimum nat | Usage_Maximum nat
  | Input nat | Collection nat | End_Collection
  | Other_Item u8

definition item_length :: "u8 \<Rightarrow> nat" where
  "item_length p = (let k = unat (p AND 3) in if k = 3 then 4 else k)"

fun item_unsigned :: "u8 list \<Rightarrow> nat" where
  "item_unsigned [] = 0"
| "item_unsigned (b # bs) = unat b + 256 * item_unsigned bs"

definition item_signed :: "u8 list \<Rightarrow> int" where
  "item_signed bs =
     (if bs = [] then 0 else signed_take_bit (8 * length bs - 1) (int (item_unsigned bs)))"

definition hid_item_of :: "u8 \<Rightarrow> u8 list \<Rightarrow> hid_item" where
  "hid_item_of p ds =
     (let k = p AND 0xFC; n = item_unsigned ds; z = item_signed ds in
      if k = 0x04 then Usage_Page n
      else if k = 0x14 then Logical_Minimum z
      else if k = 0x24 then Logical_Maximum z
      else if k = 0x74 then Report_Size n
      else if k = 0x84 then Report_ID n
      else if k = 0x94 then Report_Count n
      else if k = 0x08 then Usage n
      else if k = 0x18 then Usage_Minimum n
      else if k = 0x28 then Usage_Maximum n
      else if k = 0x80 then Input n
      else if k = 0xA0 then Collection n
      else if k = 0xC0 then End_Collection
      else Other_Item p)"

function hid_items :: "u8 list \<Rightarrow> hid_item list option" where
  "hid_items [] = Some []"
| "hid_items (p # bs) =
     (let n = item_length p in
      if length bs < n then None
      else map_option (Cons (hid_item_of p (take n bs))) (hid_items (drop n bs)))"
  by pat_completeness auto
termination
  by (relation "measure length") auto

text \<open>One bit string of a report: where it lies in the report (after the report ID) and what it means.\<close>
record hid_field =
  field_report :: nat
  field_offset :: nat
  field_bits :: nat
  field_constant :: bool
  field_page :: nat
  field_usage :: nat
  field_min :: int
  field_max :: int

record hid_state =
  g_page :: nat
  g_min :: int
  g_max :: int
  g_size :: nat
  g_count :: nat
  g_report :: nat
  l_usages :: "nat list"
  l_min :: nat
  l_max :: nat
  depth :: nat
  positions :: "(nat \<times> nat) list"
  declared :: "hid_field list"

definition hid_start :: hid_state where
  "hid_start = \<lparr>g_page = 0, g_min = 0, g_max = 0, g_size = 0, g_count = 0, g_report = 0,
     l_usages = [], l_min = 0, l_max = 0, depth = 0, positions = [], declared = []\<rparr>"

definition bit_position :: "hid_state \<Rightarrow> nat" where
  "bit_position h = (case map_of (positions h) (g_report h) of None \<Rightarrow> 0 | Some n \<Rightarrow> n)"

text \<open>Usages are taken from the list in order, the last one repeated, or from the range.\<close>
definition nth_usage :: "hid_state \<Rightarrow> nat \<Rightarrow> nat" where
  "nth_usage h i =
     (if l_usages h \<noteq> [] then l_usages h ! min i (length (l_usages h) - 1)
      else min (l_min h + i) (l_max h))"

definition input_fields :: "hid_state \<Rightarrow> nat \<Rightarrow> hid_field list" where
  "input_fields h flags =
     map (\<lambda>i. \<lparr>field_report = g_report h, field_offset = bit_position h + i * g_size h,
               field_bits = g_size h, field_constant = odd flags, field_page = g_page h,
               field_usage = nth_usage h i, field_min = g_min h, field_max = g_max h\<rparr>)
       [0..<g_count h]"

definition clear_locals :: "hid_state \<Rightarrow> hid_state" where
  "clear_locals h = h\<lparr>l_usages := [], l_min := 0, l_max := 0\<rparr>"

fun hid_step :: "hid_item \<Rightarrow> hid_state \<Rightarrow> hid_state option" where
  "hid_step (Usage_Page n) h = Some (h\<lparr>g_page := n\<rparr>)"
| "hid_step (Logical_Minimum z) h = Some (h\<lparr>g_min := z\<rparr>)"
| "hid_step (Logical_Maximum z) h = Some (h\<lparr>g_max := z\<rparr>)"
| "hid_step (Report_Size n) h = Some (h\<lparr>g_size := n\<rparr>)"
| "hid_step (Report_ID n) h = Some (h\<lparr>g_report := n\<rparr>)"
| "hid_step (Report_Count n) h = Some (h\<lparr>g_count := n\<rparr>)"
| "hid_step (Usage n) h = Some (h\<lparr>l_usages := l_usages h @ [n]\<rparr>)"
| "hid_step (Usage_Minimum n) h = Some (h\<lparr>l_min := n\<rparr>)"
| "hid_step (Usage_Maximum n) h = Some (h\<lparr>l_max := n\<rparr>)"
| "hid_step (Input flags) h =
     Some (clear_locals (h\<lparr>declared := declared h @ input_fields h flags,
       positions := (g_report h, bit_position h + g_count h * g_size h) # positions h\<rparr>))"
| "hid_step (Collection n) h = Some (clear_locals (h\<lparr>depth := Suc (depth h)\<rparr>))"
| "hid_step End_Collection h =
     (if depth h = 0 then None else Some (clear_locals (h\<lparr>depth := depth h - 1\<rparr>)))"
| "hid_step (Other_Item p) h = None"

fun hid_steps :: "hid_item list \<Rightarrow> hid_state \<Rightarrow> hid_state option" where
  "hid_steps [] h = Some h"
| "hid_steps (i # is) h = (case hid_step i h of None \<Rightarrow> None | Some h' \<Rightarrow> hid_steps is h')"

definition hid_fields :: "u8 list \<Rightarrow> hid_field list option" where
  "hid_fields bs =
     (case hid_items bs of None \<Rightarrow> None
      | Some is \<Rightarrow> (case hid_steps is hid_start of None \<Rightarrow> None
                   | Some h \<Rightarrow> if depth h = 0 then Some (declared h) else None))"

text \<open>Length of an input report in bits, the report ID not counted.\<close>
definition report_bits :: "hid_field list \<Rightarrow> nat \<Rightarrow> nat" where
  "report_bits fs r = sum_list (map field_bits (filter (\<lambda>f. field_report f = r) fs))"

text \<open>Bit \<open>k\<close> of a byte string: the bits of each byte from the least significant.\<close>
definition bit_of :: "u8 list \<Rightarrow> nat \<Rightarrow> bool" where
  "bit_of bs k = bit (byte_at bs (k div 8)) (k mod 8)"

definition bits_value :: "u8 list \<Rightarrow> nat \<Rightarrow> nat \<Rightarrow> int" where
  "bits_value bs off n = horner_sum of_bool 2 (map (\<lambda>i. bit_of bs (off + i)) [0..<n])"

definition field_value :: "u8 list \<Rightarrow> hid_field \<Rightarrow> int" where
  "field_value bs f =
     (let v = bits_value bs (8 + field_offset f) (field_bits f)
      in if field_min f < 0 then signed_take_bit (field_bits f - 1) v else v)"

text \<open>The value a report, its ID in the first byte, carries for a usage.\<close>
definition hid_lookup :: "u8 list \<Rightarrow> u8 list \<Rightarrow> nat \<Rightarrow> nat \<Rightarrow> int option" where
  "hid_lookup desc bs page usage =
     (case hid_fields desc of None \<Rightarrow> None
      | Some fs \<Rightarrow> map_option (field_value bs)
          (find (\<lambda>f. \<not> field_constant f \<and> field_report f = unat (byte_at bs 0) \<and>
                     field_page f = page \<and> field_usage f = usage) fs))"

subsection \<open>Values of aligned fields\<close>

lemma bits_value_1: "bits_value bs off (Suc 0) = of_bool (bit_of bs off)"
  by (simp add: bits_value_def)

lemma bit_of_u16_at:
  assumes "k < 16"
  shows "bit_of bs (8 * i + k) = bit (u16_at bs i) k"
proof (cases "k < 8")
  case True
  then show ?thesis by (simp add: bit_of_def u16_at_def bit_u16_of)
next
  case False
  define j where "j = k - 8"
  with False assms have k: "8 * i + k = 8 * Suc i + j" "j < 8" by auto
  have "(8 * Suc i + j) div 8 = Suc i" "(8 * Suc i + j) mod 8 = j"
    using k(2) by (simp_all del: mult_Suc_right)
  with False k(1) show ?thesis by (simp add: bit_of_def u16_at_def bit_u16_of j_def)
qed

lemma bits_value_16: "bits_value bs (8 * i) 16 = uint (u16_at bs i)"
proof -
  have "bits_value bs (8 * i) 16 = horner_sum of_bool 2 (map (bit (u16_at bs i)) [0..<16])"
    unfolding bits_value_def by (intro arg_cong [of _ _ "horner_sum of_bool 2"] map_cong)
      (simp_all add: bit_of_u16_at)
  also have "\<dots> = horner_sum of_bool 2 (map (bit (uint (u16_at bs i))) [0..<16])"
    by (intro arg_cong [of _ _ "horner_sum of_bool 2"] map_cong) (simp_all add: bit_uint_iff)
  also have "\<dots> = uint (u16_at bs i)"
    using bintr_uint [of 16 "u16_at bs i"] by (simp add: horner_sum_bit_eq_take_bit)
  finally show ?thesis .
qed

lemma sint_signed_take_bit: "signed_take_bit 15 (uint w) = sint w" for w :: u16
  by (simp add: sint_uint)

end
