(* ===== verification/Descriptors.thy ===== *)
theory Descriptors
  imports Packets HID_Spec
begin

text \<open>
  The report descriptor of \<^verbatim>\<open>XboxOneDescriptors.h\<close>, byte for byte, and what it
  declares by \<open>HID_Spec\<close>.  The driver hands controller packets to the HID stack as they
  are, so the descriptor has to say where in a packet each member of the packet structures lies;
  the lemmas here compute its fields, and the properties about them are in the root theory.
\<close>

definition ReportDescriptor :: "u8 list" where
  "ReportDescriptor =
     [0x05, 0x01,
      0x09, 0x05,
      0xa1, 0x01,
      0xa1, 0x00,
      0x85, 0x20,
      0x75, 0x08,
      0x95, 0x03,
      0x81, 0x03,
      0x05, 0x09,
      0x09, 0x0b,
      0x15, 0x01,
      0x75, 0x01,
      0x95, 0x01,
      0x81, 0x02,
      0x81, 0x03,
      0x19, 0x09,
      0x29, 0x0a,
      0x95, 0x02,
      0x81, 0x02,
      0x19, 0x01,
      0x29, 0x04,
      0x95, 0x04,
      0x81, 0x02,
      0x19, 0x0c,
      0x29, 0x0f,
      0x81, 0x02,
      0x19, 0x05,
      0x29, 0x06,
      0x95, 0x02,
      0x81, 0x02,
      0x19, 0x07,
      0x29, 0x08,
      0x81, 0x02,
      0x05, 0x01,
      0x09, 0x32,
      0x09, 0x35,
      0x15, 0x00,
      0x26, 0xff, 0x03,
      0x75, 0x10,
      0x81, 0x02,
      0x09, 0x30,
      0x09, 0x31,
      0x09, 0x33,
      0x09, 0x34,
      0x16, 0x00, 0x80,
      0x26, 0xff, 0x7f,
      0x95, 0x04,
      0x81, 0x02,
      0xc0,
      0x05, 0x01,
      0x09, 0x05,
      0xa1, 0x00,
      0x85, 0x07,
      0x75, 0x08,
      0x95, 0x03,
      0x81, 0x03,
      0x05, 0x09,
      0x09, 0x10,
      0x15, 0x00,
      0x25, 0x01,
      0x75, 0x01,
      0x95, 0x01,
      0x81, 0x02,
      0x75, 0x0a,
      0x81, 0x03,
      0xc0,
      0xc0]"

definition REPORT_DESCRIPTOR_SIZE :: u32 where
  "REPORT_DESCRIPTOR_SIZE = of_nat (length ReportDescriptor)"

text \<open>The button usages of the comments in the descriptor.\<close>
fun button_usage :: "xboxone_buttons \<Rightarrow> nat option" where
  "button_usage XBOXONE_A = Some 1"
| "button_usage XBOXONE_B = Some 2"
| "button_usage XBOXONE_X = Some 3"
| "button_usage XBOXONE_Y = Some 4"
| "button_usage XBOXONE_LEFT_SHOULDER = Some 5"
| "button_usage XBOXONE_RIGHT_SHOULDER = Some 6"
| "button_usage XBOXONE_LEFT_THUMB = Some 7"
| "button_usage XBOXONE_RIGHT_THUMB = Some 8"
| "button_usage XBOXONE_MENU = Some 9"
| "button_usage XBOXONE_VIEW = Some 10"
| "button_usage XBOXONE_SYNC = Some 11"
| "button_usage XBOXONE_DPAD_UP = Some 12"
| "button_usage XBOXONE_DPAD_DOWN = Some 13"
| "button_usage XBOXONE_DPAD_LEFT = Some 14"
| "button_usage XBOXONE_DPAD_RIGHT = Some 15"
| "button_usage XBOXONE_GUIDE = None"

definition data_field :: "nat \<Rightarrow> nat \<Rightarrow> nat \<Rightarrow> nat \<Rightarrow> nat \<Rightarrow> int \<Rightarrow> int \<Rightarrow> hid_field" where
  "data_field r off n page usage lo hi =
     \<lparr>field_report = r, field_offset = off, field_bits = n, field_constant = False,
      field_page = page, field_usage = usage, field_min = lo, field_max = hi\<rparr>"

definition constant_field :: "nat \<Rightarrow> nat \<Rightarrow> nat \<Rightarrow> nat \<Rightarrow> int \<Rightarrow> int \<Rightarrow> hid_field" where
  "constant_field r off n page lo hi =
     \<lparr>field_report = r, field_offset = off, field_bits = n, field_constant = True,
      field_page = page, field_usage = 0, field_min = lo, field_max = hi\<rparr>"

definition button_fields :: "hid_field list" where
  "button_fields =
     [constant_field 32 0 8 1 0 0, constant_field 32 8 8 1 0 0, constant_field 32 16 8 1 0 0,
      data_field 32 24 1 9 11 1 0, constant_field 32 25 1 9 1 0,
      data_field 32 26 1 9 9 1 0, data_field 32 27 1 9 10 1 0,
      data_field 32 28 1 9 1 1 0, data_field 32 29 1 9 2 1 0,
      data_field 32 30 1 9 3 1 0, data_field 32 31 1 9 4 1 0,
      data_field 32 32 1 9 12 1 0, data_field 32 33 1 9 13 1 0,
      data_field 32 34 1 9 14 1 0, data_field 32 35 1 9 15 1 0,
      data_field 32 36 1 9 5 1 0, data_field 32 37 1 9 6 1 0,
      data_field 32 38 1 9 7 1 0, data_field 32 39 1 9 8 1 0,
      data_field 32 40 16 1 0x32 0 1023, data_field 32 56 16 1 0x35 0 1023,
      data_field 32 72 16 1 0x30 (-32768) 32767, data_field 32 88 16 1 0x31 (-32768) 32767,
      data_field 32 104 16 1 0x33 (-32768) 32767, data_field 32 120 16 1 0x34 (-32768) 32767]"

definition guide_fields :: "hid_field list" where
  "guide_fields =
     [constant_field 7 0 8 1 (-32768) 32767, constant_field 7 8 8 1 (-32768) 32767,
      constant_field 7 16 8 1 (-32768) 32767,
      data_field 7 24 1 9 16 0 1, constant_field 7 25 10 9 0 1]"

text \<open>Fields that follow each other without a gap, the first at a given bit.\<close>
fun contiguous :: "nat \<Rightarrow> hid_field list \<Rightarrow> bool" where
  "contiguous n [] = True"
| "contiguous n (f # fs) = (field_offset f = n \<and> contiguous (n + field_bits f) fs)"

text \<open>
  The items the comments beside the bytes name.  The one difference is the last report size:
  the comment says 15, the byte says 10.
\<close>
definition descriptor_items :: "hid_item list" where
  "descriptor_items =
     [Usage_Page 1, Usage 5, Collection 1, Collection 0, Report_ID 32,
      Report_Size 8, Report_Count 3, Input 3,
      Usage_Page 9, Usage 11, Logical_Minimum 1, Report_Size 1, Report_Count 1, Input 2, Input 3,
      Usage_Minimum 9, Usage_Maximum 10, Report_Count 2, Input 2,
      Usage_Minimum 1, Usage_Maximum 4, Report_Count 4, Input 2,
      Usage_Minimum 12, Usage_Maximum 15, Input 2,
      Usage_Minimum 5, Usage_Maximum 6, Report_Count 2, Input 2,
      Usage_Minimum 7, Usage_Maximum 8, Input 2,
      Usage_Page 1, Usage 0x32, Usage 0x35, Logical_Minimum 0, Logical_Maximum 1023, Report_Size 16, Input 2,
      Usage 0x30, Usage 0x31, Usage 0x33, Usage 0x34, Logical_Minimum (-32768), Logical_Maximum 32767,
      Report_Count 4, Input 2, End_Collection,
      Usage_Page 1, Usage 5, Collection 0, Report_ID 7, Report_Size 8, Report_Count 3, Input 3,
      Usage_Page 9, Usage 16, Logical_Minimum 0, Logical_Maximum 1, Report_Size 1, Report_Count 1, Input 2,
      Report_Size 10, Input 3, End_Collection, End_Collection]"

subsection \<open>The fields of the descriptor\<close>

lemma length_ReportDescriptor [simp]: "length ReportDescriptor = 134"
  by (simp add: ReportDescriptor_def)

lemma descriptor_hid_items: "hid_items ReportDescriptor = Some descriptor_items"
  by (simp add: ReportDescriptor_def descriptor_items_def item_length_def hid_item_of_def
      item_signed_def Let_def)

lemma upt_small:
  "[0..<1] = [0]" "[0..<Suc 0] = [0]" "[0..<2] = [0, 1]" "[0..<3] = [0, 1, 2]"
  "[0..<4] = [0, 1, 2, 3]"
  by (simp_all add: upt_rec)

lemmas field_defs = button_fields_def guide_fields_def data_field_def constant_field_def

lemma descriptor_hid_steps:
  "map_option (\<lambda>h. (depth h, declared h)) (hid_steps descriptor_items hid_start)
   = Some (0, button_fields @ guide_fields)"
  by (simp add: descriptor_items_def hid_start_def input_fields_def bit_position_def
      clear_locals_def nth_usage_def upt_small field_defs)

lemma descriptor_fields: "hid_fields ReportDescriptor = Some (button_fields @ guide_fields)"
  using descriptor_hid_steps
  by (auto simp: hid_fields_def descriptor_hid_items split: option.splits)

lemma hid_lookup_eq:
  "find (\<lambda>f. \<not> field_constant f \<and> field_report f = unat (byte_at bs 0) \<and>
             field_page f = page \<and> field_usage f = usage) (button_fields @ guide_fields) = Some f
   \<Longrightarrow> hid_lookup ReportDescriptor bs page usage = Some (field_value bs f)"
  by (simp only: hid_lookup_def descriptor_fields option.case option.map)

lemma field_value_bit:
  "0 \<le> lo \<Longrightarrow> field_value bs (data_field r off (Suc 0) p u lo hi) = of_bool (bit_of bs (8 + off))"
  by (simp add: field_value_def data_field_def bits_value_1)

lemma field_value_word:
  "field_value bs (data_field r (8 * i) 16 p u lo hi) =
     (if lo < 0 then sint (u16_at bs (Suc i)) else uint (u16_at bs (Suc i)))"
  using bits_value_16 [of bs "Suc i"]
  by (simp add: field_value_def data_field_def sint_signed_take_bit)

text \<open>The position of a button's bit in the button member.\<close>
fun button_bit :: "xboxone_buttons \<Rightarrow> nat" where
  "button_bit XBOXONE_SYNC = 0"
| "button_bit XBOXONE_GUIDE = 1"
| "button_bit XBOXONE_MENU = 2"
| "button_bit XBOXONE_VIEW = 3"
| "button_bit XBOXONE_A = 4"
| "button_bit XBOXONE_B = 5"
| "button_bit XBOXONE_X = 6"
| "button_bit XBOXONE_Y = 7"
| "button_bit XBOXONE_DPAD_UP = 8"
| "button_bit XBOXONE_DPAD_DOWN = 9"
| "button_bit XBOXONE_DPAD_LEFT = 10"
| "button_bit XBOXONE_DPAD_RIGHT = 11"
| "button_bit XBOXONE_LEFT_SHOULDER = 12"
| "button_bit XBOXONE_RIGHT_SHOULDER = 13"
| "button_bit XBOXONE_LEFT_THUMB = 14"
| "button_bit XBOXONE_RIGHT_THUMB = 15"

lemma button_mask_bit: "button_mask b = 2 ^ button_bit b"
  by (cases b) simp_all

lemma button_bit_less: "button_bit b < 16"
  by (cases b) simp_all

lemma pressed_bit: "pressed r b \<longleftrightarrow> bit (buttons r) (button_bit b)"
  by (simp add: pressed_def button_mask_bit and_exp_eq_0_iff_not_bit)

lemma button_field:
  assumes "button_usage b = Some u" "byte_at bs 0 = 0x20"
  shows "hid_lookup ReportDescriptor bs 9 u = Some (of_bool (bit_of bs (8 * 4 + button_bit b)))"
proof -
  have "find (\<lambda>f. \<not> field_constant f \<and> field_report f = unat (byte_at bs 0) \<and>
             field_page f = 9 \<and> field_usage f = u) (button_fields @ guide_fields)
        = Some (data_field 32 (24 + button_bit b) (Suc 0) 9 u 1 0)"
    using assms(1) by (cases b) (auto simp: field_defs assms(2))
  then show ?thesis
    by (simp add: hid_lookup_eq field_value_bit)
qed

end
