(* ===== verification/Platform.thy ===== *)
theory Platform
  imports Dext_Prelude
begin

text \<open>
  The Apple frameworks as the driver sees them: the calls it makes (\<open>call\<close>, one
  constructor per framework function, the arguments first and the answer last), the descriptors
  and keys that occur in them, and, as records of functions, the answers the frameworks give.
  No answer is fixed here: every record of answers is a parameter of the definitions that use it.
  The last part states the ownership rules of the frameworks as an abstract specification: which
  calls hand the driver a reference it has to give back, and which give one back.
\<close>

subsection \<open>Descriptors, keys and values\<close>

record device_descriptor =
  device_descriptor_ref :: ref
  bNumConfigurations :: u8
  idVendor :: u16
  idProduct :: u16
  bcdDevice :: u16
  iManufacturer :: u8
  iProduct :: u8
  iSerialNumber :: u8

record interface_descriptor =
  interface_descriptor_ref :: ref
  bInterfaceNumber :: u8

text \<open>\<open>bString\<close> is the memory after the two header bytes.\<close>
record string_descriptor =
  string_descriptor_ref :: ref
  bLength :: u8
  bString :: "u8 list"

datatype endpoint_type = kIOUSBEndpointTypeInterrupt | endpoint_type_code u8

datatype endpoint_direction =
    kIOUSBEndpointDirectionIn | kIOUSBEndpointDirectionOut | endpoint_direction_code u8

datatype dict_key =
    kIOHIDRegisterServiceKey | Literal_key string
  | kIOHIDReportIntervalKey | kIOHIDVendorIDKey | kIOHIDProductIDKey | kIOHIDTransportKey
  | kIOHIDVersionNumberKey | kIOHIDCountryCodeKey | kIOHIDRequestTimeoutKey
  | kIOHIDPrimaryUsagePageKey | kIOHIDPrimaryUsageKey | kIOHIDLocationIDKey
  | kIOHIDManufacturerKey | kIOHIDProductKey | kIOHIDSerialNumberKey | kIOHIDBuiltInKey
  | kIOHIDMaxInputReportSizeKey | kIOHIDMaxOutputReportSizeKey
  | kUSBHostPropertyLocationID | kUSBHostMatchingPropertyPortType

datatype dict_value = OSBoolean bool | OSNumber u64 | OSStringValue string | OSObject ref

subsection \<open>Calls\<close>

datatype call =
    super_init bool
  | IONewZero bool
  | IODelete
  | super_free
  | super_Start "ref ptr" kern_return
  | super_Stop "ref ptr" kern_return
  | super_handleStart "ref ptr" bool
  | RegisterService kern_return
  | retain ref
  | release ref
  | IOUSBHostFreeDescriptor ref
  | Device_Open ref kern_return
  | Device_CopyDeviceDescriptor ref "device_descriptor ptr"
  | Device_CopyConfigurationDescriptorWithValue ref u8 "ref ptr"
  | Device_SetConfiguration ref u8 bool kern_return
  | Interface_Open ref kern_return
  | Interface_CopyConfigurationDescriptor ref "ref ptr"
  | Interface_GetInterfaceDescriptor ref ref "interface_descriptor ptr"
  | Interface_CopyPipe ref u8 "kern_return \<times> ref ptr"
  | Interface_CreateIOBuffer ref u64 "kern_return \<times> ref ptr"
  | Interface_CopyProperties ref "ref ptr"
  | Interface_CopyDevice ref "ref ptr"
  | Interface_CopyStringDescriptor ref u8 u16 "string_descriptor ptr"
  | Pipe_GetSpeed ref "kern_return \<times> u8"
  | Buffer_Map ref "kern_return \<times> u8 list \<times> u64"
  | CopyProperties "kern_return \<times> ref ptr"
  | CreateActionGotData u64 "kern_return \<times> ref ptr"
  | Pipe_IO ref "u8 list" u32 "kern_return \<times> u32"
  | Pipe_AsyncIO ref "ref ptr" u32 "ref ptr" kern_return
  | handleReport u64 "u8 list" u32 kern_return
  | Action_Cancel ref
  | OSStringCreate "u8 list" "ref ptr"
  | OSDictionary_withCapacity nat "ref ptr"
  | OSDictionarySet ref dict_key dict_value
  | OSData_withBytesNoCopy "u8 list" u32 "ref ptr"
  | Create_UserClient string "kern_return \<times> ref ptr"

subsection \<open>Answers\<close>

text \<open>The part of the \<^verbatim>\<open>IOService\<close> base class every driver class of the repository uses.\<close>
record service_api =
  on_super_init :: "call list \<Rightarrow> bool"
  on_IONewZero :: "call list \<Rightarrow> bool"
  on_super_Start :: "ref ptr \<Rightarrow> call list \<Rightarrow> kern_return"
  on_super_Stop :: "ref ptr \<Rightarrow> call list \<Rightarrow> kern_return"
  on_super_handleStart :: "ref ptr \<Rightarrow> call list \<Rightarrow> bool"
  on_RegisterService :: "call list \<Rightarrow> kern_return"

text \<open>\<^verbatim>\<open>IOUSBHostDevice\<close>.\<close>
record device_api = service_api +
  is_IOUSBHostDevice :: "ref \<Rightarrow> bool"
  on_Device_Open :: "ref \<Rightarrow> call list \<Rightarrow> kern_return"
  on_CopyDeviceDescriptor :: "ref \<Rightarrow> call list \<Rightarrow> device_descriptor ptr"
  on_CopyConfigurationDescriptorWithValue :: "ref \<Rightarrow> u8 \<Rightarrow> call list \<Rightarrow> ref ptr"
  on_SetConfiguration :: "ref \<Rightarrow> u8 \<Rightarrow> bool \<Rightarrow> call list \<Rightarrow> kern_return"

text \<open>\<^verbatim>\<open>IOUSBHostInterface\<close>, as far as both interface drivers use it.\<close>
record interface_api = service_api +
  is_IOUSBHostInterface :: "ref \<Rightarrow> bool"
  on_CopyConfigurationDescriptor :: "ref \<Rightarrow> call list \<Rightarrow> ref ptr"
  on_GetInterfaceDescriptor :: "ref \<Rightarrow> ref \<Rightarrow> call list \<Rightarrow> interface_descriptor ptr"

subsection \<open>Macros of the frameworks\<close>

text \<open>\<^verbatim>\<open>IOSafeDeleteNULL\<close>: the memory is freed when there is any; the pointer becomes null.\<close>
definition IOSafeDeleteNULL :: "'a ptr \<Rightarrow> ((call, 'z) world_scheme, unit) state" where
  "IOSafeDeleteNULL p = when_do (p \<noteq> None) (emit IODelete)"

text \<open>\<^verbatim>\<open>OSSafeReleaseNULL\<close>: likewise for an object and its reference.\<close>
definition OSSafeRelease :: "ref ptr \<Rightarrow> ((call, 'z) world_scheme, unit) state" where
  "OSSafeRelease p = (case p of None \<Rightarrow> return () | Some r \<Rightarrow> emit (release r))"

definition free_descriptor_if :: "ref ptr \<Rightarrow> ((call, 'z) world_scheme, unit) state" where
  "free_descriptor_if p =
     (case p of None \<Rightarrow> return () | Some r \<Rightarrow> emit (IOUSBHostFreeDescriptor r))"

subsection \<open>Ownership\<close>

text \<open>
  The naming rule of the frameworks: an object that a \<^verbatim>\<open>Copy\<close>, \<^verbatim>\<open>Create\<close> or
  \<^verbatim>\<open>with\<close> function returns is the caller's to release, one that a
  \<^verbatim>\<open>Get\<close> function returns is not.
\<close>
definition ptr_refs :: "ref ptr \<Rightarrow> ref list" where
  "ptr_refs p = (case p of None \<Rightarrow> [] | Some r \<Rightarrow> [r])"

definition success_refs :: "kern_return \<times> ref ptr \<Rightarrow> ref list" where
  "success_refs x = (case x of (ret, p) \<Rightarrow> if ret = kIOReturnSuccess then ptr_refs p else [])"

definition acquired :: "call \<Rightarrow> ref list" where
  "acquired c =
     (case c of
        retain r \<Rightarrow> [r]
      | Device_CopyDeviceDescriptor d x \<Rightarrow> ptr_refs (map_option device_descriptor_ref x)
      | Device_CopyConfigurationDescriptorWithValue d v p \<Rightarrow> ptr_refs p
      | Interface_CopyConfigurationDescriptor i p \<Rightarrow> ptr_refs p
      | Interface_CopyPipe i a x \<Rightarrow> success_refs x
      | Interface_CreateIOBuffer i n x \<Rightarrow> success_refs x
      | Interface_CopyProperties i p \<Rightarrow> ptr_refs p
      | Interface_CopyDevice i p \<Rightarrow> ptr_refs p
      | Interface_CopyStringDescriptor i k l x \<Rightarrow> ptr_refs (map_option string_descriptor_ref x)
      | CopyProperties x \<Rightarrow> ptr_refs (snd x)
      | CreateActionGotData n x \<Rightarrow> success_refs x
      | OSStringCreate bs p \<Rightarrow> ptr_refs p
      | OSDictionary_withCapacity n p \<Rightarrow> ptr_refs p
      | OSData_withBytesNoCopy bs n p \<Rightarrow> ptr_refs p
      | Create_UserClient k x \<Rightarrow> success_refs x
      | _ \<Rightarrow> [])"

definition given_back :: "call \<Rightarrow> ref list" where
  "given_back c =
     (case c of release r \<Rightarrow> [r] | IOUSBHostFreeDescriptor r \<Rightarrow> [r] | _ \<Rightarrow> [])"

text \<open>References to \<open>r\<close> that a list of calls has acquired and not given back.\<close>
fun balance :: "ref \<Rightarrow> call list \<Rightarrow> int" where
  "balance r [] = 0"
| "balance r (c # cs) =
     int (count_list (acquired c) r) - int (count_list (given_back c) r) + balance r cs"

lemma balance_append [simp]: "balance r (xs @ ys) = balance r xs + balance r ys"
  by (induction xs) auto

lemma ptr_refs_simps [simp]: "ptr_refs None = []" "ptr_refs (Some r) = [r]"
  by (simp_all add: ptr_refs_def)

lemmas owner_simps = acquired_def given_back_def success_refs_def

subsection \<open>Weakest preconditions of the macros\<close>

lemma wp_IOSafeDeleteNULL [wp_simps]:
  "wp (IOSafeDeleteNULL p) Q s =
     Q () (if p = None then s else s\<lparr>calls := calls s @ [IODelete]\<rparr>)"
  by (simp add: IOSafeDeleteNULL_def wp_simps)

lemma wp_OSSafeRelease [wp_simps]:
  "wp (OSSafeRelease p) Q s = Q () (s\<lparr>calls := calls s @ map release (ptr_refs p)\<rparr>)"
  by (simp add: OSSafeRelease_def wp_simps split: option.split)

lemma wp_free_descriptor_if [wp_simps]:
  "wp (free_descriptor_if p) Q s =
     Q () (s\<lparr>calls := calls s @ map IOUSBHostFreeDescriptor (ptr_refs p)\<rparr>)"
  by (simp add: free_descriptor_if_def wp_simps split: option.split)

lemma balance_map_release [simp]:
  "balance r (map release rs) = - int (count_list rs r)"
  "balance r (map IOUSBHostFreeDescriptor rs) = - int (count_list rs r)"
  by (induction rs) (simp_all add: acquired_def given_back_def)

lemma keeps_OSSafeRelease [keeps_intros]: "(\<And>r. P (release r)) \<Longrightarrow> keeps (calls_ok P) (OSSafeRelease p)"
  by (auto simp: OSSafeRelease_def intro: keeps_intros)

end
