(* ===== verification/Pipe_Data.thy ===== *)
theory Pipe_Data
  imports Platform
begin

text \<open>
  \<^verbatim>\<open>USBPipeData.h\<close> and \<^verbatim>\<open>HIDConstants.h\<close>: the record of a pipe and of its
  buffer, with the default values of their members, and three constants.  The address of a buffer
  stands for the memory mapped there: a list of bytes, whose length is the memory there is, beside
  the member \<open>mem_length\<close> that says how much there should be.
\<close>

record buffer_memory_descriptor =
  buffer :: "ref ptr"
  address :: "u8 list ptr"
  mem_length :: u64

record usb_pipe_data =
  pipe :: "ref ptr"
  speed :: u8
  interval :: u32
  reportSize :: u64
  maxPacketSize :: u64
  descriptor :: "ref ptr"
  memory :: buffer_memory_descriptor

definition default_buffer :: buffer_memory_descriptor where
  "default_buffer = \<lparr>buffer = None, address = None, mem_length = 0\<rparr>"

definition default_pipe :: usb_pipe_data where
  "default_pipe = \<lparr>pipe = None, speed = 0, interval = 0, reportSize = 0, maxPacketSize = 0,
     descriptor = None, memory = default_buffer\<rparr>"

definition kUSBHostClassRequestCompletionTimeout :: u64 where
  "kUSBHostClassRequestCompletionTimeout = 5000"

definition kLanguageIDEnglishUS :: u16 where
  "kLanguageIDEnglishUS = 0x0409"

text \<open>The buffer of a pipe is mapped and as long as its record says.\<close>
definition mapped :: "usb_pipe_data \<Rightarrow> bool" where
  "mapped p \<longleftrightarrow> (case address (memory p) of None \<Rightarrow> False
     | Some mem \<Rightarrow> length mem = unat (mem_length (memory p)))"

definition pipe_ready :: "usb_pipe_data \<Rightarrow> bool" where
  "pipe_ready p \<longleftrightarrow> pipe p \<noteq> None \<and> buffer (memory p) \<noteq> None \<and> mapped p"

end
