(* ===== verification/Input_Comm.thy ===== *)
theory Input_Comm
  imports Pipe_Data Packets
begin

text \<open>
  The stored variables of \<^verbatim>\<open>XboxOneInputInterface.cpp\<close> and its traffic with the
  controller: sending on the OUT pipe, listening on the IN pipe, the handlers of incoming packets
  and the enable switch.  \<open>comm_api\<close> holds the answers of the pipes and of the HID stack, and
  whether the build is a debug build (it reads more of a packet, to print it).  A call that takes a
  buffer object, \<open>Pipe_IO\<close> and \<open>handleReport\<close>, is recorded with the bytes the buffer holds
  at that moment.
\<close>

subsection \<open>State\<close>

record XboxOneInputInterface_IVars =
  interface :: "ref ptr"
  configurationDescriptor :: "ref ptr"
  interfaceDescriptor :: "ref ptr"
  inPipe :: usb_pipe_data
  outPipe :: usb_pipe_data
  gotDataAction :: "ref ptr"
  outCounter :: u8
  enabled :: bool

record input_state = "call world" +
  ivars :: "XboxOneInputInterface_IVars ptr"

record comm_api =
  DEBUG :: bool
  on_Pipe_IO :: "ref \<Rightarrow> u8 list \<Rightarrow> u32 \<Rightarrow> call list \<Rightarrow> kern_return \<times> u32"
  on_AsyncIO :: "ref \<Rightarrow> ref ptr \<Rightarrow> u32 \<Rightarrow> ref ptr \<Rightarrow> call list \<Rightarrow> kern_return"
  on_handleReport :: "u64 \<Rightarrow> u8 list \<Rightarrow> u32 \<Rightarrow> call list \<Rightarrow> kern_return"

definition iv :: "'a \<Rightarrow> (XboxOneInputInterface_IVars \<Rightarrow> 'a) \<Rightarrow> ('z input_state_scheme, 'a) state" where
  "iv d f = member ivars d f"

definition set_iv :: "(XboxOneInputInterface_IVars \<Rightarrow> XboxOneInputInterface_IVars) \<Rightarrow>
    ('z input_state_scheme, unit) state" where
  "set_iv f = set_member ivars ivars_update f"

subsection \<open>Data to the device\<close>

definition set_out_memory :: "u8 list \<Rightarrow> XboxOneInputInterface_IVars \<Rightarrow> XboxOneInputInterface_IVars" where
  "set_out_memory mem v =
     v\<lparr>outPipe := outPipe v\<lparr>memory := memory (outPipe v)\<lparr>address := Some mem\<rparr>\<rparr>\<rparr>"

definition SendInterruptData ::
    "comm_api \<Rightarrow> u8 list \<Rightarrow> u8 \<Rightarrow> ('z input_state_scheme, kern_return) state" where
  "SendInterruptData C data sz = do {
     len \<leftarrow> iv 0 (\<lambda>v. mem_length (memory (outPipe v)));
     if len < ucast sz then return kIOReturnBadArgument
     else do {
       p \<leftarrow> iv None (\<lambda>v. address (memory (outPipe v)));
       mem \<leftarrow> deref [] p;
       ub_unless (unat sz \<le> length data) (Read_out_of_bounds (unat sz) (length data));
       ub_unless (unat sz \<le> length mem) (Write_out_of_bounds (unat sz) (length mem));
       ub_unless (2 < length mem) (Write_out_of_bounds 2 (length mem));
       c \<leftarrow> iv 0 outCounter;
       set_iv (\<lambda>v. v\<lparr>outCounter := outCounter v + 1\<rparr>);
       let mem' = (memcpy mem data (unat sz))[2 := c];
       set_iv (set_out_memory mem');
       out \<leftarrow> iv None (\<lambda>v. pipe (outPipe v));
       r \<leftarrow> deref 0 out;
       (ret, bytesTransferred) \<leftarrow>
         invoke (Pipe_IO r (take (unat sz) mem') (ucast sz))
           (on_Pipe_IO C r (take (unat sz) mem') (ucast sz));
       return ret
     }
   }"

subsection \<open>Data from the device\<close>

definition RequestAsyncInterruptData :: "comm_api \<Rightarrow> ('z input_state_scheme, kern_return) state" where
  "RequestAsyncInterruptData C = do {
     p \<leftarrow> iv None (\<lambda>v. pipe (inPipe v));
     r \<leftarrow> deref 0 p;
     b \<leftarrow> iv None (\<lambda>v. buffer (memory (inPipe v)));
     len \<leftarrow> iv 0 (\<lambda>v. mem_length (memory (inPipe v)));
     a \<leftarrow> iv None gotDataAction;
     invoke (Pipe_AsyncIO r b (ucast len) a) (on_AsyncIO C r b (ucast len) a)
   }"

text \<open>Reading member number \<open>i\<close> of a structure of bytes through a pointer to memory.\<close>
definition read_byte :: "u8 list ptr \<Rightarrow> nat \<Rightarrow> ('z input_state_scheme, u8) state" where
  "read_byte p i = do {
     mem \<leftarrow> deref [] p;
     ub_unless (p = None \<or> i < length mem) (Read_out_of_bounds i (length mem));
     return (byte_at mem i)
   }"

text \<open>\<^verbatim>\<open>DebugPrintButtonPacket\<close> reads the eighteen bytes it prints.\<close>
definition DebugPrintButtonPacket :: "comm_api \<Rightarrow> u8 list ptr \<Rightarrow> ('z input_state_scheme, unit) state" where
  "DebugPrintButtonPacket C p =
     when_do (DEBUG C) (do { _ \<leftarrow> State_Monad.traverse_list (read_byte p) [0..<18]; return () })"

definition HandleReportGeneric ::
    "comm_api \<Rightarrow> u8 list ptr \<Rightarrow> u32 \<Rightarrow> u64 \<Rightarrow> u8 \<Rightarrow> u8 \<Rightarrow> ('z input_state_scheme, bool) state" where
  "HandleReportGeneric C data actualByteCount completionTimestamp ptype sz = do {
     t \<leftarrow> read_byte data 0;
     if t \<noteq> ptype then return False
     else do {
       n \<leftarrow> read_byte data 3;
       if n \<noteq> sz then return False
       else do {
         p \<leftarrow> iv None (\<lambda>v. address (memory (inPipe v)));
         let report = (case p of None \<Rightarrow> [] | Some mem \<Rightarrow> mem);
         ret \<leftarrow> invoke (handleReport completionTimestamp report actualByteCount)
           (on_handleReport C completionTimestamp report actualByteCount);
         if ret \<noteq> kIOReturnSuccess then return False else return True
       }
     }
   }"

definition HandleControllerReport ::
    "comm_api \<Rightarrow> u8 list ptr \<Rightarrow> u32 \<Rightarrow> u64 \<Rightarrow> ('z input_state_scheme, bool) state" where
  "HandleControllerReport C data actualByteCount completionTimestamp = do {
     result \<leftarrow> HandleReportGeneric C data actualByteCount completionTimestamp
       XBOXONE_IN_BUTTON XBOXONE_BUTTON_REPORT_SIZE;
     when_do result (do {
       p \<leftarrow> iv None (\<lambda>v. address (memory (inPipe v)));
       DebugPrintButtonPacket C p });
     return result
   }"

text \<open>The response structure that \<^verbatim>\<open>HandleGuideReport\<close> fills in.\<close>
definition guide_response :: xboxone_guide_response where
  "guide_response =
     \<lparr>response_header = \<lparr>packetType = 0x01, version = 0x20, counter = 0x00, packetSize = 0x09\<rparr>,
      constData = [0x00, 0x07, 0x20, 0x02], padding = [0, 0, 0, 0, 0]\<rparr>"

definition HandleGuideReport ::
    "comm_api \<Rightarrow> u8 list ptr \<Rightarrow> u32 \<Rightarrow> u64 \<Rightarrow> ('z input_state_scheme, bool) state" where
  "HandleGuideReport C data actualByteCount completionTimestamp = do {
     result \<leftarrow> HandleReportGeneric C data actualByteCount completionTimestamp
       XBOXONE_IN_GUIDE XBOXONE_GUIDE_REPORT_SIZE;
     when_do result (do {
       ver \<leftarrow> read_byte data 1;
       when_do (ver = 0x30) (do {
         _ \<leftarrow> SendInterruptData C (guide_response_bytes guide_response) XBOXONE_GUIDE_RESPONSE_SIZE;
         return () }) });
     return result
   }"

definition GotData ::
    "comm_api \<Rightarrow> kern_return \<Rightarrow> u32 \<Rightarrow> u64 \<Rightarrow> ('z input_state_scheme, unit) state" where
  "GotData C status actualByteCount completionTimestamp = do {
     on \<leftarrow> (if status \<noteq> kIOReturnSuccess then return False else iv False enabled);
     when_do on (do {
       header \<leftarrow> iv None (\<lambda>v. address (memory (inPipe v)));
       when_do (DEBUG C) (do { _ \<leftarrow> read_byte header 0; _ \<leftarrow> read_byte header 3; return () });
       handled \<leftarrow> HandleControllerReport C header actualByteCount completionTimestamp;
       when_do (\<not> handled) (do {
         _ \<leftarrow> HandleGuideReport C header actualByteCount completionTimestamp;
         return () }) });
     _ \<leftarrow> RequestAsyncInterruptData C;
     return ()
   }"

subsection \<open>The enable switch\<close>

definition SetEnable :: "bool \<Rightarrow> ('z input_state_scheme, unit) state" where
  "SetEnable b = do {
     p \<leftarrow> gets ivars;
     when_do (p \<noteq> None) (set_iv (enabled_update (\<lambda>_. b)))
   }"

subsection \<open>Weakest preconditions of the accesses\<close>

lemma wp_iv [wp_simps]: "ivars s = Some v \<Longrightarrow> wp (iv d f) Q s = Q (f v) s"
  by (simp add: iv_def wp_simps)

lemma wp_set_iv [wp_simps]:
  "ivars s = Some v \<Longrightarrow> wp (set_iv f) Q s = Q () (s\<lparr>ivars := Some (f v)\<rparr>)"
  by (cases s) (simp add: set_iv_def wp_simps)

lemma keeps_iv [keeps_intros]: "keeps (calls_ok P) (iv d f)"
  unfolding iv_def by (rule keeps_member)

lemma keeps_set_iv [keeps_intros]: "keeps (calls_ok P) (set_iv f)"
  by (simp add: set_iv_def set_member_def keeps_def wp_simps calls_ok_def)

end
