(* ===== verification/Input_Traffic.thy ===== *)
theory Input_Traffic
  imports Input_Comm
begin

text \<open>
  What the traffic of \<open>Input_Comm\<close> amounts to: the contract of a numbered packet sender
  (\<open>packet_sender\<close>) that \<^verbatim>\<open>SendInterruptData\<close> meets, and an abstract
  specification of the callback \<^verbatim>\<open>GotData\<close> (classify the packet, deliver it to the
  HID stack, answer a guide report, listen again) that the detailed definition refines.
\<close>

subsection \<open>Actions of a list of calls\<close>

datatype action = Deliver "u8 list" u32 bool | Transmit "u8 list" | Listen

definition actions_of :: "call \<Rightarrow> action list" where
  "actions_of c =
     (case c of
        handleReport t bs n ret \<Rightarrow> [Deliver bs n (ret = kIOReturnSuccess)]
      | Pipe_IO p bs n r \<Rightarrow> [Transmit bs]
      | Pipe_AsyncIO p b n a r \<Rightarrow> [Listen]
      | _ \<Rightarrow> [])"

definition actions :: "call list \<Rightarrow> action list" where
  "actions cs = concat (map actions_of cs)"

fun transmitted :: "action list \<Rightarrow> u8 list list" where
  "transmitted [] = []"
| "transmitted (Transmit bs # as) = bs # transmitted as"
| "transmitted (_ # as) = transmitted as"

definition packets_sent :: "call list \<Rightarrow> u8 list list" where
  "packets_sent cs = transmitted (actions cs)"

text \<open>Packets carry their number, modulo 256, in byte 2; the next one carries \<open>n\<close>.\<close>
definition numbered :: "u8 \<Rightarrow> u8 list list \<Rightarrow> bool" where
  "numbered n ps \<longleftrightarrow> n = of_nat (length ps) \<and>
     (\<forall>i < length ps. 2 < length (ps ! i) \<and> ps ! i ! 2 = of_nat i)"

lemma actions_of_simps [simp]:
  "actions_of (handleReport t bs n ret) = [Deliver bs n (ret = kIOReturnSuccess)]"
  "actions_of (Pipe_IO p bs k r) = [Transmit bs]"
  "actions_of (Pipe_AsyncIO p b k a ret) = [Listen]"
  by (simp_all add: actions_of_def)

lemma actions_Nil [simp]: "actions [] = []"
  by (simp add: actions_def)

lemma actions_Cons [simp]: "actions (c # cs) = actions_of c @ actions cs"
  by (simp add: actions_def)

lemma actions_append [simp]: "actions (xs @ ys) = actions xs @ actions ys"
  by (simp add: actions_def)

lemma transmitted_append [simp]: "transmitted (xs @ ys) = transmitted xs @ transmitted ys"
  by (induction xs rule: transmitted.induct) auto

lemma packets_sent_append [simp]: "packets_sent (xs @ ys) = packets_sent xs @ packets_sent ys"
  by (simp add: packets_sent_def)

lemma packets_sent_Nil [simp]: "packets_sent [] = []"
  by (simp add: packets_sent_def)

lemma numbered_Nil: "numbered 0 []"
  by (simp add: numbered_def)

lemma numbered_snoc:
  assumes "numbered n ps" "2 < length p" "p ! 2 = n"
  shows "numbered (n + 1) (ps @ [p])"
  using assms by (auto simp: numbered_def nth_append less_Suc_eq)

subsection \<open>Reading and writing the stored variables\<close>

lemma wp_read_byte [wp_simps]:
  "i < length mem \<Longrightarrow> wp (read_byte (Some mem) i) Q s = Q (mem ! i) s"
  by (simp add: read_byte_def wp_simps)

lemma wp_read_bytes [wp_simps]:
  "\<forall>i \<in> set is. i < length mem \<Longrightarrow>
   wp (State_Monad.traverse_list (read_byte (Some mem)) is) Q s = Q (map ((!) mem) is) s"
  by (induction "is" arbitrary: Q) (simp_all add: wp_simps)

subsection \<open>Sending\<close>

definition out_capacity :: "XboxOneInputInterface_IVars \<Rightarrow> nat" where
  "out_capacity v = unat (mem_length (memory (outPipe v)))"

definition in_memory :: "XboxOneInputInterface_IVars \<Rightarrow> u8 list" where
  "in_memory v = (case address (memory (inPipe v)) of None \<Rightarrow> [] | Some mem \<Rightarrow> mem)"

text \<open>The memory of the OUT buffer and the bytes on the wire when a packet is sent.\<close>
definition out_image :: "XboxOneInputInterface_IVars \<Rightarrow> u8 list \<Rightarrow> u8 \<Rightarrow> u8 list" where
  "out_image v data sz =
     (memcpy (the (address (memory (outPipe v)))) data (unat sz))[2 := outCounter v]"

definition wire_packet :: "u8 \<Rightarrow> u8 list \<Rightarrow> u8 \<Rightarrow> u8 list" where
  "wire_packet n data sz = (take (unat sz) data)[2 := n]"

lemma unat_ucast_u8 [simp]: "unat (ucast b :: u64) = unat b" for b :: u8
  by transfer simp

lemma less_ucast_iff: "(len :: u64) < ucast sz \<longleftrightarrow> unat len < unat sz" for sz :: u8
  by (simp add: word_less_nat_alt)

lemma wp_Send_refuses:
  assumes "ivars s = Some v" "out_capacity v < unat sz"
  shows "wp (SendInterruptData C data sz) Q s = Q kIOReturnBadArgument s"
  using assms by (simp add: SendInterruptData_def wp_simps less_ucast_iff out_capacity_def)

lemma wp_Send_fits:
  assumes v: "ivars s = Some v" and ready: "pipe_ready (outPipe v)" "pipe (outPipe v) = Some p"
    and sz: "2 < unat sz" "unat sz \<le> length data" "unat sz \<le> out_capacity v"
    and pkt: "pkt = wire_packet (outCounter v) data sz"
    and r: "r = on_Pipe_IO C p pkt (ucast sz) (calls s)"
  shows "wp (SendInterruptData C data sz) Q s =
    Q (fst r) (s\<lparr>ivars := Some (set_out_memory (out_image v data sz)
                   (v\<lparr>outCounter := outCounter v + 1\<rparr>)),
                calls := calls s @ [Pipe_IO p pkt (ucast sz) r]\<rparr>)"
proof -
  obtain mem where mem: "address (memory (outPipe v)) = Some mem" "length mem = out_capacity v"
    using ready(1) by (auto simp: pipe_ready_def mapped_def out_capacity_def split: option.splits)
  have "\<not> mem_length (memory (outPipe v)) < ucast sz"
    using sz(3) by (simp add: less_ucast_iff out_capacity_def)
  moreover have "take (unat sz) ((memcpy mem data (unat sz))[2 := outCounter v]) = pkt"
    using sz by (simp add: pkt wire_packet_def take_update_swap)
  ultimately show ?thesis
    using v mem ready(2) sz
    by (simp add: SendInterruptData_def wp_simps out_image_def r set_out_memory_def
        split: prod.split)
qed

lemma pipe_ready_set_out_memory [simp]:
  "pipe_ready (outPipe v) \<Longrightarrow> length mem = out_capacity v \<Longrightarrow>
   pipe_ready (outPipe (set_out_memory mem v))"
  by (auto simp: pipe_ready_def mapped_def set_out_memory_def out_capacity_def)

lemma set_out_memory_frame [simp]:
  "inPipe (set_out_memory mem v) = inPipe v"
  "outCounter (set_out_memory mem v) = outCounter v"
  "enabled (set_out_memory mem v) = enabled v"
  "gotDataAction (set_out_memory mem v) = gotDataAction v"
  "interface (set_out_memory mem v) = interface v"
  "configurationDescriptor (set_out_memory mem v) = configurationDescriptor v"
  "pipe (outPipe (set_out_memory mem v)) = pipe (outPipe v)"
  "buffer (memory (outPipe (set_out_memory mem v))) = buffer (memory (outPipe v))"
  "out_capacity (set_out_memory mem v) = out_capacity v"
  by (simp_all add: set_out_memory_def out_capacity_def)

lemma out_capacity_frame [simp]:
  "out_capacity (v\<lparr>outCounter := n\<rparr>) = out_capacity v"
  "out_capacity (v\<lparr>enabled := b\<rparr>) = out_capacity v"
  by (simp_all add: out_capacity_def)

lemma length_out_image:
  assumes "pipe_ready (outPipe v)" "unat sz \<le> length data" "unat sz \<le> out_capacity v"
  shows "length (out_image v data sz) = out_capacity v"
  using assms
  by (auto simp: out_image_def pipe_ready_def mapped_def out_capacity_def split: option.splits)

subsection \<open>A numbered packet sender\<close>

locale packet_sender =
  fixes send :: "u8 list \<Rightarrow> u8 \<Rightarrow> ('s, kern_return) state"
    and ready :: "'s \<Rightarrow> bool"
    and capacity :: "'s \<Rightarrow> nat"
    and next_number :: "'s \<Rightarrow> u8"
    and sent :: "'s \<Rightarrow> u8 list list"
  assumes send_fits:
      "ready s \<Longrightarrow> 2 < unat sz \<Longrightarrow> unat sz \<le> length data \<Longrightarrow> unat sz \<le> capacity s \<Longrightarrow>
       wp (send data sz) (\<lambda>ret s'. ready s' \<and> capacity s' = capacity s \<and>
         sent s' = sent s @ [wire_packet (next_number s) data sz] \<and>
         next_number s' = next_number s + 1) s"
    and send_refuses:
      "ready s \<Longrightarrow> capacity s < unat sz \<Longrightarrow>
       wp (send data sz) (\<lambda>ret s'. ret = kIOReturnBadArgument \<and> s' = s) s"
begin

lemma send_numbered:
  assumes "ready s" "numbered (next_number s) (sent s)" "2 < unat sz" "unat sz \<le> length data"
  shows "wp (send data sz) (\<lambda>ret s'. ready s' \<and> capacity s' = capacity s \<and>
    numbered (next_number s') (sent s')) s"
proof (cases "unat sz \<le> capacity s")
  case True
  have "wire_packet n data sz ! 2 = n" "2 < length (wire_packet n data sz)" for n
    using assms(3,4) by (simp_all add: wire_packet_def)
  with assms(2) have "numbered (next_number s + 1) (sent s @ [wire_packet (next_number s) data sz])"
    by (simp add: numbered_snoc)
  with True show ?thesis
    using assms by (intro wp_mono [OF send_fits]) auto
next
  case False
  with assms show ?thesis by (intro wp_mono [OF send_refuses]) auto
qed

lemma send_two:
  assumes "ready s" "2 < unat n" "unat n \<le> length d" "unat n \<le> capacity s"
    and "2 < unat m" "unat m \<le> length e" "unat m \<le> capacity s"
  shows "wp (do { _ \<leftarrow> send d n; send e m })
    (\<lambda>ret s'. sent s' = sent s @ [wire_packet (next_number s) d n,
        wire_packet (next_number s + 1) e m]) s"
  unfolding wp_bind
  by (rule wp_mono [OF send_fits]) (use assms in \<open>auto intro!: wp_mono [OF send_fits]\<close>)

end

definition input_ivars :: "'z input_state_scheme \<Rightarrow> XboxOneInputInterface_IVars" where
  "input_ivars s = the (ivars s)"

definition out_ready :: "'z input_state_scheme \<Rightarrow> bool" where
  "out_ready s \<longleftrightarrow> ivars s \<noteq> None \<and> pipe_ready (outPipe (input_ivars s))"

lemma Send_fits_law:
  assumes "out_ready s" "2 < unat sz" "unat sz \<le> length data"
    "unat sz \<le> out_capacity (input_ivars s)"
  shows "wp (SendInterruptData C data sz) (\<lambda>ret s'. out_ready s' \<and>
    out_capacity (input_ivars s') = out_capacity (input_ivars s) \<and>
    packets_sent (calls s') =
      packets_sent (calls s) @ [wire_packet (outCounter (input_ivars s)) data sz] \<and>
    outCounter (input_ivars s') = outCounter (input_ivars s) + 1) s"
proof -
  from assms(1) obtain v p where "ivars s = Some v" "pipe_ready (outPipe v)"
    "pipe (outPipe v) = Some p"
    by (auto simp: out_ready_def input_ivars_def pipe_ready_def)
  with assms(2-) show ?thesis
    by (simp add: wp_Send_fits out_ready_def input_ivars_def packets_sent_def actions_of_def
        length_out_image)
qed

interpretation sender: packet_sender "SendInterruptData C" out_ready
  "\<lambda>s. out_capacity (input_ivars s)" "\<lambda>s. outCounter (input_ivars s)" "\<lambda>s. packets_sent (calls s)"
proof unfold_locales
  show "wp (SendInterruptData C data sz) (\<lambda>ret s'. ret = kIOReturnBadArgument \<and> s' = s) s"
    if "out_ready s" "out_capacity (input_ivars s) < unat sz" for s :: "'a input_state_scheme" and sz data
    using that by (auto simp: out_ready_def input_ivars_def wp_Send_refuses)
qed (rule Send_fits_law)

subsection \<open>Specification of the callback\<close>

datatype packet_class = Button_packet | Guide_packet bool | Unknown_packet

text \<open>What a packet is, by its header; a guide packet of version 0x30 wants an answer.\<close>
definition classify :: "u8 list \<Rightarrow> packet_class" where
  "classify mem =
     (let h = header_of mem in
      if packetType h = XBOXONE_IN_BUTTON \<and> packetSize h = 14 then Button_packet
      else if packetType h = XBOXONE_IN_GUIDE \<and> packetSize h = 2 then Guide_packet (version h = 0x30)
      else Unknown_packet)"

record spec_state =
  spec_on :: bool
  spec_next :: u8
  spec_mtu :: nat

definition spec_reply :: "u8 \<Rightarrow> u8 list" where
  "spec_reply n = [0x01, 0x20, n, 0x09, 0x00, 0x07, 0x20, 0x02, 0x00]"

text \<open>\<open>ok\<close>: the transfer succeeded; \<open>accepted\<close>: the HID stack takes the report.\<close>
definition spec_got_data ::
    "spec_state \<Rightarrow> bool \<Rightarrow> u8 list \<Rightarrow> u32 \<Rightarrow> bool \<Rightarrow> action list \<times> spec_state" where
  "spec_got_data \<sigma> ok mem n accepted =
     (if \<not> ok \<or> \<not> spec_on \<sigma> then ([Listen], \<sigma>)
      else (case classify mem of
          Unknown_packet \<Rightarrow> ([Listen], \<sigma>)
        | Button_packet \<Rightarrow> ([Deliver mem n accepted, Listen], \<sigma>)
        | Guide_packet reply \<Rightarrow>
            if accepted \<and> reply \<and> 9 \<le> spec_mtu \<sigma>
            then ([Deliver mem n accepted, Transmit (spec_reply (spec_next \<sigma>)), Listen],
                  \<sigma>\<lparr>spec_next := spec_next \<sigma> + 1\<rparr>)
            else ([Deliver mem n accepted, Listen], \<sigma>)))"

definition spec_of :: "XboxOneInputInterface_IVars \<Rightarrow> spec_state" where
  "spec_of v = \<lparr>spec_on = enabled v, spec_next = outCounter v, spec_mtu = out_capacity v\<rparr>"

text \<open>
  The state in which the callback runs: both pipes set up, and the IN buffer long enough for the
  bytes the build reads of a packet.
\<close>
definition comm_ready :: "comm_api \<Rightarrow> XboxOneInputInterface_IVars \<Rightarrow> bool" where
  "comm_ready C v \<longleftrightarrow> pipe_ready (inPipe v) \<and> pipe_ready (outPipe v) \<and>
     (if DEBUG C then 18 else 4) \<le> length (in_memory v)"

lemma comm_readyD:
  assumes "comm_ready C v"
  obtains mem p q where "address (memory (inPipe v)) = Some mem" "in_memory v = mem"
    "pipe (inPipe v) = Some p" "pipe (outPipe v) = Some q" "pipe_ready (outPipe v)"
    "4 \<le> length mem" "DEBUG C \<Longrightarrow> 18 \<le> length mem"
  using assms
  by (auto simp: comm_ready_def pipe_ready_def mapped_def in_memory_def
      split: option.splits if_splits)

lemma comm_ready_frame [simp]:
  "comm_ready C (v\<lparr>outCounter := n\<rparr>) = comm_ready C v"
  "comm_ready C (v\<lparr>enabled := b\<rparr>) = comm_ready C v"
  by (simp_all add: comm_ready_def in_memory_def)

lemma comm_ready_set_out_memory [simp]:
  "comm_ready C v \<Longrightarrow> length mem = out_capacity v \<Longrightarrow> comm_ready C (set_out_memory mem v)"
  by (simp add: comm_ready_def in_memory_def)

lemma header_of_nth:
  assumes "4 \<le> length mem"
  shows "packetType (header_of mem) = mem ! 0" "version (header_of mem) = mem ! 1"
    "packetSize (header_of mem) = mem ! 3"
proof -
  have "0 < length mem" "1 < length mem" "3 < length mem" using assms by auto
  then show "packetType (header_of mem) = mem ! 0" "version (header_of mem) = mem ! 1"
    "packetSize (header_of mem) = mem ! 3"
    by (simp_all only: header_of_def byte_at_nth xboxone_report_header.simps)
qed

lemma wp_HandleReportGeneric:
  assumes v: "ivars s = Some v" and ready: "comm_ready C v"
    and r: "r = on_handleReport C t (in_memory v) n (calls s)"
  shows "wp (HandleReportGeneric C (address (memory (inPipe v))) n t ptype sz) Q s =
    (if packetType (header_of (in_memory v)) = ptype \<and> packetSize (header_of (in_memory v)) = sz
     then Q (r = kIOReturnSuccess) (s\<lparr>calls := calls s @ [handleReport t (in_memory v) n r]\<rparr>)
     else Q False s)"
proof -
  from ready obtain mem where mem: "address (memory (inPipe v)) = Some mem" "in_memory v = mem"
    "4 \<le> length mem"
    by (rule comm_readyD)
  then have "0 < length mem" "3 < length mem" by auto
  with mem v show ?thesis
    by (auto simp: HandleReportGeneric_def wp_simps header_of_nth r simp del: length_greater_0_conv)
qed

lemma wp_DebugPrintButtonPacket:
  assumes "comm_ready C v"
  shows "wp (DebugPrintButtonPacket C (address (memory (inPipe v)))) Q s = Q () s"
  using assms
  by (auto simp: DebugPrintButtonPacket_def wp_simps elim!: comm_readyD)

definition async_call :: "comm_api \<Rightarrow> XboxOneInputInterface_IVars \<Rightarrow> call list \<Rightarrow> call" where
  "async_call C v h =
     (let p = the (pipe (inPipe v)); b = buffer (memory (inPipe v));
          n = ucast (mem_length (memory (inPipe v))); a = gotDataAction v
      in Pipe_AsyncIO p b n a (on_AsyncIO C p b n a h))"

lemma actions_of_async_call [simp]: "actions_of (async_call C v h) = [Listen]"
  by (simp add: async_call_def actions_of_def Let_def)

lemma wp_RequestAsync:
  assumes "ivars s = Some v" "pipe (inPipe v) = Some p"
  shows "\<exists>r. wp (RequestAsyncInterruptData C) Q s =
    Q r (s\<lparr>calls := calls s @ [async_call C v (calls s)]\<rparr>)"
  using assms by (auto simp: RequestAsyncInterruptData_def wp_simps async_call_def Let_def)

lemma wp_RequestAsync_unit:
  assumes "ivars s = Some v" "comm_ready C v"
  shows "wp (RequestAsyncInterruptData C) (\<lambda>_. Q) s =
    Q (s\<lparr>calls := calls s @ [async_call C v (calls s)]\<rparr>)"
  using assms wp_RequestAsync [of s v _ C "\<lambda>_. Q"] by (auto elim!: comm_readyD)

lemma wp_HandleControllerReport:
  assumes v: "ivars s = Some v" and ready: "comm_ready C v"
    and r: "r = on_handleReport C t (in_memory v) n (calls s)"
  shows "wp (HandleControllerReport C (address (memory (inPipe v))) n t) Q s =
    (if classify (in_memory v) = Button_packet
     then Q (r = kIOReturnSuccess) (s\<lparr>calls := calls s @ [handleReport t (in_memory v) n r]\<rparr>)
     else Q False s)"
  using assms
  by (auto simp: HandleControllerReport_def wp_simps wp_HandleReportGeneric [OF v ready r]
      wp_DebugPrintButtonPacket classify_def Let_def)

text \<open>The stored variables and the calls after the answer to a guide report.\<close>
definition reply_ivars :: "XboxOneInputInterface_IVars \<Rightarrow> XboxOneInputInterface_IVars" where
  "reply_ivars v =
     set_out_memory (out_image v (guide_response_bytes guide_response) XBOXONE_GUIDE_RESPONSE_SIZE)
       (v\<lparr>outCounter := outCounter v + 1\<rparr>)"

definition reply_call :: "comm_api \<Rightarrow> XboxOneInputInterface_IVars \<Rightarrow> call list \<Rightarrow> call" where
  "reply_call C v h =
     (let p = the (pipe (outPipe v)); pkt = spec_reply (outCounter v)
      in Pipe_IO p pkt 9 (on_Pipe_IO C p pkt 9 h))"

lemma wire_guide_response:
  "wire_packet n (guide_response_bytes guide_response) 9 = spec_reply n"
  by (simp add: wire_packet_def guide_response_bytes_def guide_response_def header_bytes_def
      spec_reply_def)

lemma actions_of_reply_call [simp]: "actions_of (reply_call C v h) = [Transmit (spec_reply (outCounter v))]"
  by (simp add: reply_call_def actions_of_def Let_def)

lemma length_guide_response: "length (guide_response_bytes guide_response) = 13"
  by (simp add: guide_response_bytes_def guide_response_def header_bytes_def)

lemma reply_ivars_frame:
  assumes "comm_ready C v" "9 \<le> out_capacity v"
  shows "comm_ready C (reply_ivars v)" "in_memory (reply_ivars v) = in_memory v"
    "spec_of (reply_ivars v) = (spec_of v)\<lparr>spec_next := outCounter v + 1\<rparr>"
    "inPipe (reply_ivars v) = inPipe v" "enabled (reply_ivars v) = enabled v"
    "outCounter (reply_ivars v) = outCounter v + 1" "out_capacity (reply_ivars v) = out_capacity v"
  using assms
  by (simp_all add: reply_ivars_def length_out_image length_guide_response in_memory_def spec_of_def
      comm_ready_def)

lemma wp_guide_answer:
  assumes v: "ivars s = Some v" and ready: "comm_ready C v"
  shows "wp (SendInterruptData C (guide_response_bytes guide_response) 9) (\<lambda>_. Q) s =
    Q (if 9 \<le> out_capacity v
       then s\<lparr>ivars := Some (reply_ivars v), calls := calls s @ [reply_call C v (calls s)]\<rparr>
       else s)"
proof (cases "9 \<le> out_capacity v")
  case True
  from ready obtain q where "pipe (outPipe v) = Some q" "pipe_ready (outPipe v)"
    by (rule comm_readyD)
  with True v show ?thesis
    by (simp add: wp_Send_fits wire_guide_response length_guide_response reply_ivars_def
        reply_call_def Let_def)
next
  case False
  with v show ?thesis by (simp add: wp_Send_refuses)
qed

lemma wp_HandleGuideReport:
  assumes v: "ivars s = Some v" and ready: "comm_ready C v"
    and r: "r = on_handleReport C t (in_memory v) n (calls s)"
    and s1: "s1 = s\<lparr>calls := calls s @ [handleReport t (in_memory v) n r]\<rparr>"
  shows "wp (HandleGuideReport C (address (memory (inPipe v))) n t) Q s =
    (case classify (in_memory v) of
       Guide_packet reply \<Rightarrow>
         if r = kIOReturnSuccess \<and> reply \<and> 9 \<le> out_capacity v
         then Q True (s1\<lparr>ivars := Some (reply_ivars v), calls := calls s1 @ [reply_call C v (calls s1)]\<rparr>)
         else Q (r = kIOReturnSuccess) s1
     | _ \<Rightarrow> Q False s)"
proof -
  from ready obtain mem where mem: "address (memory (inPipe v)) = Some mem" "in_memory v = mem"
    "4 \<le> length mem"
    by (rule comm_readyD)
  have i: "Suc 0 < length mem" using mem(3) by simp
  show ?thesis
    unfolding HandleGuideReport_def wp_bind wp_HandleReportGeneric [OF v ready r]
    using mem i v ready
    by (auto simp: wp_simps wp_guide_answer s1 header_of_nth classify_def Let_def
        XBOXONE_IN_GUIDE_def XBOXONE_IN_BUTTON_def)
qed

lemma wp_read_header:
  assumes "i < length (in_memory v)"
  shows "wp (read_byte (address (memory (inPipe v))) i) Q s = Q (in_memory v ! i) s"
  using assms by (auto simp: in_memory_def wp_simps split: option.splits)

lemma comm_ready_header:
  assumes "comm_ready C v"
  shows "in_memory v \<noteq> []" "3 < length (in_memory v)"
  using assms by (auto simp: comm_ready_def split: if_splits)

lemmas handler_wps = wp_RequestAsync_unit wp_HandleControllerReport [OF _ _ refl]
  wp_HandleGuideReport [OF _ _ refl refl] wp_read_header

text \<open>The callback refines its specification.\<close>
lemma GotData_refines:
  assumes v: "ivars s = Some v" and ready: "comm_ready C v"
    and ok: "ok = (on_handleReport C t (in_memory v) n (calls s) = kIOReturnSuccess)"
  shows "wp (GotData C status n t) (\<lambda>_ s'. \<exists>new v'. calls s' = calls s @ new \<and>
      ivars s' = Some v' \<and> ub s' = ub s \<and> input_state.more s' = input_state.more s \<and>
      comm_ready C v' \<and> in_memory v' = in_memory v \<and>
      (actions new, spec_of v') =
        spec_got_data (spec_of v) (status = kIOReturnSuccess) (in_memory v) n ok) s"
proof (cases "status = kIOReturnSuccess \<and> enabled v")
  case False
  then show ?thesis
    using v ready
    by (auto simp: GotData_def wp_simps wp_RequestAsync_unit spec_got_data_def spec_of_def)
next
  case True
  have on: "spec_on (spec_of v)" using True by (simp add: spec_of_def)
  note v ready ok on comm_ready_header [OF ready]
  note facts = this
  show ?thesis
  proof (cases "classify (in_memory v)")
    case Button_packet
    with True facts show ?thesis
      by (simp add: GotData_def wp_simps handler_wps spec_got_data_def)
  next
    case (Guide_packet reply)
    with True facts show ?thesis
      by (simp add: GotData_def wp_simps handler_wps spec_got_data_def
          reply_ivars_frame spec_of_def)
  next
    case Unknown_packet
    with True facts show ?thesis
      by (simp add: GotData_def wp_simps handler_wps spec_got_data_def)
  qed
qed

subsection \<open>Facts about the specification\<close>

lemma spec_keeps_numbering:
  assumes "spec_got_data \<sigma> ok mem n acc = (as, \<sigma>')" "numbered (spec_next \<sigma>) ps"
  shows "numbered (spec_next \<sigma>') (ps @ transmitted as)"
  using assms
  by (auto simp: spec_got_data_def spec_reply_def intro!: numbered_snoc
      split: if_splits packet_class.splits)

lemma spec_listens_last:
  assumes "spec_got_data \<sigma> ok mem n acc = (as, \<sigma>')"
  shows "\<exists>bs. as = bs @ [Listen] \<and> Listen \<notin> set bs"
  using assms by (auto simp: spec_got_data_def split: if_splits packet_class.splits)

lemma spec_frame:
  assumes "spec_got_data \<sigma> ok mem n acc = (as, \<sigma>')"
  shows "spec_on \<sigma>' = spec_on \<sigma>" "spec_mtu \<sigma>' = spec_mtu \<sigma>"
  using assms by (auto simp: spec_got_data_def split: if_splits packet_class.splits)

end
