(* ===== verification/Wire_Correctness.thy ===== *)
theory Wire_Correctness
  imports Descriptors Input_Traffic
begin

text \<open>
  Properties of the wire formats: the bytes of the packets, the button masks, and the agreement of
  the report descriptor with the packets, which is what makes the system read the controller right
  when the driver hands it a packet unchanged.
\<close>

subsection \<open>Buttons\<close>

lemma bit_button_mask: "bit (button_mask b) k \<longleftrightarrow> k = button_bit b"
  using button_bit_less [of b] by (simp add: button_mask_bit bit_exp_iff) auto

lemma button_bit_inj: "button_bit b = button_bit c \<longleftrightarrow> b = c"
  by (cases b; cases c) simp_all

lemma button_bit_nth: "i < 16 \<Longrightarrow> button_bit (all_buttons ! i) = i"
  by (auto simp: all_buttons_def less_Suc_eq numeral_eq_Suc)

text \<open>The member that a set of pressed buttons gives.\<close>
fun mask_of :: "xboxone_buttons list \<Rightarrow> u16" where
  "mask_of [] = 0"
| "mask_of (b # bs) = (button_mask b OR mask_of bs)"

lemma bit_mask_of: "bit (mask_of bs) k \<longleftrightarrow> (\<exists>b \<in> set bs. k = button_bit b)"
  by (induction bs) (auto simp: bit_or_iff bit_button_mask)

text \<open>
  C29. Two buttons never share a bit of the button member, and the member of a report is the union
  of the masks of the buttons that are pressed, so no bit of it is without a button.
\<close>
theorem buttons_partition:
  "button_mask b AND button_mask c = (if b = c then button_mask b else 0) \<and>
   buttons r = mask_of (filter (pressed r) all_buttons)"
proof
  show "button_mask b AND button_mask c = (if b = c then button_mask b else 0)"
    by (rule bit_word_eqI) (auto simp: bit_and_iff bit_button_mask button_bit_inj)
  show "buttons r = mask_of (filter (pressed r) all_buttons)"
  proof (rule bit_word_eqI)
    fix k
    assume "k < LENGTH(16)"
    then have "button_bit (all_buttons ! k) = k" by (simp add: button_bit_nth)
    then show "bit (buttons r) k \<longleftrightarrow> bit (mask_of (filter (pressed r) all_buttons)) k"
      by (auto simp: bit_mask_of pressed_bit intro: exI [of _ "all_buttons ! k"])
  qed
qed

subsection \<open>Structures\<close>



text \<open>
  The payload sizes the header announces are those of the structures: the two reports are a
  four-byte header and 14 and 2 bytes, without padding.
\<close>
lemma report_sizes_match:
  "length (button_report_bytes r) = unat XBOXONE_REPORT_HEADER_SIZE + unat XBOXONE_BUTTON_REPORT_SIZE \<and>
   length (guide_report_bytes g) = unat XBOXONE_REPORT_HEADER_SIZE + unat XBOXONE_GUIDE_REPORT_SIZE \<and>
   length (button_report_bytes r) = struct_sizeof button_report_members \<and>
   length (guide_report_bytes g) = struct_sizeof guide_report_members"
  by (simp add: button_report_bytes_def guide_report_bytes_def)


subsection \<open>The report descriptor\<close>

lemma u16_at_append_left: "Suc i < length bs \<Longrightarrow> u16_at (bs @ rest) i = u16_at bs i"
  by (simp add: u16_at_def byte_at_def nth_append)

lemma button_report_words:
  "u16_at (button_report_bytes r @ rest) 4 = buttons r"
  "u16_at (button_report_bytes r @ rest) 6 = trigL r" "u16_at (button_report_bytes r @ rest) 8 = trigR r"
  "u16_at (button_report_bytes r @ rest) 10 = leftX r" "u16_at (button_report_bytes r @ rest) 12 = leftY r"
  "u16_at (button_report_bytes r @ rest) 14 = rightX r" "u16_at (button_report_bytes r @ rest) 16 = rightY r"
  by (simp_all add: button_report_bytes_def u16_at_skip)

lemma button_report_id: "byte_at (button_report_bytes r @ rest) 0 = packetType (button_header r)"
  by (simp add: button_report_bytes_def header_bytes_def)

lemma lookup_pressed:
  assumes "button_usage b = Some u" "packetType (button_header r) = XBOXONE_IN_BUTTON"
  shows "hid_lookup ReportDescriptor (button_report_bytes r @ rest) 9 u = Some (of_bool (pressed r b))"
proof -
  have "byte_at (button_report_bytes r @ rest) 0 = 0x20"
    using assms(2) by (simp add: button_report_id XBOXONE_IN_BUTTON_def)
  from button_field [OF assms(1) this]
  show ?thesis
    unfolding bit_of_u16_at [OF button_bit_less] button_report_words by (simp add: pressed_bit)
qed

text \<open>
  C10. Read with the driver's report descriptor, a button packet says of every button with a usage
  whether it is pressed; every button but the guide button has a usage, and no two share one.
\<close>
theorem hid_button_state:
  assumes "packetType (button_header r) = XBOXONE_IN_BUTTON" "b \<noteq> XBOXONE_GUIDE"
  shows "\<exists>u. button_usage b = Some u \<and> (\<forall>c. button_usage c = Some u \<longrightarrow> c = b) \<and>
    hid_lookup ReportDescriptor (button_report_bytes r @ rest) 9 u = Some (of_bool (pressed r b))"
proof -
  obtain u where u: "button_usage b = Some u" using assms(2) by (cases b) simp_all
  moreover have "c = b" if "button_usage c = Some u" for c
    using u that by (cases b; cases c) simp_all
  ultimately show ?thesis using lookup_pressed [OF u assms(1)] by blast
qed

definition sample_header :: xboxone_report_header where
  "sample_header = \<lparr>packetType = XBOXONE_IN_BUTTON, version = 0, counter = 0, packetSize = 14\<rparr>"

definition sample_report :: xboxone_button_report where
  "sample_report = \<lparr>button_header = sample_header, buttons = 0x0110, trigL = 1023, trigR = 0,
     leftX = 0x8000, leftY = 1, rightX = 2, rightY = 3\<rparr>"

theorem hid_button_state_witness:
  "packetType (button_header sample_report) = XBOXONE_IN_BUTTON \<and> pressed sample_report XBOXONE_A \<and>
   hid_lookup ReportDescriptor (button_report_bytes sample_report) 9 1 = Some 1"
  using hid_button_state [of sample_report XBOXONE_A "[]"]
  by (simp add: sample_report_def sample_header_def pressed_def)

lemma axis_field:
  assumes "byte_at bs 0 = 0x20"
    "find (\<lambda>f. \<not> field_constant f \<and> field_report f = 32 \<and> field_page f = 1 \<and> field_usage f = u)
       (button_fields @ guide_fields) = Some (data_field 32 (8 * i) 16 1 u lo hi)"
  shows "hid_lookup ReportDescriptor bs 1 u =
    Some (if lo < 0 then sint (u16_at bs (Suc i)) else uint (u16_at bs (Suc i)))"
  using assms hid_lookup_eq [of bs 1 u] by (simp add: field_value_word)

text \<open>
  C11. Read with the driver's report descriptor, a button packet gives the triggers as unsigned and
  the sticks as signed sixteen-bit values, each at its usage of the generic desktop page.
\<close>
theorem hid_axes_state:
  assumes "packetType (button_header r) = XBOXONE_IN_BUTTON"
  shows "map (hid_lookup ReportDescriptor (button_report_bytes r @ rest) 1) [0x32, 0x35, 0x30, 0x31, 0x33, 0x34] =
    [Some (uint (trigL r)), Some (uint (trigR r)), Some (sint (leftX r)), Some (sint (leftY r)),
     Some (sint (rightX r)), Some (sint (rightY r))]"
proof -
  let ?bs = "button_report_bytes r @ rest"
  have id: "byte_at ?bs 0 = 0x20"
    using assms by (simp add: button_report_id XBOXONE_IN_BUTTON_def)
  note axis = axis_field [OF id]
  have "hid_lookup ReportDescriptor ?bs 1 0x32 = Some (uint (trigL r))"
    using axis [of "0x32" 5 0 1023] by (simp add: field_defs button_report_words)
  moreover have "hid_lookup ReportDescriptor ?bs 1 0x35 = Some (uint (trigR r))"
    using axis [of "0x35" 7 0 1023] by (simp add: field_defs button_report_words)
  moreover have "hid_lookup ReportDescriptor ?bs 1 0x30 = Some (sint (leftX r))"
    using axis [of "0x30" 9 "-32768" 32767] by (simp add: field_defs button_report_words)
  moreover have "hid_lookup ReportDescriptor ?bs 1 0x31 = Some (sint (leftY r))"
    using axis [of "0x31" 11 "-32768" 32767] by (simp add: field_defs button_report_words)
  moreover have "hid_lookup ReportDescriptor ?bs 1 0x33 = Some (sint (rightX r))"
    using axis [of "0x33" 13 "-32768" 32767] by (simp add: field_defs button_report_words)
  moreover have "hid_lookup ReportDescriptor ?bs 1 0x34 = Some (sint (rightY r))"
    using axis [of "0x34" 15 "-32768" 32767] by (simp add: field_defs button_report_words)
  ultimately show ?thesis by simp
qed

theorem hid_axes_state_witness:
  "packetType (button_header sample_report) = XBOXONE_IN_BUTTON \<and>
   hid_lookup ReportDescriptor (button_report_bytes sample_report) 1 0x30 = Some (- 32768)"
  using hid_axes_state [of sample_report "[]"] by (simp add: sample_report_def sample_header_def)

text \<open>
  C35. Read with the driver's report descriptor, a guide packet says whether the guide button is
  down: bit 0 of its first payload byte.
\<close>
theorem hid_guide_state:
  assumes "packetType (guide_header g) = XBOXONE_IN_GUIDE"
  shows "hid_lookup ReportDescriptor (guide_report_bytes g @ rest) 9 16 = Some (of_bool (bit (guide g) 0))"
proof -
  let ?bs = "guide_report_bytes g @ rest"
  have id: "byte_at ?bs 0 = 7"
    using assms by (simp add: guide_report_bytes_def header_bytes_def XBOXONE_IN_GUIDE_def)
  have "find (\<lambda>f. \<not> field_constant f \<and> field_report f = unat (byte_at ?bs 0) \<and>
      field_page f = 9 \<and> field_usage f = 16) (button_fields @ guide_fields)
    = Some (data_field 7 24 (Suc 0) 9 16 0 1)"
    by (simp add: field_defs id)
  then have "hid_lookup ReportDescriptor ?bs 9 16 = Some (of_bool (bit_of ?bs 32))"
    by (simp add: hid_lookup_eq field_value_bit)
  moreover have "bit_of ?bs 32 = bit (guide g) 0"
    by (simp add: bit_of_def guide_report_bytes_def header_bytes_def nth_append)
  ultimately show ?thesis by simp
qed

definition sample_guide :: xboxone_guide_report where
  "sample_guide = \<lparr>guide_header = \<lparr>packetType = XBOXONE_IN_GUIDE, version = 0x30, counter = 0,
     packetSize = 2\<rparr>, guide = 1, reserved1 = 0\<rparr>"

theorem hid_guide_state_witness:
  "packetType (guide_header sample_guide) = XBOXONE_IN_GUIDE \<and>
   hid_lookup ReportDescriptor (guide_report_bytes sample_guide) 9 16 = Some 1"
  using hid_guide_state [of sample_guide "[]"] by (simp add: sample_guide_def)



text \<open>
  The button fields declare an empty range of values: their logical minimum is 1 and no
  logical maximum is declared before them, so the maximum is still 0.
\<close>
lemma button_range_empty:
  "map (\<lambda>f. (field_min f, field_max f)) (filter (\<lambda>f. field_page f = 9 \<and> \<not> field_constant f) button_fields)
     = replicate 15 (1, 0) \<and>
   hid_fields ReportDescriptor = Some (button_fields @ guide_fields)"
  by (simp add: descriptor_fields field_defs numeral_eq_Suc)

end
