(* ===== verification/Driver_Lifecycle.thy ===== *)
theory Driver_Lifecycle
  imports Platform
begin

text \<open>
  The life cycle all driver classes of the repository share: \<^verbatim>\<open>init\<close> calls the base
  class and allocates the \<^verbatim>\<open>ivars\<close>, \<^verbatim>\<open>free\<close> deletes them and calls the
  base class.  The locale \<open>driver_object\<close> is that contract and what follows from it for the
  whole life of an object; each driver class interprets it.
\<close>

text \<open>Allocations of \<^verbatim>\<open>ivars\<close> that a list of calls has made and not deleted.\<close>
fun ivars_live :: "call list \<Rightarrow> int" where
  "ivars_live [] = 0"
| "ivars_live (c # cs) =
     of_bool (c = IONewZero True) - of_bool (c = IODelete) + ivars_live cs"

text \<open>What a step between \<^verbatim>\<open>init\<close> and \<^verbatim>\<open>free\<close> leaves alone.\<close>
definition keeps_ivars ::
    "('s \<Rightarrow> bool) \<Rightarrow> ('s \<Rightarrow> call list) \<Rightarrow> ('s, 'a) state \<Rightarrow> bool" where
  "keeps_ivars has_ivars trace m \<longleftrightarrow>
     (\<forall>s. wp m (\<lambda>_ s'. has_ivars s' = has_ivars s \<and> ivars_live (trace s') = ivars_live (trace s)) s)"

lemma ivars_live_append [simp]: "ivars_live (xs @ ys) = ivars_live xs + ivars_live ys"
  by (induction xs) auto

lemma keeps_ivars_bind:
  assumes "keeps_ivars h t m" "\<And>x. keeps_ivars h t (f x)"
  shows "keeps_ivars h t (State_Monad.bind m f)"
proof -
  have "wp m (\<lambda>x. wp (f x) (\<lambda>_ s'. h s' = h s \<and> ivars_live (t s') = ivars_live (t s))) s" for s
    using assms(1) [unfolded keeps_ivars_def, rule_format, of s]
  proof (rule wp_mono)
    fix x u
    assume u: "h u = h s \<and> ivars_live (t u) = ivars_live (t s)"
    from assms(2) [unfolded keeps_ivars_def, rule_format, of x u]
    show "wp (f x) (\<lambda>_ s'. h s' = h s \<and> ivars_live (t s') = ivars_live (t s)) u"
      by (rule wp_mono) (use u in simp)
  qed
  then show ?thesis by (simp add: keeps_ivars_def wp_bind)
qed

lemma ivars_live_releases [simp]:
  "ivars_live (map release rs) = 0" "ivars_live (map IOUSBHostFreeDescriptor rs) = 0"
  by (induction rs) simp_all

locale driver_object =
  fixes obj_init :: "('s, bool) state"
    and obj_free :: "('s, unit) state"
    and has_ivars :: "'s \<Rightarrow> bool"
    and trace :: "'s \<Rightarrow> call list"
  assumes init_law: "\<not> has_ivars s \<Longrightarrow>
      wp obj_init (\<lambda>ok s'. ok = has_ivars s' \<and>
        ivars_live (trace s') = ivars_live (trace s) + of_bool (has_ivars s')) s"
    and free_law:
      "wp obj_free (\<lambda>_ s'. \<not> has_ivars s' \<and>
        ivars_live (trace s') = ivars_live (trace s) - of_bool (has_ivars s)) s"
begin

lemma lifetime:
  assumes "\<not> has_ivars s" and m: "keeps_ivars has_ivars trace m"
  shows "wp (do { ok \<leftarrow> obj_init; _ \<leftarrow> m; obj_free })
    (\<lambda>_ s'. \<not> has_ivars s' \<and> ivars_live (trace s') = ivars_live (trace s)) s"
  unfolding wp_bind
proof (rule wp_mono [OF init_law [OF assms(1)]])
  fix ok s1
  assume s1: "ok = has_ivars s1 \<and>
    ivars_live (trace s1) = ivars_live (trace s) + of_bool (has_ivars s1)"
  have "wp m (\<lambda>_ s'. has_ivars s' = has_ivars s1 \<and> ivars_live (trace s') = ivars_live (trace s1)) s1"
    using m by (simp add: keeps_ivars_def)
  then show "wp m (\<lambda>_. wp obj_free
      (\<lambda>_ s'. \<not> has_ivars s' \<and> ivars_live (trace s') = ivars_live (trace s))) s1"
    by (rule wp_mono) (use s1 in \<open>auto intro: wp_mono [OF free_law]\<close>)
qed

lemma free_twice:
  "wp (do { obj_free; obj_free })
     (\<lambda>_ s'. ivars_live (trace s') = ivars_live (trace s) - of_bool (has_ivars s)) s"
  unfolding wp_bind
  by (rule wp_mono [OF free_law]) (auto intro: wp_mono [OF free_law])

end

end
