(* ===== verification/Input_Startup.thy ===== *)
theory Input_Startup
  imports Input_Traffic Driver_Lifecycle
begin

text \<open>
  The start of \<^verbatim>\<open>XboxOneInputInterface.cpp\<close>: \<^verbatim>\<open>init\<close>,
  \<^verbatim>\<open>Start_Impl\<close>, the search for the two interrupt pipes, their set-up and
  \<^verbatim>\<open>handleStart\<close>.  An out-parameter of a framework function is an answer that may
  depend on the old value of the variable, so a function that leaves it alone on failure is
  covered.  The search loop asks the framework for the next endpoint until there is none; since
  nothing in the code bounds it, it is a partial function, and \<open>None\<close> is a search that never
  ends.
\<close>

subsection \<open>Answers of the frameworks\<close>

record startup_api = interface_api +
  on_Interface_Open :: "ref \<Rightarrow> call list \<Rightarrow> kern_return"
  next_endpoint :: "ref ptr \<Rightarrow> ref ptr \<Rightarrow> ref ptr \<Rightarrow> ref ptr"
  endpoint_type :: "ref \<Rightarrow> endpoint_type"
  endpoint_direction :: "ref \<Rightarrow> endpoint_direction"
  endpoint_address :: "ref \<Rightarrow> u8"
  endpoint_interval :: "u8 \<Rightarrow> ref ptr \<Rightarrow> u32"
  endpoint_max_packet :: "u8 \<Rightarrow> ref ptr \<Rightarrow> u64"
  on_CopyPipe :: "ref \<Rightarrow> u8 \<Rightarrow> ref ptr \<Rightarrow> call list \<Rightarrow> kern_return \<times> ref ptr"
  on_GetSpeed :: "ref \<Rightarrow> u8 \<Rightarrow> call list \<Rightarrow> kern_return \<times> u8"
  on_CreateIOBuffer :: "ref \<Rightarrow> u64 \<Rightarrow> ref ptr \<Rightarrow> call list \<Rightarrow> kern_return \<times> ref ptr"
  on_Map :: "ref \<Rightarrow> u64 \<Rightarrow> call list \<Rightarrow> kern_return \<times> u8 list \<times> u64"
  on_CopyProperties :: "call list \<Rightarrow> kern_return \<times> ref ptr"
  property_UInt64 :: "ref ptr \<Rightarrow> dict_key \<Rightarrow> u64"
  on_CreateActionGotData :: "u64 \<Rightarrow> ref ptr \<Rightarrow> call list \<Rightarrow> kern_return \<times> ref ptr"

subsection \<open>Packets of the start\<close>

definition INIT_PACKET :: "u8 list" where
  "INIT_PACKET = [0x05, 0x20, 0x00, 0x01, 0x00]"

definition INIT_PACKET_SIZE :: u8 where
  "INIT_PACKET_SIZE = of_nat (length INIT_PACKET)"

definition SWAP_TO_WIRED_PACKET :: "u8 list" where
  "SWAP_TO_WIRED_PACKET = [0x05, 0x20, 0x00, 0x0f, 0x06]"

definition SWAP_TO_WIRED_PACKET_SIZE :: u8 where
  "SWAP_TO_WIRED_PACKET_SIZE = of_nat (length SWAP_TO_WIRED_PACKET)"

subsection \<open>Initialisation and start\<close>

definition zeroed_ivars :: XboxOneInputInterface_IVars where
  "zeroed_ivars = \<lparr>interface = None, configurationDescriptor = None, interfaceDescriptor = None,
     inPipe = default_pipe, outPipe = default_pipe, gotDataAction = None, outCounter = 0,
     enabled = False\<rparr>"

definition XboxOneInputInterface_init ::
    "'a startup_api_scheme \<Rightarrow> ('z input_state_scheme, bool) state" where
  "XboxOneInputInterface_init A = do {
     result \<leftarrow> invoke super_init (on_super_init A);
     if \<not> result then return False
     else do {
       ok \<leftarrow> invoke IONewZero (on_IONewZero A);
       modify (\<lambda>s. s\<lparr>ivars := (if ok then Some zeroed_ivars else None)\<rparr>);
       if \<not> ok then return False
       else do {
         set_iv (\<lambda>v. v\<lparr>enabled := True\<rparr>);
         return True
       }
     }
   }"

text \<open>The base class's \<^verbatim>\<open>Start\<close> calls back into the object; it is a parameter action.\<close>
definition XboxOneInputInterface_Start ::
    "'a startup_api_scheme \<Rightarrow> (ref ptr \<Rightarrow> ('z input_state_scheme, kern_return) state) \<Rightarrow> ref ptr \<Rightarrow>
     ('z input_state_scheme, kern_return) state" where
  "XboxOneInputInterface_Start A super_start provider = do {
     set_iv (\<lambda>v. v\<lparr>interface := OSDynamicCast (is_IOUSBHostInterface A) provider\<rparr>);
     i \<leftarrow> iv None interface;
     case i of
       None \<Rightarrow> return kIOReturnSuccess
     | Some r \<Rightarrow> do {
         ret \<leftarrow> invoke (Interface_Open r) (on_Interface_Open A r);
         if ret \<noteq> kIOReturnSuccess then return ret
         else super_start provider
       }
   }"

definition InitDescriptors :: "'a startup_api_scheme \<Rightarrow> ('z input_state_scheme, bool) state" where
  "InitDescriptors A = do {
     p \<leftarrow> iv None interface;
     i \<leftarrow> deref 0 p;
     cd \<leftarrow> invoke (Interface_CopyConfigurationDescriptor i) (on_CopyConfigurationDescriptor A i);
     set_iv (\<lambda>v. v\<lparr>configurationDescriptor := cd\<rparr>);
     case cd of
       None \<Rightarrow> return False
     | Some c \<Rightarrow> do {
         ifd \<leftarrow> invoke (Interface_GetInterfaceDescriptor i c) (on_GetInterfaceDescriptor A i c);
         set_iv (\<lambda>v. v\<lparr>interfaceDescriptor := map_option interface_descriptor_ref ifd\<rparr>);
         if ifd = None then return False else return True
       }
   }"

subsection \<open>Pipes\<close>

text \<open>Which of the two pipe records a pointer refers to.\<close>
datatype slot = In_slot | Out_slot

fun get_pipe :: "slot \<Rightarrow> XboxOneInputInterface_IVars \<Rightarrow> usb_pipe_data" where
  "get_pipe In_slot v = inPipe v"
| "get_pipe Out_slot v = outPipe v"

fun upd_pipe :: "slot \<Rightarrow> (usb_pipe_data \<Rightarrow> usb_pipe_data) \<Rightarrow>
    XboxOneInputInterface_IVars \<Rightarrow> XboxOneInputInterface_IVars" where
  "upd_pipe In_slot f v = v\<lparr>inPipe := f (inPipe v)\<rparr>"
| "upd_pipe Out_slot f v = v\<lparr>outPipe := f (outPipe v)\<rparr>"

definition slot_of :: "endpoint_direction \<Rightarrow> slot option" where
  "slot_of d = (case d of kIOUSBEndpointDirectionIn \<Rightarrow> Some In_slot
     | kIOUSBEndpointDirectionOut \<Rightarrow> Some Out_slot | _ \<Rightarrow> None)"

text \<open>
  One round of the loop of \<^verbatim>\<open>InitPipes\<close>: \<open>None\<close> to go on, \<open>Some b\<close> to
  return \<open>b\<close>.
\<close>
definition InitPipes_round ::
    "'a startup_api_scheme \<Rightarrow> ref \<Rightarrow> ('z input_state_scheme, bool option) state" where
  "InitPipes_round A ep =
     (if endpoint_type A ep \<noteq> kIOUSBEndpointTypeInterrupt then return None
      else (case slot_of (endpoint_direction A ep) of
          None \<Rightarrow> return None
        | Some sl \<Rightarrow> do {
            set_iv (upd_pipe sl (descriptor_update (\<lambda>_. Some ep)));
            p \<leftarrow> iv None interface;
            i \<leftarrow> deref 0 p;
            old \<leftarrow> iv None (\<lambda>v. pipe (get_pipe sl v));
            (ret, new) \<leftarrow> invoke (Interface_CopyPipe i (endpoint_address A ep))
              (on_CopyPipe A i (endpoint_address A ep) old);
            set_iv (upd_pipe sl (pipe_update (\<lambda>_. new)));
            if ret \<noteq> kIOReturnSuccess then return (Some False)
            else do {
              a \<leftarrow> iv None (\<lambda>v. pipe (inPipe v));
              b \<leftarrow> iv None (\<lambda>v. pipe (outPipe v));
              if a \<noteq> None \<and> b \<noteq> None then return (Some True) else return None
            }
          }))"

definition ep_after :: "'a startup_api_scheme \<Rightarrow> 'z input_state_scheme \<Rightarrow> ref ptr \<Rightarrow> ref ptr" where
  "ep_after A s current =
     (case ivars s of None \<Rightarrow> None
      | Some v \<Rightarrow> next_endpoint A (configurationDescriptor v) (interfaceDescriptor v) current)"

partial_function (option) InitPipes_loop ::
    "'a startup_api_scheme \<Rightarrow> ref ptr \<Rightarrow> 'z input_state_scheme \<Rightarrow> (bool \<times> 'z input_state_scheme) option" where
  "InitPipes_loop A current s =
     (case ep_after A s current of
        None \<Rightarrow> Some (False, s)
      | Some ep \<Rightarrow>
          (case fst (run_state (InitPipes_round A ep) s) of
             None \<Rightarrow> InitPipes_loop A (Some ep) (snd (run_state (InitPipes_round A ep) s))
           | Some b \<Rightarrow> Some (b, snd (run_state (InitPipes_round A ep) s))))"

text \<open>The result is \<open>None\<close> when the loop never ends.\<close>
definition InitPipes :: "'a startup_api_scheme \<Rightarrow> ('z input_state_scheme, bool option) state" where
  "InitPipes A = do {
     _ \<leftarrow> iv None configurationDescriptor;
     State (\<lambda>s. case InitPipes_loop A None s of None \<Rightarrow> (None, s) | Some (b, s') \<Rightarrow> (Some b, s'))
   }"

definition set_memory :: "slot \<Rightarrow> (buffer_memory_descriptor \<Rightarrow> buffer_memory_descriptor) \<Rightarrow>
    ('z input_state_scheme, unit) state" where
  "set_memory sl f = set_iv (upd_pipe sl (memory_update f))"

definition SetupPipe :: "'a startup_api_scheme \<Rightarrow> slot \<Rightarrow> ('z input_state_scheme, bool) state" where
  "SetupPipe A sl = do {
     p \<leftarrow> iv None (\<lambda>v. pipe (get_pipe sl v));
     r \<leftarrow> deref 0 p;
     old \<leftarrow> iv 0 (\<lambda>v. speed (get_pipe sl v));
     (ret, sp) \<leftarrow> invoke (Pipe_GetSpeed r) (on_GetSpeed A r old);
     set_iv (upd_pipe sl (speed_update (\<lambda>_. sp)));
     if ret \<noteq> kIOReturnSuccess then return False
     else do {
       d \<leftarrow> iv None (\<lambda>v. descriptor (get_pipe sl v));
       set_iv (upd_pipe sl (interval_update (\<lambda>_. endpoint_interval A sp d)));
       if endpoint_interval A sp d = 0 then return False
       else do {
         set_iv (upd_pipe sl (maxPacketSize_update (\<lambda>_. endpoint_max_packet A sp d)));
         if endpoint_max_packet A sp d = 0 then return False
         else do {
           q \<leftarrow> iv None interface;
           i \<leftarrow> deref 0 q;
           oldb \<leftarrow> iv None (\<lambda>v. buffer (memory (get_pipe sl v)));
           (ret, b) \<leftarrow> invoke (Interface_CreateIOBuffer i (endpoint_max_packet A sp d))
             (on_CreateIOBuffer A i (endpoint_max_packet A sp d) oldb);
           set_memory sl (buffer_update (\<lambda>_. b));
           if ret \<noteq> kIOReturnSuccess then return False
           else do {
             br \<leftarrow> deref 0 b;
             oldl \<leftarrow> iv 0 (\<lambda>v. mem_length (memory (get_pipe sl v)));
             (ret, mem, len) \<leftarrow> invoke (Buffer_Map br) (on_Map A br oldl);
             set_memory sl (mem_length_update (\<lambda>_. len));
             if ret \<noteq> kIOReturnSuccess then return False
             else do {
               set_memory sl (address_update (\<lambda>_. Some mem));
               return True
             }
           }
         }
       }
     }
   }"

text \<open>\<^verbatim>\<open>SetupPipes\<close> between the copy of the properties and the label \<^verbatim>\<open>Exit\<close>.\<close>
definition SetupPipes_out ::
    "'a startup_api_scheme \<Rightarrow> ref ptr \<Rightarrow> ('z input_state_scheme, bool) state" where
  "SetupPipes_out A properties = do {
     result \<leftarrow> SetupPipe A Out_slot;
     if \<not> result then return False
     else do {
       set_iv (upd_pipe In_slot (reportSize_update
         (\<lambda>_. property_UInt64 A properties kIOHIDMaxOutputReportSizeKey)));
       return True
     }
   }"

definition SetupPipes_in ::
    "'a startup_api_scheme \<Rightarrow> ref ptr \<Rightarrow> ('z input_state_scheme, bool) state" where
  "SetupPipes_in A properties = do {
     result \<leftarrow> SetupPipe A In_slot;
     if \<not> result then return False
     else do {
       set_iv (upd_pipe In_slot (reportSize_update
         (\<lambda>_. property_UInt64 A properties kIOHIDMaxInputReportSizeKey)));
       SetupPipes_out A properties
     }
   }"

definition SetupPipes :: "'a startup_api_scheme \<Rightarrow> ('z input_state_scheme, bool) state" where
  "SetupPipes A = do {
     (ret, properties) \<leftarrow> invoke CopyProperties (on_CopyProperties A);
     result \<leftarrow> (if ret \<noteq> kIOReturnSuccess then return False else SetupPipes_in A properties);
     OSSafeRelease properties;
     return result
   }"

subsection \<open>handleStart\<close>

text \<open>
  The end of \<^verbatim>\<open>handleStart\<close>: the callback object is created after the pipes are
  set up, then come the first packets to the controller and the first read.
\<close>
definition handleStart_greet :: "comm_api \<Rightarrow> ('z input_state_scheme, bool) state" where
  "handleStart_greet C = do {
     _ \<leftarrow> SendInterruptData C INIT_PACKET INIT_PACKET_SIZE;
     _ \<leftarrow> SendInterruptData C SWAP_TO_WIRED_PACKET SWAP_TO_WIRED_PACKET_SIZE;
     _ \<leftarrow> RequestAsyncInterruptData C;
     q \<leftarrow> iv None interface;
     i \<leftarrow> deref 0 q;
     emit (retain i);
     return True
   }"

definition handleStart_listen ::
    "'a startup_api_scheme \<Rightarrow> comm_api \<Rightarrow> ('z input_state_scheme, bool) state" where
  "handleStart_listen A C = do {
     len \<leftarrow> iv 0 (\<lambda>v. mem_length (memory (inPipe v)));
     old \<leftarrow> iv None gotDataAction;
     (ret, a) \<leftarrow> invoke (CreateActionGotData len) (on_CreateActionGotData A len old);
     set_iv (\<lambda>v. v\<lparr>gotDataAction := a\<rparr>);
     if ret \<noteq> kIOReturnSuccess then return False else handleStart_greet C
   }"

definition handleStart_setup ::
    "'a startup_api_scheme \<Rightarrow> comm_api \<Rightarrow> ('z input_state_scheme, bool) state" where
  "handleStart_setup A C = do {
     result \<leftarrow> SetupPipes A;
     if \<not> result then return False else handleStart_listen A C
   }"

definition handleStart_pipes ::
    "'a startup_api_scheme \<Rightarrow> comm_api \<Rightarrow> ('z input_state_scheme, bool option) state" where
  "handleStart_pipes A C = do {
     r \<leftarrow> InitPipes A;
     case r of
       None \<Rightarrow> return None
     | Some result \<Rightarrow>
         if \<not> result then return (Some False)
         else do { result \<leftarrow> handleStart_setup A C; return (Some result) }
   }"

definition handleStart ::
    "'a startup_api_scheme \<Rightarrow> comm_api \<Rightarrow> ref ptr \<Rightarrow> ('z input_state_scheme, bool option) state" where
  "handleStart A C provider = do {
     result \<leftarrow> invoke (super_handleStart provider) (on_super_handleStart A provider);
     if \<not> result then return (Some False)
     else do {
       result \<leftarrow> InitDescriptors A;
       if \<not> result then return (Some False) else handleStart_pipes A C
     }
   }"

subsection \<open>Documented behaviour of the frameworks\<close>

text \<open>The capacity an IO buffer was last created with.\<close>
fun buffer_capacity :: "ref \<Rightarrow> call list \<Rightarrow> u64 option" where
  "buffer_capacity b [] = None"
| "buffer_capacity b (c # cs) =
     (case buffer_capacity b cs of Some n \<Rightarrow> Some n
      | None \<Rightarrow> (case c of
            Interface_CreateIOBuffer i n (ret, q) \<Rightarrow>
              if ret = kIOReturnSuccess \<and> q = Some b then Some n else None
          | _ \<Rightarrow> None))"

text \<open>
  A call that succeeds gives an object, and mapping a buffer gives as much memory as it says, which
  is the capacity of the buffer.
\<close>
definition documented :: "'a startup_api_scheme \<Rightarrow> bool" where
  "documented A \<longleftrightarrow>
     (\<forall>i a old h. on_CopyPipe A i a old h \<noteq> (kIOReturnSuccess, None)) \<and>
     (\<forall>i n old h. on_CreateIOBuffer A i n old h \<noteq> (kIOReturnSuccess, None)) \<and>
     (\<forall>b old h mem len. on_Map A b old h = (kIOReturnSuccess, mem, len) \<longrightarrow>
        length mem = unat len \<and> (\<forall>n. buffer_capacity b h = Some n \<longrightarrow> len = n)) \<and>
     (\<forall>n old h. on_CreateActionGotData A n old h \<noteq> (kIOReturnSuccess, None))"

text \<open>The endpoints the framework's iterator goes through, from a position on.\<close>
fun enumerates :: "(ref ptr \<Rightarrow> ref ptr) \<Rightarrow> ref ptr \<Rightarrow> ref list \<Rightarrow> bool" where
  "enumerates nxt current [] = (nxt current = None)"
| "enumerates nxt current (e # es) = (nxt current = Some e \<and> enumerates nxt (Some e) es)"

text \<open>The loop over a known list of endpoints.\<close>
fun InitPipes_list :: "'a startup_api_scheme \<Rightarrow> ref list \<Rightarrow> ('z input_state_scheme, bool) state" where
  "InitPipes_list A [] = return False"
| "InitPipes_list A (e # es) = do {
     r \<leftarrow> InitPipes_round A e;
     case r of None \<Rightarrow> InitPipes_list A es | Some b \<Rightarrow> return b
   }"

subsection \<open>Frames\<close>

definition same_core :: "XboxOneInputInterface_IVars \<Rightarrow> XboxOneInputInterface_IVars \<Rightarrow> bool" where
  "same_core v w \<longleftrightarrow> interface w = interface v \<and>
     configurationDescriptor w = configurationDescriptor v \<and>
     interfaceDescriptor w = interfaceDescriptor v \<and> gotDataAction w = gotDataAction v \<and>
     outCounter w = outCounter v \<and> enabled w = enabled v"

definition quiet :: "'z input_state_scheme \<Rightarrow> 'z input_state_scheme \<Rightarrow> bool" where
  "quiet s t \<longleftrightarrow> ub t = ub s \<and> actions (calls t) = actions (calls s)"

fun other :: "slot \<Rightarrow> slot" where
  "other In_slot = Out_slot"
| "other Out_slot = In_slot"

lemma same_core_refl [simp]: "same_core v v"
  by (simp add: same_core_def)

lemma same_core_trans: "same_core u v \<Longrightarrow> same_core v w \<Longrightarrow> same_core u w"
  by (simp add: same_core_def)

lemma quiet_refl [simp]: "quiet s s"
  by (simp add: quiet_def)

lemma quiet_trans: "quiet s t \<Longrightarrow> quiet t u \<Longrightarrow> quiet s u"
  by (simp add: quiet_def)

lemma quiet_ivars [simp]:
  "quiet s (t\<lparr>ivars := p\<rparr>) = quiet s t" "quiet (s\<lparr>ivars := p\<rparr>) t = quiet s t"
  by (simp_all add: quiet_def)

lemma same_core_upd_pipe [simp]: "same_core v (upd_pipe sl f w) = same_core v w"
  by (cases sl) (simp_all add: same_core_def)

lemma interface_upd_pipe [simp]: "interface (upd_pipe sl f v) = interface v"
  by (cases sl) simp_all

lemma get_upd_pipe [simp]: "get_pipe sl (upd_pipe sl f v) = f (get_pipe sl v)"
  by (cases sl) simp_all

lemma get_upd_other [simp]: "get_pipe (other sl) (upd_pipe sl f v) = get_pipe (other sl) v"
  by (cases sl) simp_all

lemma wp_set_memory [wp_simps]:
  "ivars s = Some v \<Longrightarrow>
   wp (set_memory sl f) Q s = Q () (s\<lparr>ivars := Some (upd_pipe sl (memory_update f) v)\<rparr>)"
  by (simp add: set_memory_def wp_simps)

lemma actions_of_silent [simp]:
  "actions_of (Pipe_GetSpeed p x) = []" "actions_of (Interface_CreateIOBuffer i n y) = []"
  "actions_of (Buffer_Map b z) = []" "actions_of (CopyProperties y) = []"
  "actions_of (release r) = []" "actions_of (retain r) = []"
  "actions_of (Interface_CopyPipe i a y) = []" "actions_of (super_handleStart q c) = []"
  "actions_of (Interface_CopyConfigurationDescriptor i q) = []"
  "actions_of (Interface_GetInterfaceDescriptor i j d) = []"
  "actions_of (CreateActionGotData k y) = []" "actions_of (Interface_Open i ret) = []"
  by (simp_all add: actions_of_def)

lemma actions_releases [simp]: "actions (map release rs) = []"
  by (induction rs) simp_all

lemma buffer_capacity_snoc [simp]:
  "buffer_capacity b (h @ [Interface_CreateIOBuffer i n (kIOReturnSuccess, Some b)]) = Some n"
  by (induction h) simp_all

subsection \<open>Setting up a pipe\<close>

definition pipe_set_up :: "usb_pipe_data \<Rightarrow> bool" where
  "pipe_set_up p \<longleftrightarrow> pipe_ready p \<and> mem_length (memory p) = maxPacketSize p \<and>
     maxPacketSize p \<noteq> 0 \<and> interval p \<noteq> 0"

lemma documented_not_null:
  assumes "documented A"
  shows "on_CopyPipe A i a oldp h \<noteq> (kIOReturnSuccess, None)"
    "on_CreateIOBuffer A i n oldb h \<noteq> (kIOReturnSuccess, None)"
    "on_CreateActionGotData A n olda h \<noteq> (kIOReturnSuccess, None)"
  using assms by (auto simp: documented_def)

lemma documented_Map:
  assumes "documented A" "on_Map A b old h = (kIOReturnSuccess, mem, len)"
  shows "length mem = unat len" "buffer_capacity b h = Some n \<Longrightarrow> len = n"
  using assms by (auto simp: documented_def)

lemma documented_Map_new:
  assumes "documented A"
    "on_Map A b old (h @ [Interface_CreateIOBuffer i n (kIOReturnSuccess, Some b)])
      = (kIOReturnSuccess, mem, len)"
  shows "length mem = unat n \<and> len = n"
  using documented_Map [OF assms] by simp

lemma SetupPipe_wp:
  assumes doc: "documented A" and v: "ivars s = Some v" "interface v = Some i"
    "pipe (get_pipe sl v) = Some p"
  shows "wp (SetupPipe A sl) (\<lambda>ok s'. \<exists>v'. ivars s' = Some v' \<and> quiet s s' \<and> same_core v v' \<and>
      pipe (get_pipe sl v') = Some p \<and> get_pipe (other sl) v' = get_pipe (other sl) v \<and>
      reportSize (get_pipe sl v') = reportSize (get_pipe sl v) \<and>
      (ok \<longrightarrow> pipe_set_up (get_pipe sl v'))) s"
  using v
  by (auto simp: SetupPipe_def wp_simps wp_deref quiet_def pipe_set_up_def pipe_ready_def mapped_def
      documented_not_null [OF doc] split: prod.split option.split
      dest: documented_Map_new [OF doc, where h = "h @ [c]" for h c, simplified])

subsection \<open>Searching the pipes\<close>

lemma InitPipes_round_wp:
  assumes doc: "documented A" and v: "ivars s = Some v" "interface v = Some i"
  shows "wp (InitPipes_round A ep) (\<lambda>r s'. \<exists>v'. ivars s' = Some v' \<and> quiet s s' \<and> same_core v v' \<and>
      (r = Some True \<longrightarrow> pipe (inPipe v') \<noteq> None \<and> pipe (outPipe v') \<noteq> None)) s"
  using v
  by (auto simp: InitPipes_round_def wp_simps quiet_def documented_not_null [OF doc]
      split: prod.split option.split)

lemma InitPipes_list_wp:
  assumes doc: "documented A" and v: "ivars s = Some v" "interface v = Some i"
  shows "wp (InitPipes_list A eps) (\<lambda>ok s'. \<exists>v'. ivars s' = Some v' \<and> quiet s s' \<and> same_core v v' \<and>
      (ok \<longrightarrow> pipe (inPipe v') \<noteq> None \<and> pipe (outPipe v') \<noteq> None)) s"
  using v
proof (induction eps arbitrary: s v)
  case Nil
  then show ?case by (simp add: wp_simps)
next
  case (Cons e es)
  show ?case
    unfolding InitPipes_list.simps wp_bind
  proof (rule wp_mono [OF InitPipes_round_wp [OF doc Cons.prems]], elim exE conjE)
    fix r t w
    assume t: "ivars t = Some w" "quiet s t" "same_core v w"
      and r: "r = Some True \<longrightarrow> pipe (inPipe w) \<noteq> None \<and> pipe (outPipe w) \<noteq> None"
    from t(3) Cons.prems(2) have "interface w = Some i" by (simp add: same_core_def)
    note IH = Cons.IH [OF t(1) this]
    show "wp (case r of None \<Rightarrow> InitPipes_list A es | Some b \<Rightarrow> return b)
        (\<lambda>ok s'. \<exists>v'. ivars s' = Some v' \<and> quiet s s' \<and> same_core v v' \<and>
          (ok \<longrightarrow> pipe (inPipe v') \<noteq> None \<and> pipe (outPipe v') \<noteq> None)) t"
    proof (cases r)
      case None
      then show ?thesis
        using t by (auto intro!: wp_mono [OF IH] dest: quiet_trans same_core_trans)
    next
      case (Some b)
      with t r show ?thesis by (auto simp: wp_simps)
    qed
  qed
qed

lemma InitPipes_round_keeps:
  assumes "ivars s = Some v"
  shows "wp (InitPipes_round A ep) (\<lambda>r s'. \<exists>v'. ivars s' = Some v' \<and>
      configurationDescriptor v' = configurationDescriptor v \<and>
      interfaceDescriptor v' = interfaceDescriptor v) s"
proof -
  have frame: "configurationDescriptor (upd_pipe sl f w) = configurationDescriptor w"
    "interfaceDescriptor (upd_pipe sl f w) = interfaceDescriptor w" for sl f w
    by (cases sl; simp)+
  from assms show ?thesis
    by (auto simp: InitPipes_round_def wp_simps wp_deref frame split: prod.split option.split)
qed

text \<open>On a finite enumeration the search ends, with the result of the loop over the list.\<close>
lemma InitPipes_loop_list:
  assumes "ivars s = Some v"
    "enumerates (next_endpoint A (configurationDescriptor v) (interfaceDescriptor v)) current eps"
  shows "InitPipes_loop A current s = Some (run_state (InitPipes_list A eps) s)"
  using assms
proof (induction eps arbitrary: current s v)
  case Nil
  then show ?case by (subst InitPipes_loop.simps) (simp add: ep_after_def)
next
  case (Cons e es)
  obtain r t where rt: "run_state (InitPipes_round A e) s = (r, t)" by fastforce
  from wp_run [OF InitPipes_round_keeps [OF Cons.prems(1)] rt] obtain w
    where w: "ivars t = Some w" "configurationDescriptor w = configurationDescriptor v"
      "interfaceDescriptor w = interfaceDescriptor v" by auto
  have "InitPipes_loop A (Some e) t = Some (run_state (InitPipes_list A es) t)"
    using Cons.prems(2) w by (intro Cons.IH [OF w(1)]) simp
  with Cons.prems rt show ?case
    by (subst InitPipes_loop.simps) (simp add: ep_after_def split: option.split)
qed

lemma InitPipes_eq_list:
  assumes "ivars s = Some v"
    "enumerates (next_endpoint A (configurationDescriptor v) (interfaceDescriptor v)) None eps"
  shows "wp (InitPipes A) Q s = wp (InitPipes_list A eps) (\<lambda>b. Q (Some b)) s"
proof -
  have "wp (State (\<lambda>s. case InitPipes_loop A None s of None \<Rightarrow> (None, s)
      | Some (b, s') \<Rightarrow> (Some b, s'))) Q s = wp (InitPipes_list A eps) (\<lambda>b. Q (Some b)) s"
    by (simp add: wp_def InitPipes_loop_list [OF assms] split: prod.split)
  with assms(1) show ?thesis
    by (simp add: InitPipes_def wp_simps)
qed

text \<open>Some interrupt endpoint of the list goes into this slot.\<close>
definition finds :: "'a startup_api_scheme \<Rightarrow> slot \<Rightarrow> ref list \<Rightarrow> bool" where
  "finds A sl eps \<longleftrightarrow> (\<exists>e \<in> set eps. endpoint_type A e = kIOUSBEndpointTypeInterrupt \<and>
     slot_of (endpoint_direction A e) = Some sl)"

text \<open>Every pipe can be copied.\<close>
definition pipes_available :: "'a startup_api_scheme \<Rightarrow> bool" where
  "pipes_available A \<longleftrightarrow> (\<forall>i a old h. \<exists>p. on_CopyPipe A i a old h = (kIOReturnSuccess, Some p))"

definition fills :: "'a startup_api_scheme \<Rightarrow> ref \<Rightarrow> slot \<Rightarrow> bool" where
  "fills A e sl \<longleftrightarrow> endpoint_type A e = kIOUSBEndpointTypeInterrupt \<and>
     slot_of (endpoint_direction A e) = Some sl"

lemma finds_Cons [simp]: "finds A sl (e # es) \<longleftrightarrow> fills A e sl \<or> finds A sl es"
  by (auto simp: finds_def fills_def)

lemma finds_Nil [simp]: "\<not> finds A sl []"
  by (simp add: finds_def)

lemma InitPipes_round_fills:
  assumes av: "pipes_available A" and v: "ivars s = Some v" "interface v = Some i"
  shows "wp (InitPipes_round A ep) (\<lambda>r s'. \<exists>v'. ivars s' = Some v' \<and> interface v' = Some i \<and>
      (\<forall>sl. pipe (get_pipe sl v') \<noteq> None \<longleftrightarrow> pipe (get_pipe sl v) \<noteq> None \<or> fills A ep sl) \<and>
      r = (if (\<exists>sl. fills A ep sl) \<and> (\<forall>sl. pipe (get_pipe sl v') \<noteq> None) then Some True else None)) s"
proof -
  have all_slots: "(\<forall>sl. P sl) \<longleftrightarrow> P In_slot \<and> P Out_slot" for P
    by (metis slot.exhaust)
  show ?thesis
  proof (cases "\<exists>sl. fills A ep sl")
    case True
    then obtain sl where sl: "fills A ep sl" ..
    from av obtain p where
      "on_CopyPipe A i (endpoint_address A ep) (pipe (get_pipe sl v)) (calls s) = (kIOReturnSuccess, Some p)"
      unfolding pipes_available_def by metis
    with sl v show ?thesis
      by (cases sl) (auto simp: InitPipes_round_def fills_def wp_simps all_slots)
  next
    case False
    with v show ?thesis
      by (auto simp: InitPipes_round_def fills_def wp_simps split: option.split)
  qed
qed

lemma InitPipes_list_finds:
  fixes s :: "'z input_state_scheme"
  assumes av: "pipes_available A" and v: "ivars s = Some v" "interface v = Some i"
    "\<exists>sl. pipe (get_pipe sl v) = None"
  shows "wp (InitPipes_list A eps) (\<lambda>ok s'.
      ok \<longleftrightarrow> (\<forall>sl. pipe (get_pipe sl v) \<noteq> None \<or> finds A sl eps)) s"
  using v
proof (induction eps arbitrary: s v)
  case Nil
  then show ?case by (simp add: wp_simps)
next
  case (Cons e es)
  show ?case
    unfolding InitPipes_list.simps wp_bind
  proof (rule wp_mono [OF InitPipes_round_fills [OF av Cons.prems(1,2)]], elim exE conjE)
    fix r w and t :: "'z input_state_scheme"
    assume t: "ivars t = Some w" "interface w = Some i"
      and w: "\<forall>sl. pipe (get_pipe sl w) \<noteq> None \<longleftrightarrow> pipe (get_pipe sl v) \<noteq> None \<or> fills A e sl"
      and r: "r = (if (\<exists>sl. fills A e sl) \<and> (\<forall>sl. pipe (get_pipe sl w) \<noteq> None) then Some True else None)"
    show "wp (case r of None \<Rightarrow> InitPipes_list A es | Some b \<Rightarrow> return b)
        (\<lambda>ok s'. ok \<longleftrightarrow> (\<forall>sl. pipe (get_pipe sl v) \<noteq> None \<or> finds A sl (e # es))) t"
    proof (cases "\<forall>sl. pipe (get_pipe sl w) \<noteq> None")
      case True
      with w Cons.prems(3) have "\<exists>sl. fills A e sl" by metis
      with True w r show ?thesis by (auto simp: wp_return)
    next
      case False
      with r have "r = None" by simp
      moreover have "wp (InitPipes_list A es)
          (\<lambda>ok s'. ok \<longleftrightarrow> (\<forall>sl. pipe (get_pipe sl w) \<noteq> None \<or> finds A sl es)) t"
        by (rule Cons.IH [OF t]) (use False in simp)
      ultimately show ?thesis
        using w by (auto elim!: wp_mono)
    qed
  qed
qed

subsection \<open>Setting up both pipes\<close>

lemma pipe_set_up_reportSize [simp]: "pipe_set_up (p\<lparr>reportSize := n\<rparr>) = pipe_set_up p"
  by (simp add: pipe_set_up_def pipe_ready_def mapped_def split: option.split)

lemma SetupPipes_out_wp:
  assumes doc: "documented A" and v: "ivars s = Some v" "interface v = Some i"
    "pipe (outPipe v) = Some q" "pipe_set_up (inPipe v)"
  shows "wp (SetupPipes_out A props) (\<lambda>ok s'. \<exists>v'. ivars s' = Some v' \<and> quiet s s' \<and> same_core v v' \<and>
      (ok \<longrightarrow> pipe_set_up (inPipe v') \<and> pipe_set_up (outPipe v') \<and>
        reportSize (inPipe v') = property_UInt64 A props kIOHIDMaxOutputReportSizeKey \<and>
        reportSize (outPipe v') = reportSize (outPipe v))) s"
  unfolding SetupPipes_out_def wp_bind
  by (rule wp_mono [OF SetupPipe_wp [OF doc v(1,2), where sl = Out_slot]])
    (use v in \<open>auto simp: wp_simps same_core_def\<close>)

lemma SetupPipes_in_wp:
  assumes doc: "documented A" and v: "ivars s = Some v" "interface v = Some i"
    "pipe (inPipe v) = Some p" "pipe (outPipe v) = Some q"
  shows "wp (SetupPipes_in A props) (\<lambda>ok s'. \<exists>v'. ivars s' = Some v' \<and> quiet s s' \<and> same_core v v' \<and>
      (ok \<longrightarrow> pipe_set_up (inPipe v') \<and> pipe_set_up (outPipe v') \<and>
        reportSize (inPipe v') = property_UInt64 A props kIOHIDMaxOutputReportSizeKey \<and>
        reportSize (outPipe v') = reportSize (outPipe v))) s"
  unfolding SetupPipes_in_def wp_bind
proof (rule wp_mono [OF SetupPipe_wp [OF doc v(1,2), where sl = In_slot and p = p]], use v in simp,
    elim exE conjE)
  fix ok s1 w
  assume w: "ivars s1 = Some w" "quiet s s1" "same_core v w"
    "get_pipe (other In_slot) w = get_pipe (other In_slot) v"
    "ok \<longrightarrow> pipe_set_up (get_pipe In_slot w)"
  let ?w = "w\<lparr>inPipe := inPipe w\<lparr>reportSize := property_UInt64 A props kIOHIDMaxInputReportSizeKey\<rparr>\<rparr>"
  let ?s = "s1\<lparr>ivars := Some ?w\<rparr>"
  have out: "wp (SetupPipes_out A props) (\<lambda>ok s'. \<exists>v'. ivars s' = Some v' \<and> quiet ?s s' \<and> same_core ?w v' \<and>
      (ok \<longrightarrow> pipe_set_up (inPipe v') \<and> pipe_set_up (outPipe v') \<and>
        reportSize (inPipe v') = property_UInt64 A props kIOHIDMaxOutputReportSizeKey \<and>
        reportSize (outPipe v') = reportSize (outPipe ?w))) ?s" if ok
    by (rule SetupPipes_out_wp [OF doc]) (use w v that in \<open>simp_all add: same_core_def\<close>)
  show "wp (if \<not> ok then return False else do {
      set_iv (upd_pipe In_slot (reportSize_update
         (\<lambda>_. property_UInt64 A props kIOHIDMaxInputReportSizeKey)));
      SetupPipes_out A props })
    (\<lambda>ok s'. \<exists>v'. ivars s' = Some v' \<and> quiet s s' \<and> same_core v v' \<and>
      (ok \<longrightarrow> pipe_set_up (inPipe v') \<and> pipe_set_up (outPipe v') \<and>
        reportSize (inPipe v') = property_UInt64 A props kIOHIDMaxOutputReportSizeKey \<and>
        reportSize (outPipe v') = reportSize (outPipe v))) s1"
    using w by (cases ok) (auto simp: wp_simps quiet_def same_core_def intro!: wp_mono [OF out])
qed

lemma SetupPipes_wp:
  assumes doc: "documented A" and v: "ivars s = Some v" "interface v = Some i"
    "pipe (inPipe v) = Some p" "pipe (outPipe v) = Some q"
  shows "wp (SetupPipes A) (\<lambda>ok s'. \<exists>v'. ivars s' = Some v' \<and> quiet s s' \<and> same_core v v' \<and>
      (ok \<longrightarrow> pipe_set_up (inPipe v') \<and> pipe_set_up (outPipe v') \<and>
        reportSize (inPipe v') =
          property_UInt64 A (snd (on_CopyProperties A (calls s))) kIOHIDMaxOutputReportSizeKey \<and>
        reportSize (outPipe v') = reportSize (outPipe v))) s"
proof -
  obtain ret props where props: "on_CopyProperties A (calls s) = (ret, props)" by fastforce
  show ?thesis
    by (simp add: SetupPipes_def wp_simps props)
      (auto simp: v quiet_def wp_simps intro!: wp_mono [OF SetupPipes_in_wp [OF doc _ v(2-)]]
        split: option.split)
qed

subsection \<open>The whole start\<close>

lemma InitDescriptors_wp:
  assumes "ivars s = Some v" "interface v = Some i"
  shows "wp (InitDescriptors A) (\<lambda>ok s'. \<exists>cd ifd. quiet s s' \<and>
      ivars s' = Some (v\<lparr>configurationDescriptor := cd, interfaceDescriptor := ifd\<rparr>) \<and>
      (ok \<longrightarrow> cd \<noteq> None \<and> ifd \<noteq> None)) s"
  using assms
  by (cases v) (auto simp: InitDescriptors_def wp_simps quiet_def split: option.split)

text \<open>What sending changes: the memory of the OUT buffer and the counter.\<close>
definition sends :: "XboxOneInputInterface_IVars \<Rightarrow> XboxOneInputInterface_IVars \<Rightarrow> bool" where
  "sends v w \<longleftrightarrow> (\<exists>mem n. w = set_out_memory mem (v\<lparr>outCounter := n\<rparr>) \<and> length mem = out_capacity v) \<or> w = v"

lemma Send_step:
  assumes v: "ivars s = Some v" "pipe_ready (outPipe v)" and sz: "2 < unat sz" "unat sz \<le> length data"
  shows "wp (SendInterruptData C data sz) (\<lambda>_ s'. \<exists>v'. ivars s' = Some v' \<and> ub s' = ub s \<and>
      sends v v' \<and>
      (if unat sz \<le> out_capacity v
       then actions (calls s') = actions (calls s) @ [Transmit (wire_packet (outCounter v) data sz)] \<and>
         outCounter v' = outCounter v + 1
       else actions (calls s') = actions (calls s) \<and> outCounter v' = outCounter v)) s"
proof (cases "unat sz \<le> out_capacity v")
  case True
  from v(2) obtain q where "pipe (outPipe v) = Some q" by (auto simp: pipe_ready_def)
  with True v sz show ?thesis
    by (auto simp: wp_Send_fits sends_def length_out_image)
next
  case False
  with v show ?thesis by (auto simp: wp_Send_refuses sends_def)
qed

lemma sends_set_up:
  assumes "sends v w" "pipe_set_up (outPipe v)"
  shows "pipe_set_up (outPipe w)" "inPipe w = inPipe v" "interface w = interface v"
    "gotDataAction w = gotDataAction v" "enabled w = enabled v" "out_capacity w = out_capacity v"
    "pipe_ready (outPipe w)"
  using assms
  by (auto simp: sends_def pipe_set_up_def pipe_ready_def mapped_def set_out_memory_def out_capacity_def)

text \<open>The actions of a start: the two packets, if the pipe takes them, and the first request.\<close>
definition start_actions :: "u8 \<Rightarrow> nat \<Rightarrow> action list" where
  "start_actions n mtu =
     (if 5 \<le> mtu
      then [Transmit (wire_packet n INIT_PACKET INIT_PACKET_SIZE),
            Transmit (wire_packet (n + 1) SWAP_TO_WIRED_PACKET SWAP_TO_WIRED_PACKET_SIZE)]
      else []) @ [Listen]"

lemma start_packet_sizes [simp]:
  "INIT_PACKET_SIZE = 5" "SWAP_TO_WIRED_PACKET_SIZE = 5"
  "length INIT_PACKET = 5" "length SWAP_TO_WIRED_PACKET = 5"
  by (simp_all add: INIT_PACKET_SIZE_def SWAP_TO_WIRED_PACKET_SIZE_def INIT_PACKET_def
      SWAP_TO_WIRED_PACKET_def)

lemma Async_step:
  assumes "ivars s = Some v" "pipe (inPipe v) = Some p"
  shows "wp (RequestAsyncInterruptData C)
    (\<lambda>_ s'. \<exists>c. s' = s\<lparr>calls := calls s @ [c]\<rparr> \<and> actions_of c = [Listen]) s"
  using assms by (auto simp: RequestAsyncInterruptData_def wp_simps)

text \<open>The interface driver is up: both pipes work and the callback object exists.\<close>
definition started :: "XboxOneInputInterface_IVars \<Rightarrow> bool" where
  "started v \<longleftrightarrow> interface v \<noteq> None \<and> pipe_set_up (inPipe v) \<and> pipe_set_up (outPipe v) \<and>
     gotDataAction v \<noteq> None"

lemma handleStart_greet_wp:
  assumes v: "ivars s = Some v" "interface v = Some i" "pipe_set_up (inPipe v)"
    "pipe_set_up (outPipe v)"
  shows "wp (handleStart_greet C)
    (\<lambda>ok s'. ok \<and> (\<exists>v'. ivars s' = Some v' \<and> ub s' = ub s \<and> pipe_set_up (inPipe v') \<and>
      pipe_set_up (outPipe v') \<and> interface v' = interface v \<and> enabled v' = enabled v \<and>
      gotDataAction v' = gotDataAction v \<and> out_capacity v' = out_capacity v \<and>
      actions (calls s') = actions (calls s) @ start_actions (outCounter v) (out_capacity v) \<and>
      outCounter v' = outCounter v + (if 5 \<le> out_capacity v then 2 else 0))) s"
  unfolding handleStart_greet_def wp_bind
proof (rule wp_mono [OF Send_step [OF v(1)]], goal_cases)
  case 1
  then show ?case using v by (simp add: pipe_set_up_def)
next
  case (4 r s1)
  then obtain w where w: "ivars s1 = Some w" "ub s1 = ub s" "sends v w"
    "if 5 \<le> out_capacity v
     then actions (calls s1) = actions (calls s) @ [Transmit (wire_packet (outCounter v) INIT_PACKET 5)] \<and>
       outCounter w = outCounter v + 1
     else actions (calls s1) = actions (calls s) \<and> outCounter w = outCounter v"
    by auto
  note up = sends_set_up [OF w(3) v(4)]
  show ?case
  proof (rule wp_mono [OF Send_step [OF w(1) up(7)]], goal_cases)
    case (3 r s2)
    then obtain x where x: "ivars s2 = Some x" "ub s2 = ub s1" "sends w x"
      "if 5 \<le> out_capacity w
       then actions (calls s2) = actions (calls s1) @ [Transmit (wire_packet (outCounter w) SWAP_TO_WIRED_PACKET 5)] \<and>
         outCounter x = outCounter w + 1
       else actions (calls s2) = actions (calls s1) \<and> outCounter x = outCounter w"
      by auto
    note up2 = sends_set_up [OF x(3) up(1)]
    have "\<exists>p. pipe (inPipe x) = Some p"
      using v(3) up(2) up2(2) by (auto simp: pipe_set_up_def pipe_ready_def)
    then obtain p where p: "pipe (inPipe x) = Some p" ..
    show ?case
      by (rule wp_mono [OF Async_step [OF x(1) p]])
        (use w x up up2 v in \<open>auto simp: wp_simps start_actions_def\<close>)
  qed simp_all
qed simp_all

text \<open>
  What a start does towards the controller, from the calls before and after it and the stored
  variables after it.
\<close>
definition after_start ::
    "u8 \<Rightarrow> bool \<Rightarrow> call list \<Rightarrow> call list \<Rightarrow> XboxOneInputInterface_IVars \<Rightarrow> bool" where
  "after_start n ok before after v \<longleftrightarrow>
     (if ok then started v \<and>
        actions after = actions before @ start_actions n (out_capacity v) \<and>
        outCounter v = n + (if 5 \<le> out_capacity v then 2 else 0)
      else actions after = actions before)"

lemma after_start_False [simp]:
  "after_start n False before after v \<longleftrightarrow> actions after = actions before"
  by (simp add: after_start_def)

lemma after_start_before:
  "after_start n ok before after v \<Longrightarrow> actions before = actions before' \<Longrightarrow>
   after_start n ok before' after v"
  by (simp add: after_start_def)

lemma handleStart_listen_wp:
  assumes doc: "documented A" and v: "ivars s = Some v" "interface v = Some i"
    "pipe_set_up (inPipe v)" "pipe_set_up (outPipe v)"
  shows "wp (handleStart_listen A C) (\<lambda>ok s'. \<exists>v'. ivars s' = Some v' \<and> ub s' = ub s \<and>
      enabled v' = enabled v \<and> after_start (outCounter v) ok (calls s) (calls s') v') s"
proof -
  let ?n = "mem_length (memory (inPipe v))"
  obtain ret a where ra: "on_CreateActionGotData A ?n (gotDataAction v) (calls s) = (ret, a)"
    by fastforce
  show ?thesis
  proof (cases "ret = kIOReturnSuccess")
    case True
    with documented_not_null(3) [OF doc] ra have a: "a \<noteq> None" by metis
    have c: "out_capacity (v\<lparr>gotDataAction := a\<rparr>) = out_capacity v" by (simp add: out_capacity_def)
    show ?thesis
      using v ra True a c
      by (auto simp: handleStart_listen_def wp_simps started_def after_start_def
        intro!: wp_mono [OF handleStart_greet_wp [where i = i and v = "v\<lparr>gotDataAction := a\<rparr>"]])
  next
    case False
    with v ra show ?thesis by (simp add: handleStart_listen_def wp_simps)
  qed
qed

text \<open>The framework's enumeration of the endpoints of any interface ends.\<close>
definition finite_endpoints :: "'a startup_api_scheme \<Rightarrow> bool" where
  "finite_endpoints A \<longleftrightarrow> (\<forall>cd ifd. \<exists>eps. enumerates (next_endpoint A cd ifd) None eps)"

lemma InitPipes_wp:
  assumes doc: "documented A" "finite_endpoints A" and v: "ivars s = Some v" "interface v = Some i"
  shows "wp (InitPipes A) (\<lambda>r s'. \<exists>ok v'. r = Some ok \<and> ivars s' = Some v' \<and> quiet s s' \<and> same_core v v' \<and>
      (ok \<longrightarrow> pipe (inPipe v') \<noteq> None \<and> pipe (outPipe v') \<noteq> None)) s"
proof -
  from doc(2) obtain eps where
    "enumerates (next_endpoint A (configurationDescriptor v) (interfaceDescriptor v)) None eps"
    by (auto simp: finite_endpoints_def)
  then show ?thesis
    unfolding InitPipes_eq_list [OF v(1), of A eps, OF \<open>enumerates _ _ _\<close>]
    by (intro wp_mono [OF InitPipes_list_wp [OF doc(1) v, of eps]]) blast
qed

definition start_post :: "'z input_state_scheme \<Rightarrow> XboxOneInputInterface_IVars \<Rightarrow> bool \<Rightarrow>
    'z input_state_scheme \<Rightarrow> bool" where
  "start_post s v ok s' \<longleftrightarrow> (\<exists>v'. ivars s' = Some v' \<and> ub s' = ub s \<and> enabled v' = enabled v \<and>
     after_start (outCounter v) ok (calls s) (calls s') v')"

lemma start_post_False:
  "ivars s' = Some v' \<Longrightarrow> quiet s s' \<Longrightarrow> enabled v' = enabled v \<Longrightarrow> start_post s v False s'"
  by (simp add: start_post_def quiet_def)

lemma start_post_trans:
  "quiet s t \<Longrightarrow> start_post t w ok s' \<Longrightarrow> outCounter w = outCounter v \<Longrightarrow> enabled w = enabled v \<Longrightarrow>
   start_post s v ok s'"
  by (auto simp: start_post_def quiet_def after_start_def)

lemma handleStart_setup_wp:
  assumes doc: "documented A" and v: "ivars s = Some v" "interface v = Some i"
    "pipe (inPipe v) = Some p" "pipe (outPipe v) = Some q"
  shows "wp (handleStart_setup A C) (start_post s v) s"
  unfolding handleStart_setup_def wp_bind
proof (rule wp_mono [OF SetupPipes_wp [OF doc v]], elim exE conjE)
  fix ok u x
  assume x: "ivars u = Some x" "quiet s u" "same_core v x"
    and ok: "ok \<longrightarrow> pipe_set_up (inPipe x) \<and> pipe_set_up (outPipe x) \<and>
      reportSize (inPipe x) =
        property_UInt64 A (snd (on_CopyProperties A (calls s))) kIOHIDMaxOutputReportSizeKey \<and>
      reportSize (outPipe x) = reportSize (outPipe v)"
  have i: "interface x = Some i" "outCounter x = outCounter v" "enabled x = enabled v"
    using x(3) v by (simp_all add: same_core_def)
  have "wp (handleStart_listen A C) (start_post s v) u" if ok
    by (rule wp_mono [OF handleStart_listen_wp [OF doc x(1) i(1)]])
      (use ok that start_post_trans [OF x(2) _ i(2,3)] in \<open>auto simp: start_post_def\<close>)
  then show "wp (if \<not> ok then return False else handleStart_listen A C) (start_post s v) u"
    using start_post_False [OF x(1,2) i(3)] by (cases ok) (simp_all add: wp_return)
qed

lemma handleStart_pipes_wp:
  assumes doc: "documented A" "finite_endpoints A" and v: "ivars s = Some v" "interface v = Some i"
  shows "wp (handleStart_pipes A C)
    (\<lambda>r s'. case r of None \<Rightarrow> False | Some ok \<Rightarrow> start_post s v ok s') s"
  unfolding handleStart_pipes_def wp_bind
proof (rule wp_mono [OF InitPipes_wp [OF doc v]], elim exE conjE)
  fix r u ok x
  assume r: "r = Some ok" and x: "ivars u = Some x" "quiet s u" "same_core v x"
    and ok: "ok \<longrightarrow> pipe (inPipe x) \<noteq> None \<and> pipe (outPipe x) \<noteq> None"
  have i: "interface x = Some i" "outCounter x = outCounter v" "enabled x = enabled v"
    using x(3) v by (simp_all add: same_core_def)
  have "wp (handleStart_setup A C) (start_post s v) u" if ok
  proof -
    from that ok obtain p q where pq: "pipe (inPipe x) = Some p" "pipe (outPipe x) = Some q" by auto
    show ?thesis
      by (rule wp_mono [OF handleStart_setup_wp [OF doc(1) x(1) i(1) pq]])
        (rule start_post_trans [OF x(2) _ i(2,3)])
  qed
  then show "wp (case r of None \<Rightarrow> return None | Some result \<Rightarrow> if \<not> result then return (Some False)
        else do { result \<leftarrow> handleStart_setup A C; return (Some result) })
    (\<lambda>r s'. case r of None \<Rightarrow> False | Some ok \<Rightarrow> start_post s v ok s') u"
    using start_post_False [OF x(1,2) i(3)] r by (cases ok) (auto simp: wp_return wp_bind elim!: wp_mono)
qed

lemma handleStart_wp:
  assumes doc: "documented A" "finite_endpoints A" and v: "ivars s = Some v" "interface v = Some i"
  shows "wp (handleStart A C provider)
    (\<lambda>r s'. case r of None \<Rightarrow> False | Some ok \<Rightarrow> start_post s v ok s') s"
proof -
  let ?Q = "\<lambda>r s'. case r of None \<Rightarrow> False | Some ok \<Rightarrow> start_post s v ok s'"
  let ?t = "\<lambda>b. s\<lparr>calls := calls s @ [super_handleStart provider b]\<rparr>"
  have t: "ivars (?t b) = Some v" "quiet s (?t b)" for b
    using v by (simp_all add: quiet_def)
  have "wp (do { result \<leftarrow> InitDescriptors A;
       if \<not> result then return (Some False) else handleStart_pipes A C }) ?Q (?t True)"
    unfolding wp_bind
  proof (rule wp_mono [OF InitDescriptors_wp [OF t(1) v(2)]], elim exE conjE)
    fix ok u cd ifd
    let ?x = "v\<lparr>configurationDescriptor := cd, interfaceDescriptor := ifd\<rparr>"
    assume u: "quiet (?t True) u" "ivars u = Some ?x"
    from v have i: "interface ?x = Some i" by simp
    have su: "quiet s u" by (rule quiet_trans [OF t(2) u(1)])
    have "wp (handleStart_pipes A C) ?Q u"
      by (rule wp_mono [OF handleStart_pipes_wp [OF doc u(2) i]])
        (auto intro: start_post_trans [OF su] split: option.splits)
    then show "wp (if \<not> ok then return (Some False) else handleStart_pipes A C) ?Q u"
      using start_post_False [OF u(2) su] by (cases ok) (simp_all add: wp_return)
  qed
  then show ?thesis
    using start_post_False [OF t(1) t(2)] by (simp add: handleStart_def wp_bind wp_invoke wp_if wp_return)
qed

end
