(* ===== verification/Input_Shutdown.thy ===== *)
theory Input_Shutdown
  imports Input_Startup
begin

text \<open>
  The end of \<^verbatim>\<open>XboxOneInputInterface.cpp\<close>: \<^verbatim>\<open>Stop_Impl\<close> with the
  block it hands to the cancellation, and \<^verbatim>\<open>free\<close>; then the ownership of the references
  the driver holds, from \<^verbatim>\<open>handleStart\<close> to \<^verbatim>\<open>free\<close>.
\<close>

subsection \<open>Stop and free\<close>

text \<open>The block \<^verbatim>\<open>finalize\<close>; the framework runs it once the cancellation is complete.\<close>
definition Stop_finalize ::
    "'a service_api_scheme \<Rightarrow> ref \<Rightarrow> ref ptr \<Rightarrow> ('z input_state_scheme, unit) state" where
  "Stop_finalize A this provider = do {
     _ \<leftarrow> invoke (super_Stop provider) (on_super_Stop A provider);
     emit (release this);
     p \<leftarrow> deref 0 provider;
     emit (release p)
   }"

definition XboxOneInputInterface_Stop ::
    "'a service_api_scheme \<Rightarrow> ref \<Rightarrow> ref ptr \<Rightarrow> ('z input_state_scheme, kern_return) state" where
  "XboxOneInputInterface_Stop A this provider = do {
     action \<leftarrow> iv None gotDataAction;
     case action of
       None \<Rightarrow> invoke (super_Stop provider) (on_super_Stop A provider)
     | Some a \<Rightarrow> do {
         emit (retain this);
         p \<leftarrow> deref 0 provider;
         emit (retain p);
         emit (Action_Cancel a);
         return kIOReturnSuccess
       }
   }"

definition XboxOneInputInterface_free :: "('z input_state_scheme, unit) state" where
  "XboxOneInputInterface_free = do {
     p \<leftarrow> gets ivars;
     (case p of
        None \<Rightarrow> return ()
      | Some v \<Rightarrow> do {
          free_descriptor_if (configurationDescriptor v);
          OSSafeRelease (pipe (inPipe v));
          OSSafeRelease (buffer (memory (inPipe v)));
          OSSafeRelease (pipe (outPipe v));
          OSSafeRelease (buffer (memory (outPipe v)));
          OSSafeRelease (gotDataAction v);
          OSSafeRelease (interface v)
        });
     IOSafeDeleteNULL p;
     modify (\<lambda>s. s\<lparr>ivars := None\<rparr>);
     emit super_free
   }"

subsection \<open>Ownership\<close>

text \<open>The references stored in a pipe record, and in all of the stored variables but the interface.\<close>
definition pipe_refs :: "usb_pipe_data \<Rightarrow> ref list" where
  "pipe_refs p = ptr_refs (pipe p) @ ptr_refs (buffer (memory p))"

definition stored :: "XboxOneInputInterface_IVars \<Rightarrow> ref list" where
  "stored v = ptr_refs (configurationDescriptor v) @ pipe_refs (inPipe v) @ pipe_refs (outPipe v) @
     ptr_refs (gotDataAction v)"

text \<open>A framework function that fails leaves its out-parameter as it was.\<close>
definition untouched_on_failure :: "'a startup_api_scheme \<Rightarrow> bool" where
  "untouched_on_failure A \<longleftrightarrow>
     (\<forall>i a old h. fst (on_CopyPipe A i a old h) \<noteq> kIOReturnSuccess \<longrightarrow> snd (on_CopyPipe A i a old h) = old) \<and>
     (\<forall>i n old h. fst (on_CreateIOBuffer A i n old h) \<noteq> kIOReturnSuccess \<longrightarrow>
        snd (on_CreateIOBuffer A i n old h) = old) \<and>
     (\<forall>n old h. fst (on_CreateActionGotData A n old h) \<noteq> kIOReturnSuccess \<longrightarrow>
        snd (on_CreateActionGotData A n old h) = old)"

text \<open>At most one endpoint of the list goes into each slot.\<close>
fun one_per_slot :: "'a startup_api_scheme \<Rightarrow> ref list \<Rightarrow> bool" where
  "one_per_slot A [] = True"
| "one_per_slot A (e # es) = ((\<forall>sl. fills A e sl \<longrightarrow> \<not> finds A sl es) \<and> one_per_slot A es)"

text \<open>Beyond what it held before (\<open>base\<close>) the driver owes exactly what it has stored.\<close>
definition accounted :: "(ref \<Rightarrow> int) \<Rightarrow> 'z input_state_scheme \<Rightarrow> XboxOneInputInterface_IVars \<Rightarrow> bool" where
  "accounted base s v \<longleftrightarrow> ivars s = Some v \<and>
     (\<forall>r. balance r (calls s) = base r + int (count_list (stored v) r))"

interpretation input: driver_object
  "XboxOneInputInterface_init A" XboxOneInputInterface_free "\<lambda>s. ivars s \<noteq> None" calls
  by unfold_locales
    (auto simp: XboxOneInputInterface_init_def XboxOneInputInterface_free_def wp_simps split: option.split)

lemma free_balance:
  assumes "ivars s = Some v"
  shows "wp XboxOneInputInterface_free (\<lambda>_ s'. ub s' = ub s \<and>
      balance r (calls s') = balance r (calls s) -
        int (count_list (stored v @ ptr_refs (interface v)) r)) s"
  using assms
  by (auto simp: XboxOneInputInterface_free_def wp_simps owner_simps stored_def pipe_refs_def
      split: option.split)

text \<open>Number of calls of the base class's \<^verbatim>\<open>Stop\<close>.\<close>
definition super_Stops :: "call list \<Rightarrow> nat" where
  "super_Stops cs = length (filter (\<lambda>c. case c of super_Stop p ret \<Rightarrow> True | _ \<Rightarrow> False) cs)"

text \<open>Stop followed by the block, when there was something to cancel.\<close>
definition Stop_complete ::
    "'a service_api_scheme \<Rightarrow> ref \<Rightarrow> ref ptr \<Rightarrow> ('z input_state_scheme, kern_return) state" where
  "Stop_complete A this provider = do {
     action \<leftarrow> iv None gotDataAction;
     ret \<leftarrow> XboxOneInputInterface_Stop A this provider;
     when_do (action \<noteq> None) (Stop_finalize A this provider);
     return ret
   }"

lemma Stop_complete_wp:
  assumes "ivars s = Some v" "provider = Some p"
  shows "wp (Stop_complete A this provider) (\<lambda>ret s'. ivars s' = Some v \<and> ub s' = ub s \<and>
      (\<forall>r. balance r (calls s') = balance r (calls s)) \<and>
      super_Stops (calls s') = Suc (super_Stops (calls s))) s"
  using assms
  by (auto simp: Stop_complete_def XboxOneInputInterface_Stop_def Stop_finalize_def wp_simps owner_simps
      super_Stops_def split: option.split)

subsection \<open>Ownership during the start\<close>

lemma untouched_onD:
  assumes "untouched_on_failure A" "ret \<noteq> kIOReturnSuccess"
  shows "on_CopyPipe A i a oldp h = (ret, q) \<Longrightarrow> q = oldp"
    "on_CreateIOBuffer A i n oldb h = (ret, q) \<Longrightarrow> q = oldb"
    "on_CreateActionGotData A n olda h = (ret, q) \<Longrightarrow> q = olda"
  using assms unfolding untouched_on_failure_def by (metis fst_conv snd_conv)+

lemma SetupPipe_accounted:
  assumes un: "untouched_on_failure A" and s: "accounted base s v" "buffer (memory (get_pipe sl v)) = None"
  shows "wp (SetupPipe A sl) (\<lambda>ok s'. \<exists>v'. accounted base s' v' \<and>
     get_pipe (other sl) v' = get_pipe (other sl) v \<and> gotDataAction v' = gotDataAction v \<and>
     interface v' = interface v) s"
  using s
  by (cases sl)
    (auto simp: SetupPipe_def wp_simps wp_deref accounted_def stored_def pipe_refs_def owner_simps
      dest!: untouched_onD(2) [OF un, rotated] split: prod.split option.split)

lemma SetupPipes_out_accounted:
  assumes un: "untouched_on_failure A" and s: "accounted base s v" "buffer (memory (outPipe v)) = None"
  shows "wp (SetupPipes_out A props) (\<lambda>ok s'. \<exists>v'. accounted base s' v' \<and>
     gotDataAction v' = gotDataAction v \<and> interface v' = interface v) s"
  unfolding SetupPipes_out_def wp_bind
  by (rule wp_mono [OF SetupPipe_accounted [OF un s(1), where sl = Out_slot]])
    (use s(2) in \<open>auto simp: wp_simps accounted_def stored_def pipe_refs_def\<close>)

lemma SetupPipes_in_accounted:
  assumes un: "untouched_on_failure A" and s: "accounted base s v"
    "buffer (memory (inPipe v)) = None" "buffer (memory (outPipe v)) = None"
  shows "wp (SetupPipes_in A props) (\<lambda>ok s'. \<exists>v'. accounted base s' v' \<and>
     gotDataAction v' = gotDataAction v \<and> interface v' = interface v) s"
  unfolding SetupPipes_in_def wp_bind
proof (rule wp_mono [OF SetupPipe_accounted [OF un s(1), where sl = In_slot]], goal_cases)
  case (2 ok t)
  then obtain w where w: "accounted base t w" "outPipe w = outPipe v"
    "gotDataAction w = gotDataAction v" "interface w = interface v" by auto
  let ?w = "w\<lparr>inPipe := inPipe w\<lparr>reportSize := property_UInt64 A props kIOHIDMaxInputReportSizeKey\<rparr>\<rparr>"
  have "accounted base (t\<lparr>ivars := Some ?w\<rparr>) ?w" "buffer (memory (outPipe ?w)) = None"
    using w s(3) by (simp_all add: accounted_def stored_def pipe_refs_def)
  from SetupPipes_out_accounted [OF un this] w show ?case
    by (auto simp: wp_simps accounted_def)
qed (use s in simp)

lemma SetupPipes_accounted:
  assumes un: "untouched_on_failure A" and s: "accounted base s v"
    "buffer (memory (inPipe v)) = None" "buffer (memory (outPipe v)) = None"
  shows "wp (SetupPipes A) (\<lambda>ok s'. \<exists>v'. accounted base s' v' \<and>
     gotDataAction v' = gotDataAction v \<and> interface v' = interface v) s"
proof -
  obtain ret props where props: "on_CopyProperties A (calls s) = (ret, props)" by fastforce
  let ?t = "s\<lparr>calls := calls s @ [CopyProperties (ret, props)]\<rparr>"
  let ?base = "\<lambda>r. base r + int (count_list (ptr_refs props) r)"
  have t: "accounted ?base ?t v"
    using s(1) by (auto simp: accounted_def owner_simps)
  have "wp (if ret \<noteq> kIOReturnSuccess then return False else SetupPipes_in A props)
     (\<lambda>ok s'. \<exists>v'. accounted ?base s' v' \<and> gotDataAction v' = gotDataAction v \<and>
        interface v' = interface v) ?t"
    using SetupPipes_in_accounted [OF un t s(2,3)] t by (auto simp: wp_simps)
  then show ?thesis
    by (auto simp: SetupPipes_def wp_simps props accounted_def owner_simps elim!: wp_mono)
qed

lemma InitPipes_round_accounted:
  assumes un: "untouched_on_failure A" and s: "accounted base s v"
    "\<forall>sl. fills A e sl \<longrightarrow> pipe (get_pipe sl v) = None"
  shows "wp (InitPipes_round A e) (\<lambda>r s'. \<exists>v'. accounted base s' v' \<and>
     gotDataAction v' = gotDataAction v \<and> interface v' = interface v \<and>
     (\<forall>sl. memory (get_pipe sl v') = memory (get_pipe sl v)) \<and>
     (\<forall>sl. \<not> fills A e sl \<longrightarrow> pipe (get_pipe sl v') = pipe (get_pipe sl v))) s"
proof (cases "\<exists>sl. fills A e sl")
  case True
  then obtain sl where sl: "fills A e sl" ..
  have both: "(\<forall>x. P x) \<longleftrightarrow> P sl \<and> P (other sl)" for P
    by (cases sl; metis other.simps slot.exhaust)
  from sl s show ?thesis
    unfolding both
    by (cases sl) (auto simp: InitPipes_round_def fills_def wp_simps wp_deref accounted_def stored_def pipe_refs_def
        owner_simps dest!: untouched_onD(1) [OF un, rotated] split: prod.split option.split)
next
  case False
  with s show ?thesis
    by (auto simp: InitPipes_round_def fills_def wp_simps accounted_def split: option.split)
qed

lemma InitPipes_list_accounted:
  fixes s :: "'z input_state_scheme"
  assumes un: "untouched_on_failure A" and s: "accounted base s v" "one_per_slot A es"
    "\<forall>sl. finds A sl es \<longrightarrow> pipe (get_pipe sl v) = None"
  shows "wp (InitPipes_list A es) (\<lambda>ok s'. \<exists>v'. accounted base s' v' \<and>
     gotDataAction v' = gotDataAction v \<and> interface v' = interface v \<and>
     (\<forall>sl. memory (get_pipe sl v') = memory (get_pipe sl v))) s"
  using s
proof (induction es arbitrary: s v)
  case Nil
  then show ?case by (auto simp: wp_simps)
next
  case (Cons e es)
  have "\<forall>sl. fills A e sl \<longrightarrow> pipe (get_pipe sl v) = None" using Cons.prems(3) by simp
  from InitPipes_round_accounted [OF un Cons.prems(1) this] show ?case
    unfolding InitPipes_list.simps wp_bind
  proof (rule wp_mono, elim exE conjE)
    fix r w and t :: "'z input_state_scheme"
    assume w: "accounted base t w" "gotDataAction w = gotDataAction v" "interface w = interface v"
      "\<forall>sl. memory (get_pipe sl w) = memory (get_pipe sl v)"
      and fills: "\<forall>sl. \<not> fills A e sl \<longrightarrow> pipe (get_pipe sl w) = pipe (get_pipe sl v)"
    have "\<forall>sl. finds A sl es \<longrightarrow> pipe (get_pipe sl w) = None"
      using Cons.prems(2,3) fills by auto
    from Cons.IH [OF w(1) _ this] Cons.prems(2) w show "wp (case r of None \<Rightarrow> InitPipes_list A es
        | Some b \<Rightarrow> return b) (\<lambda>ok s'. \<exists>v'. accounted base s' v' \<and>
       gotDataAction v' = gotDataAction v \<and> interface v' = interface v \<and>
       (\<forall>sl. memory (get_pipe sl v') = memory (get_pipe sl v))) t"
      by (cases r) (auto simp: wp_simps)
  qed
qed

lemma Send_accounted:
  assumes "accounted base s v"
  shows "wp (SendInterruptData C data sz) (\<lambda>_ s'. \<exists>v'. accounted base s' v' \<and> interface v' = interface v) s"
  using assms
  by (auto simp: SendInterruptData_def wp_simps wp_deref accounted_def stored_def pipe_refs_def
      set_out_memory_def owner_simps Let_def split: prod.split option.split)

lemma Async_accounted:
  assumes "accounted base s v"
  shows "wp (RequestAsyncInterruptData C) (\<lambda>_ s'. accounted base s' v) s"
  using assms
  by (auto simp: RequestAsyncInterruptData_def wp_simps wp_deref accounted_def owner_simps split: option.split)

lemma handleStart_greet_accounted:
  fixes s :: "'z input_state_scheme"
  assumes s: "accounted base s v" "interface v = Some i"
  shows "wp (handleStart_greet C) (\<lambda>ok s'. ok \<and> (\<exists>v'. interface v' = Some i \<and>
     accounted (\<lambda>r. base r + of_bool (r = i)) s' v')) s"
  unfolding handleStart_greet_def wp_bind
proof (rule wp_mono [OF Send_accounted [OF s(1)]], elim exE conjE)
  fix r w and t :: "'z input_state_scheme"
  assume w: "accounted base t w" "interface w = interface v"
  show "wp (SendInterruptData C SWAP_TO_WIRED_PACKET SWAP_TO_WIRED_PACKET_SIZE)
     (\<lambda>r. wp (RequestAsyncInterruptData C) (\<lambda>r. wp (iv None interface)
       (\<lambda>q. wp (deref 0 q) (\<lambda>j. wp (emit (retain j)) (\<lambda>r. wp (return True)
       (\<lambda>ok s'. ok \<and> (\<exists>v'. interface v' = Some i \<and>
          accounted (\<lambda>r. base r + of_bool (r = i)) s' v'))))))) t"
  proof (rule wp_mono [OF Send_accounted [OF w(1)]], elim exE conjE)
    fix r x and u :: "'z input_state_scheme"
    assume x: "accounted base u x" "interface x = interface w"
    show "wp (RequestAsyncInterruptData C) (\<lambda>r. wp (iv None interface)
       (\<lambda>q. wp (deref 0 q) (\<lambda>j. wp (emit (retain j)) (\<lambda>r. wp (return True)
       (\<lambda>ok s'. ok \<and> (\<exists>v'. interface v' = Some i \<and>
          accounted (\<lambda>r. base r + of_bool (r = i)) s' v')))))) u"
      by (rule wp_mono [OF Async_accounted [OF x(1)]])
        (use x w s in \<open>auto simp: accounted_def wp_simps owner_simps\<close>)
  qed
qed

lemma handleStart_listen_accounted:
  assumes un: "untouched_on_failure A" and s: "accounted base s v" "interface v = Some i" "gotDataAction v = None"
  shows "wp (handleStart_listen A C) (\<lambda>ok s'. \<exists>v'. interface v' = Some i \<and>
     accounted (\<lambda>r. base r + of_bool (ok \<and> r = i)) s' v') s"
proof -
  let ?n = "mem_length (memory (inPipe v))"
  obtain ret a where ra: "on_CreateActionGotData A ?n (gotDataAction v) (calls s) = (ret, a)"
    by fastforce
  let ?v = "v\<lparr>gotDataAction := a\<rparr>"
  define t where "t = s\<lparr>calls := calls s @ [CreateActionGotData ?n (ret, a)], ivars := Some ?v\<rparr>"
  have t: "accounted base t ?v" "interface ?v = Some i"
    using s ra untouched_onD(3) [OF un _ ra]
    by (auto simp: accounted_def owner_simps stored_def t_def)
  from s(1) have v: "ivars s = Some v" by (simp add: accounted_def)
  have "wp (if ret \<noteq> kIOReturnSuccess then return False else handleStart_greet C)
      (\<lambda>ok s'. \<exists>v'. interface v' = Some i \<and> accounted (\<lambda>r. base r + of_bool (ok \<and> r = i)) s' v') t"
    using t(2) by (auto simp: wp_return intro!: wp_mono [OF handleStart_greet_accounted [OF t]]
        intro: exI [of _ ?v] t(1))
  with v ra show ?thesis by (simp add: handleStart_listen_def wp_simps t_def)
qed

text \<open>The stored variables of an object that has not been started, and the two laws the account needs.\<close>
definition fresh :: "XboxOneInputInterface_IVars \<Rightarrow> bool" where
  "fresh v \<longleftrightarrow> stored v = []"

definition one_endpoint_per_slot :: "'a startup_api_scheme \<Rightarrow> bool" where
  "one_endpoint_per_slot A \<longleftrightarrow>
     (\<forall>cd ifd. \<exists>eps. enumerates (next_endpoint A cd ifd) None eps \<and> one_per_slot A eps)"

lemma fresh_iff:
  "fresh v \<longleftrightarrow> configurationDescriptor v = None \<and> gotDataAction v = None \<and>
     (\<forall>sl. pipe (get_pipe sl v) = None \<and> buffer (memory (get_pipe sl v)) = None)"
proof -
  have "(\<forall>x. P x) \<longleftrightarrow> P In_slot \<and> P Out_slot" for P by (metis slot.exhaust)
  moreover have "ptr_refs p = [] \<longleftrightarrow> p = None" for p by (cases p) simp_all
  ultimately show ?thesis by (auto simp: fresh_def stored_def pipe_refs_def)
qed

lemma handleStart_setup_accounted:
  assumes un: "untouched_on_failure A" and s: "accounted base s v" "interface v = Some i" "gotDataAction v = None"
    "\<forall>sl. buffer (memory (get_pipe sl v)) = None"
  shows "wp (handleStart_setup A C) (\<lambda>ok s'. \<exists>v'. interface v' = Some i \<and>
     accounted (\<lambda>r. base r + of_bool (ok \<and> r = i)) s' v') s"
  unfolding handleStart_setup_def wp_bind
proof (rule wp_mono [OF SetupPipes_accounted [OF un s(1)]], goal_cases)
  case (3 ok t)
  then obtain w where w: "accounted base t w" "interface w = Some i" "gotDataAction w = None"
    using s by auto
  with handleStart_listen_accounted [OF un w, of C] show ?case by (auto simp: wp_return)
qed (use s(4) [rule_format, of In_slot] s(4) [rule_format, of Out_slot] in simp_all)

lemma handleStart_pipes_accounted:
  assumes un: "untouched_on_failure A" "one_endpoint_per_slot A"
    and s: "accounted base s v" "interface v = Some i" "gotDataAction v = None"
    "\<forall>sl. pipe (get_pipe sl v) = None \<and> buffer (memory (get_pipe sl v)) = None"
  shows "wp (handleStart_pipes A C) (\<lambda>r s'. case r of None \<Rightarrow> False | Some ok \<Rightarrow>
     \<exists>v'. interface v' = Some i \<and> accounted (\<lambda>r. base r + of_bool (ok \<and> r = i)) s' v') s"
proof -
  have v: "ivars s = Some v" using s(1) by (simp add: accounted_def)
  from un(2) obtain eps where eps: "one_per_slot A eps"
    "enumerates (next_endpoint A (configurationDescriptor v) (interfaceDescriptor v)) None eps"
    by (auto simp: one_endpoint_per_slot_def)
  show ?thesis
    unfolding handleStart_pipes_def wp_bind InitPipes_eq_list [OF v eps(2)]
  proof (rule wp_mono [OF InitPipes_list_accounted [OF un(1) s(1) eps(1)]], goal_cases)
    case (2 ok t)
    then obtain w where w: "accounted base t w" "interface w = Some i" "gotDataAction w = None"
      "\<forall>sl. buffer (memory (get_pipe sl w)) = None"
      using s by auto
    from handleStart_setup_accounted [OF un(1) w, of C] w(1,2) show ?case
      by (cases ok) (auto simp: wp_return wp_bind elim!: wp_mono)
  qed (use s(4) in simp)
qed

lemma handleStart_accounted:
  fixes s :: "'z input_state_scheme"
  assumes un: "untouched_on_failure A" "one_endpoint_per_slot A"
    and s: "ivars s = Some v" "interface v = Some i" "fresh v"
  shows "wp (handleStart A C provider) (\<lambda>r s'. case r of None \<Rightarrow> False | Some ok \<Rightarrow>
     \<exists>v'. interface v' = Some i \<and>
       accounted (\<lambda>r. balance r (calls s) + of_bool (ok \<and> r = i)) s' v') s"
    (is "wp _ ?Q s")
proof -
  let ?base = "\<lambda>r. balance r (calls s)"
  define t where "t = s\<lparr>calls := calls s @ [super_handleStart provider True]\<rparr>"
  have t: "accounted ?base t v" "ivars t = Some v"
    using s by (auto simp: accounted_def owner_simps t_def fresh_def)
  have "wp (InitDescriptors A) (\<lambda>ok s'. \<exists>cd ifd. accounted ?base s'
      (v\<lparr>configurationDescriptor := cd, interfaceDescriptor := ifd\<rparr>)) t"
    using t s
    by (cases v) (auto simp: InitDescriptors_def wp_simps accounted_def owner_simps fresh_iff stored_def
        split: option.split)
  then have "wp (do { result \<leftarrow> InitDescriptors A;
       if \<not> result then return (Some False) else handleStart_pipes A C }) ?Q t"
    unfolding wp_bind
  proof (rule wp_mono, elim exE)
    fix ok cd ifd and u :: "'z input_state_scheme"
    let ?w = "v\<lparr>configurationDescriptor := cd, interfaceDescriptor := ifd\<rparr>"
    assume w: "accounted ?base u ?w"
    have "get_pipe sl ?w = get_pipe sl v" for sl by (cases sl) simp_all
    with s have "interface ?w = Some i" "gotDataAction ?w = None"
      "\<forall>sl. pipe (get_pipe sl ?w) = None \<and> buffer (memory (get_pipe sl ?w)) = None"
      by (simp_all add: fresh_iff)
    from handleStart_pipes_accounted [OF un w this, of C] w this(1)
    show "wp (if \<not> ok then return (Some False) else handleStart_pipes A C) ?Q u"
      by (auto simp: wp_return intro: exI [of _ ?w])
  qed
  moreover have "?Q (Some False) (s\<lparr>calls := calls s @ [super_handleStart provider False]\<rparr>)"
    using s by (auto simp: accounted_def owner_simps fresh_def)
  ultimately show ?thesis
    by (simp add: handleStart_def wp_bind wp_invoke wp_if wp_return t_def)
qed

end
