(* ===== verification/Enable_Switch.thy ===== *)
theory Enable_Switch
  imports Input_Traffic
begin

text \<open>
  The contract between the user client and the input interface: a switch that keeps the last
  setting and touches nothing else.  \<^verbatim>\<open>SetEnable\<close> of
  \<^verbatim>\<open>XboxOneInputInterface.cpp\<close> provides it.
\<close>

locale enable_switch =
  fixes set_enable :: "bool \<Rightarrow> ('s, unit) state"
    and switch :: "'s \<Rightarrow> bool option"
    and rest :: "'s \<Rightarrow> 'r"
  assumes set_switch: "wp (set_enable b) (\<lambda>_ s'. switch s' = map_option (\<lambda>_. b) (switch s)) s"
    and set_rest: "wp (set_enable b) (\<lambda>_ s'. rest s' = rest s) s"
begin

lemma last_setting:
  assumes "switch s = Some b"
  shows "wp (run_all set_enable bs) (\<lambda>_ s'. switch s' = Some (last (b # bs))) s"
  using assms
proof (induction bs arbitrary: s b)
  case Nil
  then show ?case by (simp add: wp_simps)
next
  case (Cons c bs)
  have "wp (set_enable c) (\<lambda>_. wp (run_all set_enable bs) (\<lambda>_ s'. switch s' = Some (last (c # bs)))) s"
    by (rule wp_mono [OF set_switch]) (use Cons in simp)
  then show ?case by (simp add: wp_simps)
qed

lemma settings_keep_rest:
  "wp (run_all set_enable bs) (\<lambda>_ s'. rest s' = rest s) s"
  by (rule wp_run_all [where I = "\<lambda>t. rest t = rest s"]) (auto intro: wp_mono [OF set_rest])

end

text \<open>Everything of the input interface but the switch.\<close>
definition but_switch ::
    "'z input_state_scheme \<Rightarrow> call list \<times> ub list \<times> XboxOneInputInterface_IVars option" where
  "but_switch s = (calls s, ub s, map_option (\<lambda>v. v\<lparr>enabled := False\<rparr>) (ivars s))"

interpretation enabling: enable_switch SetEnable "\<lambda>s. map_option enabled (ivars s)" but_switch
  by unfold_locales (auto simp: SetEnable_def wp_simps but_switch_def)

end
