(* ===== verification/User_Client.thy ===== *)
theory User_Client
  imports Enable_Switch Driver_Lifecycle
begin

text \<open>
  \<^verbatim>\<open>XboxOneUserClient.cpp\<close>: the object through which an application talks to the
  driver, with the table of its external methods, the dispatch of a call and the licensing
  handler; and the two functions of \<^verbatim>\<open>XboxOneInputInterface.cpp\<close> it works with,
  \<^verbatim>\<open>NewUserClient_Impl\<close> and \<^verbatim>\<open>SetEnable\<close>.  The state is that of the
  input interface with the stored variables of the client and the arguments of the call under way.
  The base class's \<^verbatim>\<open>ExternalMethod\<close> and \<^verbatim>\<open>Create\<close> run code of the
  driver and are parameter actions; \<open>dispatch_law\<close> and \<open>create_law\<close> are what is
  documented of them.
\<close>

subsection \<open>State\<close>

record XboxOneUserClient_IVars =
  inputInterface :: "ref ptr"

record IOUserClientMethodArguments =
  completion :: "ref ptr"
  scalarInput :: "u64 list"
  structureInputSize :: u32
  scalarOutput :: "u64 list"
  structureOutputSize :: u32

record client_state = input_state +
  client_ivars :: "XboxOneUserClient_IVars ptr"
  arguments :: IOUserClientMethodArguments

record client_api = service_api +
  is_XboxOneInputInterface :: "ref \<Rightarrow> bool"
  is_XboxOneUserClient :: "ref \<Rightarrow> bool"

subsection \<open>External methods\<close>

definition ExternalMethodType_Unknown :: u64 where
  "ExternalMethodType_Unknown = 0"

definition ExternalMethodType_Licensing :: u64 where
  "ExternalMethodType_Licensing = 1"

definition kNumberOfExternalMethods :: u64 where
  "kNumberOfExternalMethods = 2"

text \<open>The static functions a table entry can name.\<close>
datatype external_function = Fn_StaticHandleLicensing

record IOUserClientMethodDispatch =
  dispatch_function :: "external_function ptr"
  checkCompletionExists :: u32
  checkScalarInputCount :: u32
  checkStructureInputSize :: u32
  checkScalarOutputCount :: u32
  checkStructureOutputSize :: u32

definition empty_dispatch :: IOUserClientMethodDispatch where
  "empty_dispatch = \<lparr>dispatch_function = None, checkCompletionExists = 0, checkScalarInputCount = 0,
     checkStructureInputSize = 0, checkScalarOutputCount = 0, checkStructureOutputSize = 0\<rparr>"

definition externalMethodChecks :: "IOUserClientMethodDispatch list" where
  "externalMethodChecks =
     (replicate (unat kNumberOfExternalMethods) empty_dispatch)
       [unat ExternalMethodType_Licensing :=
         \<lparr>dispatch_function = Some Fn_StaticHandleLicensing, checkCompletionExists = 0,
          checkScalarInputCount = 1, checkStructureInputSize = 0,
          checkScalarOutputCount = 1, checkStructureOutputSize = 0\<rparr>]"

subsection \<open>Life cycle\<close>

definition XboxOneUserClient_init :: "'a client_api_scheme \<Rightarrow> (client_state, bool) state" where
  "XboxOneUserClient_init U = do {
     result \<leftarrow> invoke super_init (on_super_init U);
     if \<not> result then return False
     else do {
       ok \<leftarrow> invoke IONewZero (on_IONewZero U);
       modify (\<lambda>s. s\<lparr>client_ivars := (if ok then Some \<lparr>inputInterface = None\<rparr> else None)\<rparr>);
       if \<not> ok then return False else return True
     }
   }"

definition XboxOneUserClient_Start ::
    "'a client_api_scheme \<Rightarrow> ref ptr \<Rightarrow> (client_state, kern_return) state" where
  "XboxOneUserClient_Start U provider = do {
     ret \<leftarrow> invoke (super_Start provider) (on_super_Start U provider);
     if ret \<noteq> kIOReturnSuccess then return ret
     else do {
       ret \<leftarrow> invoke RegisterService (on_RegisterService U);
       if ret \<noteq> kIOReturnSuccess then return ret else return kIOReturnSuccess
     }
   }"

definition SetInputInterface :: "'a client_api_scheme \<Rightarrow> ref ptr \<Rightarrow> (client_state, unit) state" where
  "SetInputInterface U i =
     set_member client_ivars client_ivars_update
       (inputInterface_update (\<lambda>_. OSDynamicCast (is_XboxOneInputInterface U) i))"

definition XboxOneUserClient_Stop ::
    "'a client_api_scheme \<Rightarrow> ref ptr \<Rightarrow> (client_state, kern_return) state" where
  "XboxOneUserClient_Stop U provider = invoke (super_Stop provider) (on_super_Stop U provider)"

definition XboxOneUserClient_free :: "(client_state, unit) state" where
  "XboxOneUserClient_free = do {
     p \<leftarrow> gets client_ivars;
     IOSafeDeleteNULL p;
     modify (\<lambda>s. s\<lparr>client_ivars := None\<rparr>);
     emit super_free
   }"

subsection \<open>Calls\<close>

definition set_output :: "u64 \<Rightarrow> (client_state, unit) state" where
  "set_output x = do {
     out \<leftarrow> gets (\<lambda>s. scalarOutput (arguments s));
     ub_unless (0 < length out) (Write_out_of_bounds 0 (length out));
     modify (\<lambda>s. s\<lparr>arguments := (arguments s)\<lparr>scalarOutput := out[0 := x]\<rparr>\<rparr>)
   }"

definition HandleLicensing :: "(client_state, kern_return) state" where
  "HandleLicensing = do {
     inp \<leftarrow> gets (\<lambda>s. scalarInput (arguments s));
     ub_unless (0 < length inp) (Read_out_of_bounds 0 (length inp));
     let enable = (case inp of [] \<Rightarrow> False | x # xs \<Rightarrow> x \<noteq> 0);
     p \<leftarrow> member client_ivars None inputInterface;
     (if p \<noteq> None then do {
        SetEnable enable;
        set_output (of_bool enable)
      }
      else set_output (of_bool False));
     return kIOReturnSuccess
   }"

text \<open>The target of a call is this user client, or null.\<close>
definition StaticHandleLicensing :: "ref ptr \<Rightarrow> (client_state, kern_return) state" where
  "StaticHandleLicensing target =
     (if target = None then return kIOReturnError else HandleLicensing)"

definition run_function :: "external_function \<Rightarrow> ref ptr \<Rightarrow> (client_state, kern_return) state" where
  "run_function f target = (case f of Fn_StaticHandleLicensing \<Rightarrow> StaticHandleLicensing target)"

type_synonym external_method =
  "u64 \<Rightarrow> IOUserClientMethodDispatch ptr \<Rightarrow> ref ptr \<Rightarrow> (client_state, kern_return) state"

definition ExternalMethod :: "external_method \<Rightarrow> ref \<Rightarrow> external_method" where
  "ExternalMethod super_method this selector dispatch target =
     (if selector > ExternalMethodType_Unknown then
        (if selector < kNumberOfExternalMethods
         then super_method selector (Some (externalMethodChecks ! unat selector))
           (case target of None \<Rightarrow> Some this | Some t \<Rightarrow> Some t)
         else super_method selector dispatch target)
      else return kIOReturnNotFound)"

subsection \<open>A new client\<close>

text \<open>
  \<^verbatim>\<open>Create\<close> makes an object of the class the property list names and runs its
  \<^verbatim>\<open>init\<close> and \<^verbatim>\<open>Start\<close>; the stored variables of that object are the
  \<open>client_ivars\<close> of the state.
\<close>
type_synonym create_client = "string \<Rightarrow> (client_state, kern_return \<times> ref ptr) state"

text \<open>The new value of \<^verbatim>\<open>*userClient\<close> is returned with the code.\<close>
definition NewUserClient ::
    "'a client_api_scheme \<Rightarrow> create_client \<Rightarrow> ref \<Rightarrow> ref ptr \<Rightarrow> (client_state, kern_return \<times> ref ptr) state" where
  "NewUserClient U create this userClient = do {
     (ret, client) \<leftarrow> create ''UserClientProperties'';
     if ret \<noteq> kIOReturnSuccess then return (ret, userClient)
     else (case OSDynamicCast (is_XboxOneUserClient U) client of
         None \<Rightarrow> do {
           c \<leftarrow> deref 0 client;
           emit (release c);
           return (kIOReturnError, None)
         }
       | Some u \<Rightarrow> do {
           SetInputInterface U (Some this);
           return (ret, Some u)
         })
   }"

subsection \<open>What is documented of the base class\<close>

text \<open>The value of a check that does not matter: \<^verbatim>\<open>kIOUserClientVariableStructureSize\<close>.\<close>
definition any_value :: u32 where
  "any_value = 0xffffffff"

definition accepts :: "IOUserClientMethodDispatch \<Rightarrow> IOUserClientMethodArguments \<Rightarrow> bool" where
  "accepts d a \<longleftrightarrow>
     (checkCompletionExists d = any_value \<or> (checkCompletionExists d \<noteq> 0 \<longleftrightarrow> completion a \<noteq> None)) \<and>
     (checkScalarInputCount d = any_value \<or> unat (checkScalarInputCount d) = length (scalarInput a)) \<and>
     (checkStructureInputSize d = any_value \<or> checkStructureInputSize d = structureInputSize a) \<and>
     (checkScalarOutputCount d = any_value \<or> unat (checkScalarOutputCount d) = length (scalarOutput a)) \<and>
     (checkStructureOutputSize d = any_value \<or> checkStructureOutputSize d = structureOutputSize a)"

text \<open>
  With a table entry the base class checks the arguments against it and then calls the function,
  or refuses the arguments.
\<close>
definition dispatch_law :: "external_method \<Rightarrow> bool" where
  "dispatch_law super_method \<longleftrightarrow>
     (\<forall>selector d f target s. dispatch_function d = Some f \<longrightarrow>
        run_state (super_method selector (Some d) target) s =
          (if accepts d (arguments s) then run_state (run_function f target) s
           else (kIOReturnBadArgument, s)))"

text \<open>Calls that have nothing to do with the controller, and what they do with the references.\<close>
definition aside :: "(ref \<Rightarrow> int) \<Rightarrow> int \<Rightarrow> call list \<Rightarrow> bool" where
  "aside refs allocated cs \<longleftrightarrow>
     actions cs = [] \<and> (\<forall>r. balance r cs = refs r) \<and> ivars_live cs = allocated"

text \<open>
  Creating a client leaves the driver alone.  A success gives an object, which the caller owns; if
  it is a client of the driver, its \<^verbatim>\<open>init\<close> has allocated its stored variables.
\<close>
definition create_law :: "'a client_api_scheme \<Rightarrow> create_client \<Rightarrow> bool" where
  "create_law U create \<longleftrightarrow> (\<forall>k s ret c s'. client_ivars s = None \<longrightarrow>
     run_state (create k) s = ((ret, c), s') \<longrightarrow>
     ivars s' = ivars s \<and> ub s' = ub s \<and> (ret = kIOReturnSuccess \<longrightarrow> c \<noteq> None) \<and>
     (client_ivars s' \<noteq> None \<longleftrightarrow>
        ret = kIOReturnSuccess \<and> OSDynamicCast (is_XboxOneUserClient U) c \<noteq> None) \<and>
     (\<exists>new. calls s' = calls s @ new \<and>
        aside (\<lambda>r. int (count_list (success_refs (ret, c)) r)) (of_bool (client_ivars s' \<noteq> None)) new))"

subsection \<open>Laws\<close>

interpretation client: driver_object
  "XboxOneUserClient_init U" XboxOneUserClient_free "\<lambda>s. client_ivars s \<noteq> None" calls
  by unfold_locales (auto simp: XboxOneUserClient_init_def XboxOneUserClient_free_def wp_simps)

definition licensing_dispatch :: IOUserClientMethodDispatch where
  "licensing_dispatch =
     \<lparr>dispatch_function = Some Fn_StaticHandleLicensing, checkCompletionExists = 0,
      checkScalarInputCount = 1, checkStructureInputSize = 0,
      checkScalarOutputCount = 1, checkStructureOutputSize = 0\<rparr>"

lemma licensing_entry [simp]: "externalMethodChecks ! Suc 0 = licensing_dispatch"
  by (simp add: externalMethodChecks_def kNumberOfExternalMethods_def ExternalMethodType_Licensing_def
      licensing_dispatch_def)

lemma accepts_licensing [simp]:
  "accepts licensing_dispatch a \<longleftrightarrow> completion a = None \<and> (\<exists>x. scalarInput a = [x]) \<and>
     structureInputSize a = 0 \<and> (\<exists>y. scalarOutput a = [y]) \<and> structureOutputSize a = 0"
  by (auto simp: accepts_def licensing_dispatch_def any_value_def length_Suc_conv eq_commute [of "Suc 0"])

lemma external_selectors:
  "length externalMethodChecks = 2" "unat kNumberOfExternalMethods = 2"
  "(0 < selector \<and> selector < kNumberOfExternalMethods) \<longleftrightarrow> selector = ExternalMethodType_Licensing"
proof -
  have "0 < selector \<and> selector < 2 \<longleftrightarrow> selector = 1" by unat_arith
  then show "(0 < selector \<and> selector < kNumberOfExternalMethods) \<longleftrightarrow>
      selector = ExternalMethodType_Licensing"
    by (simp add: kNumberOfExternalMethods_def ExternalMethodType_Licensing_def)
qed (simp_all add: externalMethodChecks_def kNumberOfExternalMethods_def)

text \<open>A licensing request, as an application makes it.\<close>
definition licence_arguments :: "u64 \<Rightarrow> IOUserClientMethodArguments" where
  "licence_arguments x = \<lparr>completion = None, scalarInput = [x], structureInputSize = 0,
     scalarOutput = [0], structureOutputSize = 0\<rparr>"

lemma wp_HandleLicensing:
  assumes "client_ivars s = Some w" "scalarInput (arguments s) = [x]" "scalarOutput (arguments s) = [y]"
    "inputInterface w = Some r" "ivars s = Some v"
  shows "wp HandleLicensing Q s =
    Q kIOReturnSuccess (s\<lparr>ivars := Some (v\<lparr>enabled := x \<noteq> 0\<rparr>),
      arguments := (arguments s)\<lparr>scalarOutput := [of_bool (x \<noteq> 0)]\<rparr>\<rparr>)"
  using assms by (cases s) (simp add: HandleLicensing_def wp_simps SetEnable_def set_output_def Let_def)

lemma wp_dispatch:
  assumes "dispatch_law m" "dispatch_function d = Some f"
  shows "wp (m k (Some d) t) Q s =
    (if accepts d (arguments s) then wp (run_function f t) Q s else Q kIOReturnBadArgument s)"
  using assms by (simp add: dispatch_law_def wp_def)

text \<open>The licensing selector ends in the handler if the arguments are as the table says.\<close>
lemma wp_licensing:
  assumes "dispatch_law m"
  shows "wp (ExternalMethod m this ExternalMethodType_Licensing d target) Q s =
    (if accepts licensing_dispatch (arguments s) then wp HandleLicensing Q s
     else Q kIOReturnBadArgument s)"
proof -
  have "dispatch_function licensing_dispatch = Some Fn_StaticHandleLicensing"
    by (simp add: licensing_dispatch_def)
  from wp_dispatch [OF assms this] show ?thesis
    by (simp add: ExternalMethod_def ExternalMethodType_Licensing_def ExternalMethodType_Unknown_def
        kNumberOfExternalMethods_def run_function_def StaticHandleLicensing_def del: accepts_licensing
        split: option.split)
qed

subsection \<open>Connecting and disconnecting\<close>

text \<open>What is known after a request for a client, of the state before and after it.\<close>
definition connects ::
    "'a client_api_scheme \<Rightarrow> ref \<Rightarrow> client_state \<Rightarrow> kern_return \<Rightarrow> ref ptr \<Rightarrow> client_state \<Rightarrow> bool" where
  "connects U this s ret client s' \<longleftrightarrow>
     ivars s' = ivars s \<and> ub s' = ub s \<and>
     (if ret = kIOReturnSuccess
      then (\<exists>c. client = Some c \<and> is_XboxOneUserClient U c \<and>
        client_ivars s' = Some \<lparr>inputInterface = Some this\<rparr> \<and>
        (\<exists>new. calls s' = calls s @ new \<and> aside (\<lambda>r. of_bool (r = c)) 1 new))
      else client_ivars s' = None \<and> (\<exists>new. calls s' = calls s @ new \<and> aside (\<lambda>r. 0) 0 new))"

lemma NewUserClient_connects:
  assumes create: "create_law U create" and s: "client_ivars s = None" "is_XboxOneInputInterface U this"
  shows "wp (NewUserClient U create this old) (\<lambda>(ret, client) s'. connects U this s ret client s') s"
proof -
  obtain ret c t where run: "run_state (create ''UserClientProperties'') s = ((ret, c), t)"
    by (metis prod.collapse)
  from create [unfolded create_law_def, rule_format, OF s(1) run] obtain new where
    t: "ivars t = ivars s" "ub t = ub s" "ret = kIOReturnSuccess \<longrightarrow> c \<noteq> None"
      "client_ivars t \<noteq> None \<longleftrightarrow> ret = kIOReturnSuccess \<and> OSDynamicCast (is_XboxOneUserClient U) c \<noteq> None"
      "calls t = calls s @ new"
      "aside (\<lambda>r. int (count_list (success_refs (ret, c)) r)) (of_bool (client_ivars t \<noteq> None)) new"
    by blast
  consider "ret \<noteq> kIOReturnSuccess" | r where "ret = kIOReturnSuccess" "c = Some r" "\<not> is_XboxOneUserClient U r"
    | r w where "ret = kIOReturnSuccess" "c = Some r" "is_XboxOneUserClient U r" "client_ivars t = Some w"
    using t(3,4) by (cases c; cases "client_ivars t"; fastforce split: if_splits)
  then show ?thesis
  proof cases
    case 1
    with t run show ?thesis
      by (auto simp: NewUserClient_def wp_def connects_def success_refs_def)
  next
    case (2 r)
    with t have "calls t @ [release r] = calls s @ (new @ [release r])"
      "aside (\<lambda>x. 0) 0 (new @ [release r])"
      by (auto simp: aside_def success_refs_def actions_of_def acquired_def given_back_def)
    with 2 t run show ?thesis
      by (auto simp: NewUserClient_def wp_def connects_def)
  next
    case (3 r w)
    have "aside (\<lambda>x. of_bool (x = r)) 1 new"
      using t(6) 3 by (auto simp: aside_def success_refs_def)
    with 3 t(1,2,5) run s(2) show ?thesis
      by (auto simp: NewUserClient_def SetInputInterface_def wp_def set_member_def connects_def)
  qed
qed

text \<open>The end of a client, as the system brings it about.\<close>
definition client_end :: "'a client_api_scheme \<Rightarrow> ref ptr \<Rightarrow> (client_state, unit) state" where
  "client_end U provider = do {
     _ \<leftarrow> XboxOneUserClient_Stop U provider;
     XboxOneUserClient_free
   }"

text \<open>The stored variables of the client are deleted, the driver is left alone.\<close>
lemma client_leaves:
  assumes "client_ivars s \<noteq> None"
  shows "wp (client_end U provider) (\<lambda>_ s'.
      client_ivars s' = None \<and> ivars s' = ivars s \<and> ub s' = ub s \<and>
      (\<exists>new. calls s' = calls s @ new \<and> aside (\<lambda>r. 0) (- 1) new)) s"
  using assms
  by (simp add: client_end_def XboxOneUserClient_Stop_def XboxOneUserClient_free_def wp_simps aside_def actions_of_def
      acquired_def given_back_def)

end
