(* ===== verification/Traffic_Frame.thy ===== *)
theory Traffic_Frame
  imports Input_Shutdown User_Client
begin

text \<open>
  What the traffic of the running driver leaves alone: the references the driver holds, the account
  of them and the allocation of the stored variables (\<open>held\<close>).  Every operation between the
  start and \<^verbatim>\<open>Stop\<close> keeps it, by the rules for properties of the calls.
\<close>

definition held :: "(ref \<Rightarrow> int) \<Rightarrow> int \<Rightarrow> ref ptr \<Rightarrow> ref ptr \<Rightarrow> 'z input_state_scheme \<Rightarrow> bool" where
  "held base allocated i a s \<longleftrightarrow> ivars_live (calls s) = allocated \<and>
     (\<exists>v. accounted base s v \<and> interface v = i \<and> gotDataAction v = a)"

text \<open>A call that acquires and gives back nothing.\<close>
definition neutral :: "call \<Rightarrow> bool" where
  "neutral c \<longleftrightarrow> acquired c = [] \<and> given_back c = [] \<and> c \<noteq> IONewZero True \<and> c \<noteq> IODelete"

lemma neutral_simps [simp]:
  "neutral (handleReport t bs n ret)" "neutral (Pipe_IO p bs k r)" "neutral (Pipe_AsyncIO p b k a ret)"
  by (simp_all add: neutral_def owner_simps)

lemma keeps_held_invoke [keeps_intros]:
  "(\<And>h. neutral (c (f h))) \<Longrightarrow> keeps (held b n i a) (invoke c f)"
  by (auto simp: keeps_def wp_invoke held_def accounted_def neutral_def)

lemma keeps_held_deref [keeps_intros]: "keeps (held b n i a) (deref d p)"
  by (auto simp: keeps_def wp_deref held_def accounted_def split: option.split)

lemma keeps_held_ub_unless [keeps_intros]: "keeps (held b n i a) (ub_unless c u)"
  by (auto simp: keeps_def wp_ub_unless held_def accounted_def)

lemma keeps_held_iv [keeps_intros]: "keeps (held b n i a) (iv d f)"
  by (auto simp: keeps_def iv_def member_def wp_simps wp_deref held_def accounted_def split: option.split)

lemma keeps_held_set_iv [keeps_intros]:
  assumes "\<And>v. stored (f v) = stored v \<and> interface (f v) = interface v \<and> gotDataAction (f v) = gotDataAction v"
  shows "keeps (held b n i a) (set_iv f)"
  using assms by (auto simp: keeps_def set_iv_def wp_simps held_def accounted_def)

lemma keeps_held_read_byte [keeps_intros]: "keeps (held b n i a) (read_byte p k)"
  unfolding read_byte_def by (intro keeps_intros)

lemma keeps_held_read_bytes:
  "keeps (held b n i a) (State_Monad.traverse_list (read_byte p) is)"
  by (induction "is") (auto intro!: keeps_intros)

lemma keeps_held_Send [keeps_intros]: "keeps (held b n i a) (SendInterruptData C data sz)"
  unfolding SendInterruptData_def
  by (intro keeps_intros) (simp_all add: stored_def pipe_refs_def set_out_memory_def)

lemma keeps_held_GotData: "keeps (held b n i a) (GotData C status k t)"
  unfolding GotData_def HandleControllerReport_def HandleGuideReport_def HandleReportGeneric_def
    DebugPrintButtonPacket_def RequestAsyncInterruptData_def
  by (intro keeps_intros keeps_held_read_bytes) simp_all

lemma held_switch:
  assumes "held b n i a s" "ivars s = Some v" "calls s' = calls s" "ivars s' = Some (v\<lparr>enabled := x\<rparr>)"
  shows "held b n i a s'"
  using assms by (auto simp: held_def accounted_def stored_def)

end
