(* ===== verification/Transition_Systems.thy ===== *)
theory Transition_Systems
  imports Main
begin

text \<open>
  Labelled transition systems: runs with the list of their events, reachable states, the invariant
  rule (locale \<open>invariant_system\<close>) and refinement of an abstract machine that answers each
  event with a list of outputs (locale \<open>refinement\<close>).  The two locales are interpreted on
  the whole-life system of the driver.
\<close>

inductive steps :: "('s \<Rightarrow> 'e \<Rightarrow> 's \<Rightarrow> bool) \<Rightarrow> 's \<Rightarrow> 'e list \<Rightarrow> 's \<Rightarrow> bool"
  for step :: "'s \<Rightarrow> 'e \<Rightarrow> 's \<Rightarrow> bool" where
  steps_Nil: "steps step s [] s"
| steps_snoc: "steps step s es t \<Longrightarrow> step t e u \<Longrightarrow> steps step s (es @ [e]) u"

inductive reachable :: "('s \<Rightarrow> bool) \<Rightarrow> ('s \<Rightarrow> 'e \<Rightarrow> 's \<Rightarrow> bool) \<Rightarrow> 's \<Rightarrow> bool"
  for start :: "'s \<Rightarrow> bool" and step :: "'s \<Rightarrow> 'e \<Rightarrow> 's \<Rightarrow> bool" where
  reachable_start: "start s \<Longrightarrow> reachable start step s"
| reachable_step: "reachable start step s \<Longrightarrow> step s e t \<Longrightarrow> reachable start step t"

text \<open>
  The outputs and the last state of an abstract machine, given as a function, on a list of events;
  \<open>choices\<close> are its free choices, one for each event.
\<close>
fun machine :: "('c \<Rightarrow> 'e \<Rightarrow> 'a \<Rightarrow> 'o list \<times> 'a) \<Rightarrow> ('c \<times> 'e) list \<Rightarrow> 'a \<Rightarrow> 'o list \<times> 'a" where
  "machine f [] a = ([], a)"
| "machine f ((c, e) # es) a =
     (let (os, b) = f c e a; (os', d) = machine f es b in (os @ os', d))"

subsection \<open>Runs\<close>

lemma steps_single: "step s e t \<Longrightarrow> steps step s [e] t"
  using steps_snoc [OF steps_Nil, of step s e t] by simp

lemma steps_append:
  assumes "steps step s es t" "steps step t fs u"
  shows "steps step s (es @ fs) u"
  using assms(2,1)
proof (induction rule: steps.induct)
  case (steps_snoc t fs u f w)
  then have "steps step s ((es @ fs) @ [f]) w" by (blast intro: steps.steps_snoc)
  then show ?case by simp
qed simp

lemma steps_Cons: "step s e t \<Longrightarrow> steps step t es u \<Longrightarrow> steps step s (e # es) u"
  using steps_append [OF steps_single, of step s e t es u] by simp

lemma reachable_steps:
  "steps step s es t \<Longrightarrow> reachable start step s \<Longrightarrow> reachable start step t"
  by (induction rule: steps.induct) (auto intro: reachable_step)

lemma reachable_iff_steps: "reachable start step t \<longleftrightarrow> (\<exists>s es. start s \<and> steps step s es t)"
proof
  show "\<exists>s es. start s \<and> steps step s es t" if "reachable start step t"
    using that by (induction rule: reachable.induct) (blast intro: steps.intros)+
qed (blast intro: reachable_steps reachable_start)

lemma steps_mono:
  "steps step s es t \<Longrightarrow> (\<And>s e t. step s e t \<Longrightarrow> step' s e t) \<Longrightarrow> steps step' s es t"
  by (induction rule: steps.induct) (auto intro: steps.intros)

lemma reachable_mono:
  assumes "reachable start step s" "\<And>s. start s \<Longrightarrow> start' s" "\<And>s e t. step s e t \<Longrightarrow> step' s e t"
  shows "reachable start' step' s"
  using assms by (induction rule: reachable.induct) (blast intro: reachable.intros)+

lemma machine_append:
  "machine f (es @ fs) a =
     (let (os, b) = machine f es a; (os', d) = machine f fs b in (os @ os', d))"
  by (induction f es a rule: machine.induct) (auto split: prod.splits)

subsection \<open>Invariants and refinement\<close>

locale invariant_system =
  fixes start :: "'s \<Rightarrow> bool"
    and step :: "'s \<Rightarrow> 'e \<Rightarrow> 's \<Rightarrow> bool"
    and inv :: "'s \<Rightarrow> bool"
  assumes inv_start: "start s \<Longrightarrow> inv s"
    and inv_step: "inv s \<Longrightarrow> step s e t \<Longrightarrow> inv t"
begin

lemma inv_steps: "steps step s es t \<Longrightarrow> inv s \<Longrightarrow> inv t"
  by (induction rule: steps.induct) (auto intro: inv_step)

lemma inv_reachable: "reachable start step s \<Longrightarrow> inv s"
  by (induction rule: reachable.induct) (auto intro: inv_start inv_step)

end

text \<open>
  An invariant system whose every step is one of the machine, for some choice, with the outputs of
  the step appended to what can be seen of the state.
\<close>
locale refinement = invariant_system start step inv
  for start :: "'s \<Rightarrow> bool" and step :: "'s \<Rightarrow> 'e \<Rightarrow> 's \<Rightarrow> bool" and inv :: "'s \<Rightarrow> bool" +
  fixes spec :: "'c \<Rightarrow> 'e \<Rightarrow> 'a \<Rightarrow> 'o list \<times> 'a"
    and rel :: "'s \<Rightarrow> 'a \<Rightarrow> bool"
    and seen :: "'s \<Rightarrow> 'o list"
  assumes simulates: "inv s \<Longrightarrow> step s e t \<Longrightarrow> rel s a \<Longrightarrow>
    \<exists>c os b. spec c e a = (os, b) \<and> seen t = seen s @ os \<and> rel t b"
begin

lemma runs_refine:
  assumes "steps step s es t" "inv s" "rel s a"
  shows "\<exists>cs os b. length cs = length es \<and> machine spec (zip cs es) a = (os, b) \<and>
    seen t = seen s @ os \<and> rel t b"
  using assms
proof (induction rule: steps.induct)
  case (steps_Nil s)
  then show ?case by (intro exI [of _ "[]"]) simp
next
  case (steps_snoc s es t e u)
  then obtain cs os b where cs: "length cs = length es" "machine spec (zip cs es) a = (os, b)"
    "seen t = seen s @ os" "rel t b" by blast
  have "inv t" by (rule inv_steps [OF steps_snoc.hyps(1) steps_snoc.prems(1)])
  from simulates [OF this steps_snoc.hyps(2) cs(4)] obtain c os' d where
    "spec c e b = (os', d)" "seen u = seen t @ os'" "rel u d" by blast
  with cs show ?case
    by (intro exI [of _ "cs @ [c]"]) (simp add: machine_append)
qed

end

end
