(* ===== verification/Driver_System.thy ===== *)
theory Driver_System
  imports Traffic_Frame Transition_Systems
begin

text \<open>
  The input interface driver over its whole life, as a labelled transition system.  It starts with
  \<^verbatim>\<open>init\<close> and a successful \<^verbatim>\<open>Start\<close>, in which the base class calls
  \<^verbatim>\<open>handleStart\<close>.  Then, in any order: the device completes a read (the transfer fills
  the IN buffer and the callback \<^verbatim>\<open>GotData\<close> runs), applications connect, call and leave,
  the system stops the driver, the cancellation completes, the last reference goes away and
  \<^verbatim>\<open>free\<close> runs.  There can be several user clients; each has its own stored variables, and
  all of them refer to the one driver.  A step is a whole handler: the driver's handlers run on one
  dispatch queue.
\<close>

subsection \<open>The surroundings of the driver\<close>

record environment =
  env_startup :: startup_api
  env_comm :: comm_api
  env_client :: client_api
  env_Start :: "ref ptr \<Rightarrow> (client_state, kern_return) state"
  env_ExternalMethod :: external_method
  env_Create :: create_client
  this_ref :: ref
  provider_ref :: ref

text \<open>
  The base class's \<^verbatim>\<open>Start\<close> succeeds only if \<^verbatim>\<open>handleStart\<close> did, which it
  calls once.  What else it makes the driver do (it asks for the descriptions) has nothing to do with
  the controller, and what is taken for it is given back.
\<close>
definition base_start_law ::
    "'a startup_api_scheme \<Rightarrow> comm_api \<Rightarrow> (ref ptr \<Rightarrow> (client_state, kern_return) state) \<Rightarrow> bool" where
  "base_start_law A C start \<longleftrightarrow> (\<forall>p s s'. run_state (start p) s = (kIOReturnSuccess, s') \<longrightarrow>
     (\<exists>before after t. aside (\<lambda>r. 0) 0 before \<and> aside (\<lambda>r. 0) 0 after \<and>
        run_state (handleStart A C p) (s\<lparr>calls := calls s @ before\<rparr>) = (Some True, t) \<and>
        s' = t\<lparr>calls := calls t @ after\<rparr>))"

definition well_behaved :: "environment \<Rightarrow> bool" where
  "well_behaved E \<longleftrightarrow>
     documented (env_startup E) \<and> finite_endpoints (env_startup E) \<and>
     base_start_law (env_startup E) (env_comm E) (env_Start E) \<and>
     dispatch_law (env_ExternalMethod E) \<and> create_law (env_client E) (env_Create E) \<and>
     is_IOUSBHostInterface (env_startup E) (provider_ref E) \<and>
     is_XboxOneInputInterface (env_client E) (this_ref E)"

subsection \<open>States and events\<close>

datatype phase = Running | Stopping | Stopped | Freed

text \<open>
  The state of the driver, the reads it has asked for that are not completed, and the stored
  variables of the clients that are connected; \<open>handed_out\<close> are all clients ever connected.
\<close>
record system =
  drv :: client_state
  reads :: nat
  phase :: phase
  clients :: "ref \<Rightarrow> XboxOneUserClient_IVars ptr"
  handed_out :: "ref list"

datatype event =
    Read_done "u8 list" kern_return u32 u64
  | Connect
  | External_call ref u64 IOUserClientMethodArguments
  | Disconnect ref
  | Stop_driver
  | Cancelled
  | Last_release

text \<open>The reads a list of calls has started.\<close>
definition read_started :: "call \<Rightarrow> bool" where
  "read_started c = (case c of Pipe_AsyncIO p b n a ret \<Rightarrow> ret = kIOReturnSuccess | _ \<Rightarrow> False)"

definition reads_started :: "call list \<Rightarrow> nat" where
  "reads_started cs = length (filter read_started cs)"

text \<open>A transfer replaces the contents of the IN buffer.\<close>
definition transfer :: "u8 list \<Rightarrow> XboxOneInputInterface_IVars \<Rightarrow> XboxOneInputInterface_IVars" where
  "transfer mem v = v\<lparr>inPipe := inPipe v\<lparr>memory := memory (inPipe v)\<lparr>address := Some mem\<rparr>\<rparr>\<rparr>"

text \<open>The bytes of a packet that the build reads.\<close>
definition bytes_read :: "comm_api \<Rightarrow> nat" where
  "bytes_read C = (if DEBUG C then 18 else 4)"

inductive system_start :: "environment \<Rightarrow> system \<Rightarrow> bool" for E :: environment where
  started_up: "calls s = [] \<Longrightarrow> ub s = [] \<Longrightarrow> ivars s = None \<Longrightarrow>
     run_state (XboxOneInputInterface_init (env_startup E)) s = (True, s1) \<Longrightarrow>
     run_state (XboxOneInputInterface_Start (env_startup E) (env_Start E) (Some (provider_ref E))) s1 =
       (kIOReturnSuccess, s2) \<Longrightarrow>
     ivars s2 = Some v \<Longrightarrow> bytes_read (env_comm E) \<le> length (in_memory v) \<Longrightarrow>
     system_start E \<lparr>drv = s2, reads = reads_started (calls s2), phase = Running,
       clients = (\<lambda>c. None), handed_out = []\<rparr>"

inductive system_step :: "environment \<Rightarrow> system \<Rightarrow> event \<Rightarrow> system \<Rightarrow> bool" for E :: environment where
  read_done: "phase \<sigma> = Running \<Longrightarrow> 0 < reads \<sigma> \<Longrightarrow> ivars (drv \<sigma>) = Some v \<Longrightarrow>
     length mem = length (in_memory v) \<Longrightarrow>
     run_state (GotData (env_comm E) status n t) ((drv \<sigma>)\<lparr>ivars := Some (transfer mem v)\<rparr>) = ((), s') \<Longrightarrow>
     system_step E \<sigma> (Read_done mem status n t) (\<sigma>\<lparr>drv := s',
       reads := reads \<sigma> - 1 + (reads_started (calls s') - reads_started (calls (drv \<sigma>)))\<rparr>)"
| connected: "phase \<sigma> = Running \<Longrightarrow>
     run_state (NewUserClient (env_client E) (env_Create E) (this_ref E) None)
       ((drv \<sigma>)\<lparr>client_ivars := None\<rparr>) = ((kIOReturnSuccess, Some c), s') \<Longrightarrow> clients \<sigma> c = None \<Longrightarrow>
     system_step E \<sigma> Connect (\<sigma>\<lparr>drv := s', clients := (clients \<sigma>)(c := client_ivars s'),
       handed_out := c # handed_out \<sigma>\<rparr>)"
| not_connected: "phase \<sigma> = Running \<Longrightarrow>
     run_state (NewUserClient (env_client E) (env_Create E) (this_ref E) None)
       ((drv \<sigma>)\<lparr>client_ivars := None\<rparr>) = ((ret, u), s') \<Longrightarrow> ret \<noteq> kIOReturnSuccess \<Longrightarrow>
     system_step E \<sigma> Connect (\<sigma>\<lparr>drv := s'\<rparr>)"
| external_call: "clients \<sigma> c = Some w \<Longrightarrow> selector < kNumberOfExternalMethods \<Longrightarrow>
     run_state (ExternalMethod (env_ExternalMethod E) c selector d target)
       ((drv \<sigma>)\<lparr>client_ivars := Some w, arguments := a\<rparr>) = (ret, s') \<Longrightarrow>
     system_step E \<sigma> (External_call c selector a)
       (\<sigma>\<lparr>drv := s', clients := (clients \<sigma>)(c := client_ivars s')\<rparr>)"
| disconnected: "clients \<sigma> c = Some w \<Longrightarrow>
     run_state (client_end (env_client E) (Some (this_ref E)))
       ((drv \<sigma>)\<lparr>client_ivars := Some w\<rparr>) = ((), s') \<Longrightarrow>
     system_step E \<sigma> (Disconnect c) (\<sigma>\<lparr>drv := s', clients := (clients \<sigma>)(c := client_ivars s')\<rparr>)"
| stop_driver: "phase \<sigma> = Running \<Longrightarrow> ivars (drv \<sigma>) = Some v \<Longrightarrow>
     run_state (XboxOneInputInterface_Stop (env_startup E) (this_ref E) (Some (provider_ref E))) (drv \<sigma>) =
       (ret, s') \<Longrightarrow>
     system_step E \<sigma> Stop_driver
       (\<sigma>\<lparr>drv := s', phase := (if gotDataAction v = None then Stopped else Stopping), reads := 0\<rparr>)"
| cancelled: "phase \<sigma> = Stopping \<Longrightarrow>
     run_state (Stop_finalize (env_startup E) (this_ref E) (Some (provider_ref E))) (drv \<sigma>) = ((), s') \<Longrightarrow>
     system_step E \<sigma> Cancelled (\<sigma>\<lparr>drv := s', phase := Stopped\<rparr>)"
| last_release: "phase \<sigma> = Stopped \<Longrightarrow> clients \<sigma> = (\<lambda>c. None) \<Longrightarrow>
     run_state XboxOneInputInterface_free (drv \<sigma>) = ((), s') \<Longrightarrow>
     system_step E \<sigma> Last_release (\<sigma>\<lparr>drv := s', phase := Freed\<rparr>)"

inductive_cases system_stepE: "system_step E \<sigma> e \<tau>"

text \<open>
  The invariant: while the driver lives its stored variables are there and ready for traffic, with
  the callback object; a read is outstanding only while it runs; every client refers to the driver;
  the packets sent are numbered; no undefined behaviour has occurred.
\<close>
definition system_inv :: "environment \<Rightarrow> system \<Rightarrow> bool" where
  "system_inv E \<sigma> \<longleftrightarrow> ub (drv \<sigma>) = [] \<and> reads \<sigma> \<le> of_bool (phase \<sigma> = Running) \<and>
     (\<forall>c w. clients \<sigma> c = Some w \<longrightarrow> inputInterface w = Some (this_ref E) \<and> c \<in> set (handed_out \<sigma>)) \<and>
     (if phase \<sigma> = Freed
      then ivars (drv \<sigma>) = None \<and> clients \<sigma> = (\<lambda>c. None) \<and> (\<exists>n. numbered n (packets_sent (calls (drv \<sigma>))))
      else \<exists>v. ivars (drv \<sigma>) = Some v \<and> comm_ready (env_comm E) v \<and> gotDataAction v \<noteq> None \<and>
        numbered (outCounter v) (packets_sent (calls (drv \<sigma>))))"

subsection \<open>The start\<close>

text \<open>Every action without a result has one run.\<close>
lemma run_unit: obtains s' where "run_state m s = ((), s')"
  by (cases "run_state m s") simp

lemma reads_started_append [simp]: "reads_started (xs @ ys) = reads_started xs + reads_started ys"
  by (simp add: reads_started_def)

lemma reads_started_le: "reads_started cs \<le> count_list (actions cs) Listen"
proof (induction cs)
  case (Cons c cs)
  then show ?case
    by (cases c) (auto simp: reads_started_def read_started_def actions_of_def)
qed (simp add: reads_started_def)

lemma aside_no_reads: "aside f k cs \<Longrightarrow> reads_started cs = 0"
  using reads_started_le [of cs] by (simp add: aside_def)

lemma aside_no_packets: "aside f k cs \<Longrightarrow> packets_sent cs = []"
  by (simp add: aside_def packets_sent_def)

lemma start_numbered: "numbered (0 + (if 5 \<le> k then 2 else 0)) (transmitted (start_actions 0 k))"
proof -
  have "numbered (0 + 1) ([] @ [wire_packet 0 INIT_PACKET 5])"
    by (rule numbered_snoc [OF numbered_Nil]) (simp_all add: wire_packet_def)
  then have "numbered (0 + 1 + 1) ([wire_packet 0 INIT_PACKET 5] @ [wire_packet 1 SWAP_TO_WIRED_PACKET 5])"
    by (intro numbered_snoc) (simp_all add: wire_packet_def)
  then show ?thesis
    by (simp add: start_actions_def numbered_Nil)
qed

lemma started_comm_ready:
  assumes "started v" "bytes_read C \<le> length (in_memory v)"
  shows "comm_ready C v"
  using assms by (simp add: started_def comm_ready_def pipe_set_up_def bytes_read_def)

text \<open>The calls before \<^verbatim>\<open>handleStart\<close>, and the stored variables it finds.\<close>
definition opened_ivars :: "environment \<Rightarrow> XboxOneInputInterface_IVars" where
  "opened_ivars E = zeroed_ivars\<lparr>enabled := True, interface := Some (provider_ref E)\<rparr>"

lemma start_runs_handleStart:
  assumes E: "well_behaved E" and s: "calls s = []" "ub s = []" "ivars s = None"
    and init: "run_state (XboxOneInputInterface_init (env_startup E)) s = (True, s1)"
    and start: "run_state (XboxOneInputInterface_Start (env_startup E) (env_Start E) (Some (provider_ref E))) s1 =
       (kIOReturnSuccess, s2)"
  obtains u after t where
    "run_state (handleStart (env_startup E) (env_comm E) (Some (provider_ref E))) u = (Some True, t)"
    "ivars u = Some (opened_ivars E)" "ub u = []" "aside (\<lambda>r. 0) 1 (calls u)" "aside (\<lambda>r. 0) 0 after"
    "s2 = t\<lparr>calls := calls t @ after\<rparr>"
proof -
  let ?A = "env_startup E" and ?i = "provider_ref E"
  have s1: "ivars s1 = Some (zeroed_ivars\<lparr>enabled := True\<rparr>)" "ub s1 = []"
    "calls s1 = [super_init True, IONewZero True]"
    using init s by (auto simp: XboxOneInputInterface_init_def set_iv_def set_member_def split: if_splits)
  define u where "u = s1\<lparr>ivars := Some (opened_ivars E),
    calls := calls s1 @ [Interface_Open ?i kIOReturnSuccess]\<rparr>"
  have i: "is_IOUSBHostInterface ?A ?i" and base: "base_start_law ?A (env_comm E) (env_Start E)"
    using E by (simp_all add: well_behaved_def)
  have "run_state (env_Start E (Some ?i)) u = (kIOReturnSuccess, s2)"
    using start s1(1) i
    by (cases s1) (auto simp: XboxOneInputInterface_Start_def set_iv_def set_member_def iv_def member_def
        u_def opened_ivars_def split: if_splits)
  with base obtain before after t where
    t: "aside (\<lambda>r. 0) 0 before" "aside (\<lambda>r. 0) 0 after" "s2 = t\<lparr>calls := calls t @ after\<rparr>"
      "run_state (handleStart ?A (env_comm E) (Some ?i)) (u\<lparr>calls := calls u @ before\<rparr>) = (Some True, t)"
    unfolding base_start_law_def by blast
  moreover have "aside (\<lambda>r. 0) 1 (calls (u\<lparr>calls := calls u @ before\<rparr>))"
    using t(1) by (simp add: aside_def u_def s1 actions_of_def owner_simps)
  ultimately show thesis
    using s1(2) by (intro that [OF t(4)]) (simp_all add: u_def)
qed

lemma started_state:
  assumes E: "well_behaved E" and start: "system_start E \<sigma>"
  obtains v where "ivars (drv \<sigma>) = Some v" "started v" "enabled v" "comm_ready (env_comm E) v"
    "ub (drv \<sigma>) = []" "actions (calls (drv \<sigma>)) = start_actions 0 (out_capacity v)"
    "outCounter v = 0 + (if 5 \<le> out_capacity v then 2 else 0)"
    "phase \<sigma> = Running" "reads \<sigma> = reads_started (calls (drv \<sigma>))" "clients \<sigma> = (\<lambda>c. None)" "handed_out \<sigma> = []"
  using start
proof (cases rule: system_start.cases)
  case (started_up s s1 s2 v)
  obtain u after t where u:
    "run_state (handleStart (env_startup E) (env_comm E) (Some (provider_ref E))) u = (Some True, t)"
    "ivars u = Some (opened_ivars E)" "ub u = []" "aside (\<lambda>r. 0) 1 (calls u)" "aside (\<lambda>r. 0) 0 after"
    "s2 = t\<lparr>calls := calls t @ after\<rparr>"
    by (rule start_runs_handleStart [OF E started_up(2-6)])
  have A: "documented (env_startup E)" "finite_endpoints (env_startup E)" "interface (opened_ivars E) = Some (provider_ref E)"
    using E by (simp_all add: well_behaved_def opened_ivars_def)
  from wp_run [OF handleStart_wp [OF A(1,2) u(2) A(3)] u(1)]
  have "start_post u (opened_ivars E) True t" by simp
  with started_up(1,7) u have v: "started v" "enabled v" "ub s2 = []"
    "actions (calls s2) = start_actions 0 (out_capacity v)"
    "outCounter v = 0 + (if 5 \<le> out_capacity v then 2 else 0)"
    by (auto simp: start_post_def after_start_def aside_def opened_ivars_def zeroed_ivars_def)
  show thesis
    by (rule that [of v]) (use v started_up started_comm_ready [OF v(1)] in simp_all)
qed

lemma system_inv_start:
  assumes "well_behaved E" "system_start E \<sigma>"
  shows "system_inv E \<sigma>"
proof -
  from started_state [OF assms] obtain v where
    v: "ivars (drv \<sigma>) = Some v" "started v" "comm_ready (env_comm E) v" "ub (drv \<sigma>) = []"
      "actions (calls (drv \<sigma>)) = start_actions 0 (out_capacity v)"
      "outCounter v = 0 + (if 5 \<le> out_capacity v then 2 else 0)"
      "phase \<sigma> = Running" "reads \<sigma> = reads_started (calls (drv \<sigma>))" "clients \<sigma> = (\<lambda>c. None)"
    by metis
  have "reads \<sigma> \<le> 1"
    using reads_started_le [of "calls (drv \<sigma>)"] by (simp add: v start_actions_def)
  moreover have "numbered (outCounter v) (packets_sent (calls (drv \<sigma>)))"
    unfolding packets_sent_def v(5,6) by (rule start_numbered)
  ultimately show ?thesis
    using v by (simp add: system_inv_def started_def)
qed

subsection \<open>Reads\<close>

lemma spec_one_listen:
  "spec_got_data \<sigma> ok mem n acc = (as, \<sigma>') \<Longrightarrow> count_list as Listen = 1"
  by (auto simp: spec_got_data_def split: if_splits packet_class.splits)

lemma comm_ready_transfer:
  assumes "comm_ready C v" "length mem = length (in_memory v)"
  shows "comm_ready C (transfer mem v)" "in_memory (transfer mem v) = mem"
    "spec_of (transfer mem v) = spec_of v" "outCounter (transfer mem v) = outCounter v"
  using assms
  by (auto simp: comm_ready_def transfer_def in_memory_def pipe_ready_def mapped_def spec_of_def
      out_capacity_def split: option.splits)

lemma transfer_refs [simp]:
  "stored (transfer mem v) = stored v" "interface (transfer mem v) = interface v"
  "gotDataAction (transfer mem v) = gotDataAction v"
  by (simp_all add: transfer_def stored_def pipe_refs_def)

lemma GotData_keeps_action:
  assumes "ivars s = Some v"
  shows "wp (GotData C status n t) (\<lambda>_ s'. \<exists>v'. ivars s' = Some v' \<and> gotDataAction v' = gotDataAction v) s"
proof -
  have "held (\<lambda>r. balance r (calls s) - int (count_list (stored v) r)) (ivars_live (calls s)) (interface v)
    (gotDataAction v) s"
    using assms by (simp add: held_def accounted_def)
  from keeps_held_GotData [unfolded keeps_def, rule_format, OF this] show ?thesis
    by (rule wp_mono) (auto simp: held_def accounted_def)
qed

text \<open>A completed read, by the specification of the callback.\<close>
lemma read_refines:
  assumes inv: "system_inv E \<sigma>" and v: "ivars (drv \<sigma>) = Some v" and live: "phase \<sigma> \<noteq> Freed"
    and mem: "length mem = length (in_memory v)"
    and run: "run_state (GotData (env_comm E) status n t) ((drv \<sigma>)\<lparr>ivars := Some (transfer mem v)\<rparr>) = ((), s')"
  obtains new w ok where "calls s' = calls (drv \<sigma>) @ new" "ivars s' = Some w" "ub s' = []"
    "comm_ready (env_comm E) w" "gotDataAction w \<noteq> None"
    "spec_got_data (spec_of v) (status = kIOReturnSuccess) mem n ok = (actions new, spec_of w)"
proof -
  let ?s = "(drv \<sigma>)\<lparr>ivars := Some (transfer mem v)\<rparr>"
  from inv v live have v': "comm_ready (env_comm E) v" "gotDataAction v \<noteq> None" "ub (drv \<sigma>) = []"
    by (auto simp: system_inv_def)
  note tr = comm_ready_transfer [OF v'(1) mem]
  have s: "ivars ?s = Some (transfer mem v)" by simp
  from wp_run [OF GotData_keeps_action [OF s] run] v'(2)
  have "\<exists>w. ivars s' = Some w \<and> gotDataAction w \<noteq> None" by auto
  with wp_run [OF GotData_refines [OF s tr(1) refl] run] show thesis
    by (auto simp: tr v'(3) intro: that)
qed

lemma system_inv_read:
  assumes inv: "system_inv E \<sigma>" and v: "ivars (drv \<sigma>) = Some v" and r: "phase \<sigma> = Running" "0 < reads \<sigma>"
    and mem: "length mem = length (in_memory v)"
    and run: "run_state (GotData (env_comm E) status n t) ((drv \<sigma>)\<lparr>ivars := Some (transfer mem v)\<rparr>) = ((), s')"
  shows "system_inv E (\<sigma>\<lparr>drv := s',
    reads := reads \<sigma> - 1 + (reads_started (calls s') - reads_started (calls (drv \<sigma>)))\<rparr>)"
proof -
  have live: "phase \<sigma> \<noteq> Freed" using r by simp
  obtain new w ok where
    new: "calls s' = calls (drv \<sigma>) @ new" "ivars s' = Some w" "ub s' = []"
      "comm_ready (env_comm E) w" "gotDataAction w \<noteq> None"
    and spec: "spec_got_data (spec_of v) (status = kIOReturnSuccess) mem n ok = (actions new, spec_of w)"
    by (rule read_refines [OF inv v live mem run])
  have v': "numbered (outCounter v) (packets_sent (calls (drv \<sigma>)))" "reads \<sigma> \<le> 1"
    using inv v r by (auto simp: system_inv_def)
  have "numbered (outCounter w) (packets_sent (calls s'))"
    using spec_keeps_numbering [OF spec] v'(1) new(1) by (simp add: spec_of_def packets_sent_def)
  moreover have "reads_started (calls s') - reads_started (calls (drv \<sigma>)) \<le> 1"
    using reads_started_le [of new] spec_one_listen [OF spec] new(1) by simp
  ultimately show ?thesis
    using new inv r v'(2) by (simp add: system_inv_def)
qed

subsection \<open>Calls of the clients\<close>

text \<open>The switch after a call, from the switch before it.\<close>
definition switched :: "u64 \<Rightarrow> IOUserClientMethodArguments \<Rightarrow> bool \<Rightarrow> bool" where
  "switched selector a on =
     (if selector = ExternalMethodType_Licensing \<and> accepts licensing_dispatch a
      then hd (scalarInput a) \<noteq> 0 else on)"

lemma selector_cases:
  assumes "selector < kNumberOfExternalMethods"
  shows "selector = ExternalMethodType_Unknown \<or> selector = ExternalMethodType_Licensing"
proof -
  have "selector = 0 \<or> selector = 1" if "selector < 2" for selector :: u64
    using that by unat_arith
  with assms show ?thesis
    by (simp add: kNumberOfExternalMethods_def ExternalMethodType_Unknown_def ExternalMethodType_Licensing_def)
qed

lemma call_effect:
  assumes m: "dispatch_law m" and sel: "selector < kNumberOfExternalMethods"
    and s: "client_ivars s = Some w" "inputInterface w = Some i" "ivars s = Some v"
  shows "wp (ExternalMethod m c selector d target) (\<lambda>ret s'.
    ivars s' = Some (v\<lparr>enabled := switched selector (arguments s) (enabled v)\<rparr>) \<and>
    calls s' = calls s \<and> ub s' = ub s \<and> client_ivars s' = client_ivars s) s"
  using selector_cases [OF sel]
proof
  assume "selector = ExternalMethodType_Unknown"
  then show ?thesis
    using s by (simp add: ExternalMethod_def wp_return switched_def ExternalMethodType_Unknown_def
        ExternalMethodType_Licensing_def)
next
  assume sel: "selector = ExternalMethodType_Licensing"
  show ?thesis
  proof (cases "accepts licensing_dispatch (arguments s)")
    case True
    then obtain x y where "scalarInput (arguments s) = [x]" "scalarOutput (arguments s) = [y]" by auto
    with True sel s show ?thesis
      by (simp add: wp_licensing [OF m] wp_HandleLicensing switched_def)
  next
    case False
    with sel s show ?thesis
      by (simp add: wp_licensing [OF m] switched_def del: accepts_licensing)
  qed
qed

lemma system_inv_call:
  assumes E: "well_behaved E" and inv: "system_inv E \<sigma>" and c: "clients \<sigma> c = Some w"
    and sel: "selector < kNumberOfExternalMethods"
    and run: "run_state (ExternalMethod (env_ExternalMethod E) c selector d target)
       ((drv \<sigma>)\<lparr>client_ivars := Some w, arguments := a\<rparr>) = (ret, s')"
  obtains v where "ivars (drv \<sigma>) = Some v" "phase \<sigma> \<noteq> Freed"
    "ivars s' = Some (v\<lparr>enabled := switched selector a (enabled v)\<rparr>)" "calls s' = calls (drv \<sigma>)"
    "ub s' = ub (drv \<sigma>)" "client_ivars s' = Some w"
    "system_inv E (\<sigma>\<lparr>drv := s', clients := (clients \<sigma>)(c := client_ivars s')\<rparr>)"
proof -
  have live: "phase \<sigma> \<noteq> Freed" and w: "inputInterface w = Some (this_ref E)"
    using inv c by (auto simp: system_inv_def)
  with inv obtain v where v: "ivars (drv \<sigma>) = Some v" by (auto simp: system_inv_def)
  have "dispatch_law (env_ExternalMethod E)" using E by (simp add: well_behaved_def)
  from wp_run [OF call_effect [OF this sel _ w] run] v
  have s': "ivars s' = Some (v\<lparr>enabled := switched selector a (enabled v)\<rparr>)" "calls s' = calls (drv \<sigma>)"
    "ub s' = ub (drv \<sigma>)" "client_ivars s' = Some w"
    by auto
  show thesis
    by (rule that [OF v live s']) (use inv live v s' c in \<open>auto simp: system_inv_def\<close>)
qed

subsection \<open>The other events\<close>

lemma system_inv_aside:
  assumes "system_inv E \<sigma>" "ivars s' = ivars (drv \<sigma>)" "ub s' = ub (drv \<sigma>)"
    "\<exists>new. calls s' = calls (drv \<sigma>) @ new \<and> actions new = []"
    "\<forall>d w. cl d = Some w \<longrightarrow> inputInterface w = Some (this_ref E) \<and> d \<in> set h"
    "phase \<sigma> = Freed \<longrightarrow> cl = (\<lambda>d. None)"
  shows "system_inv E (\<sigma>\<lparr>drv := s', clients := cl, handed_out := h\<rparr>)"
  using assms by (auto simp: system_inv_def packets_sent_def)

lemma connect_effect:
  assumes "well_behaved E"
    "run_state (NewUserClient (env_client E) (env_Create E) (this_ref E) None) (s\<lparr>client_ivars := None\<rparr>) = ((ret, u), s')"
  shows "connects (env_client E) (this_ref E) s ret u s'"
proof -
  have "create_law (env_client E) (env_Create E)" "is_XboxOneInputInterface (env_client E) (this_ref E)"
    using assms(1) by (simp_all add: well_behaved_def)
  from wp_run [OF NewUserClient_connects [OF this(1) _ this(2)] assms(2)] show ?thesis
    by (simp add: connects_def split: if_splits)
qed

lemma leave_effect:
  assumes "run_state (client_end U p) (s\<lparr>client_ivars := Some w\<rparr>) = ((), s')"
  shows "client_ivars s' = None \<and> ivars s' = ivars s \<and> ub s' = ub s \<and>
    (\<exists>new. calls s' = calls s @ new \<and> aside (\<lambda>r. 0) (- 1) new)"
  using wp_run [OF client_leaves assms] by simp

text \<open>What \<^verbatim>\<open>Stop\<close>, its block and \<^verbatim>\<open>free\<close> do, from a state of the invariant.\<close>
lemma stop_effect:
  assumes "ivars s = Some v" "gotDataAction v = Some a"
  shows "run_state (XboxOneInputInterface_Stop A this (Some p)) s =
    (kIOReturnSuccess, s\<lparr>calls := calls s @ [retain this, retain p, Action_Cancel a]\<rparr>)"
  using assms by (simp add: XboxOneInputInterface_Stop_def iv_def member_def)

lemma finalize_effect:
  "run_state (Stop_finalize A this (Some p)) s =
    ((), s\<lparr>calls := calls s @ [super_Stop (Some p) (on_super_Stop A (Some p) (calls s)), release this, release p]\<rparr>)"
  by (simp add: Stop_finalize_def)

lemma free_effect:
  assumes "ivars s = Some v"
  shows "run_state XboxOneInputInterface_free s = ((), s\<lparr>ivars := None, calls := calls s @
    map IOUSBHostFreeDescriptor (ptr_refs (configurationDescriptor v)) @
    map release (pipe_refs (inPipe v) @ pipe_refs (outPipe v) @ ptr_refs (gotDataAction v) @ ptr_refs (interface v)) @
    [IODelete, super_free]\<rparr>)"
proof -
  have "wp XboxOneInputInterface_free (\<lambda>_ s'. s' = s\<lparr>ivars := None, calls := calls s @
    map IOUSBHostFreeDescriptor (ptr_refs (configurationDescriptor v)) @
    map release (pipe_refs (inPipe v) @ pipe_refs (outPipe v) @ ptr_refs (gotDataAction v) @ ptr_refs (interface v)) @
    [IODelete, super_free]\<rparr>) s"
    using assms by (simp add: XboxOneInputInterface_free_def wp_simps pipe_refs_def)
  then show ?thesis by (simp add: wp_def split: prod.splits)
qed

lemma actions_map_release [simp]:
  "actions (map release rs) = []" "actions (map IOUSBHostFreeDescriptor rs) = []"
  by (induction rs) (simp_all add: actions_of_def)

lemma actions_of_others [simp]:
  "actions_of (retain r) = []" "actions_of (release r) = []" "actions_of (Action_Cancel x) = []"
  "actions_of (super_Stop p ret) = []" "actions_of IODelete = []" "actions_of super_free = []"
  by (simp_all add: actions_of_def)

lemma system_inv_step:
  assumes E: "well_behaved E" and inv: "system_inv E \<sigma>" and step: "system_step E \<sigma> e \<tau>"
  shows "system_inv E \<tau>"
  using step
proof cases
  case (read_done v mem status n t s')
  then show ?thesis using system_inv_read [OF inv] by simp
next
  case (connected c s')
  from connect_effect [OF E connected(4)] inv connected(3) show ?thesis
    unfolding connected(2)
    by (intro system_inv_aside [OF inv]) (auto simp: connects_def aside_def system_inv_def split: if_splits)
next
  case (not_connected ret u s')
  from connect_effect [OF E not_connected(4)] inv not_connected(5)
  have "system_inv E (\<sigma>\<lparr>drv := s', clients := clients \<sigma>, handed_out := handed_out \<sigma>\<rparr>)"
    by (intro system_inv_aside [OF inv]) (auto simp: connects_def aside_def system_inv_def split: if_splits)
  then show ?thesis unfolding not_connected(2) by simp
next
  case (external_call c w selector d target a ret s')
  from system_inv_call [OF E inv external_call(3-5)] show ?thesis
    unfolding external_call(2) by metis
next
  case (disconnected c w s')
  from leave_effect [OF disconnected(4)] inv
  have "system_inv E (\<sigma>\<lparr>drv := s', clients := (clients \<sigma>)(c := client_ivars s'), handed_out := handed_out \<sigma>\<rparr>)"
    by (intro system_inv_aside [OF inv]) (auto simp: aside_def system_inv_def split: if_splits)
  then show ?thesis unfolding disconnected(2) by simp
next
  case (stop_driver v ret s')
  with inv obtain a where "gotDataAction v = Some a" by (auto simp: system_inv_def)
  with stop_driver stop_effect [OF stop_driver(4) this, of "env_startup E" "this_ref E" "provider_ref E"] inv
  show ?thesis by (auto simp: system_inv_def packets_sent_def)
next
  case (cancelled s')
  with inv finalize_effect [of "env_startup E" "this_ref E" "provider_ref E" "drv \<sigma>"]
  show ?thesis by (auto simp: system_inv_def packets_sent_def)
next
  case (last_release s')
  with inv obtain v where "ivars (drv \<sigma>) = Some v" by (auto simp: system_inv_def)
  with last_release inv free_effect [OF this] show ?thesis
    by (auto simp: system_inv_def packets_sent_def)
qed

text \<open>The switch after an event.\<close>
fun on_after :: "event \<Rightarrow> bool \<Rightarrow> bool" where
  "on_after (External_call c selector a) on = switched selector a on"
| "on_after _ on = on"

text \<open>An event other than a read leaves the controller alone; a call moves the switch.\<close>
lemma quiet_step:
  assumes E: "well_behaved E" and inv: "system_inv E \<sigma>" and step: "system_step E \<sigma> e \<tau>"
    and e: "\<forall>mem status n t. e \<noteq> Read_done mem status n t"
  shows "\<exists>new. calls (drv \<tau>) = calls (drv \<sigma>) @ new \<and> actions new = [] \<and>
    (ivars (drv \<tau>) = None \<or>
     ivars (drv \<tau>) = map_option (\<lambda>v. v\<lparr>enabled := on_after e (enabled v)\<rparr>) (ivars (drv \<sigma>)))"
  using step
proof cases
  case (connected c s')
  from connect_effect [OF E connected(4)] connected(1,2) show ?thesis
    by (auto simp: connects_def aside_def option.map_ident)
next
  case (not_connected ret u s')
  from connect_effect [OF E not_connected(4)] not_connected(1,2,5) show ?thesis
    by (auto simp: connects_def aside_def option.map_ident)
next
  case (external_call c w selector d target x ret s')
  from system_inv_call [OF E inv external_call(3-5)] obtain v where
    "ivars (drv \<sigma>) = Some v" "ivars s' = Some (v\<lparr>enabled := switched selector x (enabled v)\<rparr>)"
    "calls s' = calls (drv \<sigma>)" by metis
  with external_call(1,2) show ?thesis by simp
next
  case (disconnected c w s')
  from leave_effect [OF disconnected(4)] disconnected(1,2) show ?thesis
    by (auto simp: aside_def option.map_ident)
next
  case (stop_driver v ret s')
  with inv obtain x where "gotDataAction v = Some x" by (auto simp: system_inv_def)
  with stop_driver stop_effect [OF stop_driver(4) this, of "env_startup E" "this_ref E" "provider_ref E"]
  show ?thesis by auto
next
  case (cancelled s')
  with finalize_effect [of "env_startup E" "this_ref E" "provider_ref E" "drv \<sigma>"] show ?thesis
    by (auto simp: option.map_ident)
next
  case (last_release s')
  with inv obtain v where "ivars (drv \<sigma>) = Some v" by (auto simp: system_inv_def)
  from free_effect [OF this] last_release show ?thesis by auto
qed (use e in simp)

text \<open>The system in well-behaved surroundings.\<close>
abbreviation life_start :: "environment \<Rightarrow> system \<Rightarrow> bool" where
  "life_start E \<sigma> \<equiv> well_behaved E \<and> system_start E \<sigma>"

abbreviation life_step :: "environment \<Rightarrow> system \<Rightarrow> event \<Rightarrow> system \<Rightarrow> bool" where
  "life_step E \<sigma> e \<tau> \<equiv> well_behaved E \<and> system_step E \<sigma> e \<tau>"

lemma life_reachable:
  "well_behaved E \<Longrightarrow> reachable (system_start E) (system_step E) \<sigma> \<Longrightarrow> reachable (life_start E) (life_step E) \<sigma>"
  by (erule reachable_mono) simp_all

lemma life_steps: "well_behaved E \<Longrightarrow> steps (system_step E) \<sigma> es \<tau> \<Longrightarrow> steps (life_step E) \<sigma> es \<tau>"
  by (erule steps_mono) simp

interpretation run: invariant_system "life_start E" "life_step E" "system_inv E"
  by unfold_locales (auto intro: system_inv_start system_inv_step)

lemma system_inv_reachable:
  "well_behaved E \<Longrightarrow> reachable (system_start E) (system_step E) \<sigma> \<Longrightarrow> system_inv E \<sigma>"
  by (rule run.inv_reachable [OF life_reachable])

end
