(* ===== verification/Call_Properties.thy ===== *)
theory Call_Properties
  imports Driver_System
begin

text \<open>
  Properties of the list of calls that the start and the callback keep because of the kinds of calls
  they make (locale \<open>call_property\<close>).  Two of them are used: that no stored variables are
  allocated or deleted, and that every read was accepted.
\<close>

text \<open>The calls of the start and of the callback; a read is answered by the pipe.\<close>
definition traffic_call :: "comm_api \<Rightarrow> call \<Rightarrow> bool" where
  "traffic_call C c =
     (case c of
        super_handleStart p b \<Rightarrow> True
      | Interface_CopyConfigurationDescriptor i p \<Rightarrow> True
      | Interface_GetInterfaceDescriptor i p x \<Rightarrow> True
      | Interface_CopyPipe i a x \<Rightarrow> True
      | Interface_CreateIOBuffer i n x \<Rightarrow> True
      | Pipe_GetSpeed p x \<Rightarrow> True
      | Buffer_Map b x \<Rightarrow> True
      | CopyProperties x \<Rightarrow> True
      | CreateActionGotData n x \<Rightarrow> True
      | retain r \<Rightarrow> True
      | release r \<Rightarrow> True
      | Pipe_IO p bs n x \<Rightarrow> True
      | handleReport t bs n ret \<Rightarrow> True
      | Pipe_AsyncIO p b n a ret \<Rightarrow> (\<exists>h. ret = on_AsyncIO C p b n a h)
      | _ \<Rightarrow> False)"

lemma traffic_call_simps [simp]:
  "traffic_call C (super_handleStart q c)" "traffic_call C (Interface_CopyConfigurationDescriptor i q)"
  "traffic_call C (Interface_GetInterfaceDescriptor i j ifd)" "traffic_call C (Interface_CopyPipe i ad y)"
  "traffic_call C (Pipe_GetSpeed p x)" "traffic_call C (Interface_CreateIOBuffer i n y)"
  "traffic_call C (Buffer_Map b z)" "traffic_call C (CopyProperties y)"
  "traffic_call C (CreateActionGotData n y)" "traffic_call C (retain r)" "traffic_call C (release r)"
  "traffic_call C (Pipe_IO p bs k u)" "traffic_call C (handleReport t bs k ret)"
  "traffic_call C (Pipe_AsyncIO p bo k ac (on_AsyncIO C p bo k ac h))"
  by (auto simp: traffic_call_def)

locale call_property =
  fixes C :: comm_api
    and K :: "call list \<Rightarrow> bool"
  assumes K_snoc: "K cs \<Longrightarrow> traffic_call C c \<Longrightarrow> K (cs @ [c])"
begin

lemma keeps_K_invoke:
  "(\<And>h. traffic_call C (c (f h))) \<Longrightarrow> keeps (\<lambda>s. K (calls s)) (invoke c f)"
  by (simp add: keeps_def wp_invoke K_snoc)

lemma keeps_K_emit: "traffic_call C c \<Longrightarrow> keeps (\<lambda>s. K (calls s)) (emit c)"
  by (simp add: keeps_def wp_emit K_snoc)

lemma keeps_K_deref: "keeps (\<lambda>s. K (calls s)) (deref d p)"
  by (simp add: keeps_def wp_deref split: option.split)

lemma keeps_K_ub_unless: "keeps (\<lambda>s. K (calls s)) (ub_unless b u)"
  by (simp add: keeps_def wp_ub_unless)

lemma keeps_K_iv: "keeps (\<lambda>s. K (calls s)) (iv d f)"
  by (simp add: keeps_def iv_def member_def wp_simps wp_deref split: option.split)

lemma keeps_K_set_iv: "keeps (\<lambda>s. K (calls s)) (set_iv f)"
  by (simp add: keeps_def set_iv_def set_member_def wp_simps)

lemma keeps_K_OSSafeRelease: "keeps (\<lambda>s. K (calls s)) (OSSafeRelease p)"
  unfolding OSSafeRelease_def by (intro keeps_intros keeps_K_emit) simp

lemmas keeps_K = keeps_bind keeps_return keeps_if keeps_when_do keeps_case_option keeps_case_prod keeps_let
  keeps_K_invoke keeps_K_emit keeps_K_deref keeps_K_ub_unless keeps_K_iv keeps_K_set_iv keeps_K_OSSafeRelease

lemma keeps_K_Send: "keeps (\<lambda>s. K (calls s)) (SendInterruptData C data sz)"
  unfolding SendInterruptData_def by (intro keeps_K) simp

lemma keeps_K_Request: "keeps (\<lambda>s. K (calls s)) (RequestAsyncInterruptData C)"
  unfolding RequestAsyncInterruptData_def by (intro keeps_K) simp

lemma keeps_K_SetupPipe: "keeps (\<lambda>s. K (calls s)) (SetupPipe A sl)"
  unfolding SetupPipe_def set_memory_def by (intro keeps_K) simp_all

lemma keeps_K_SetupPipes: "keeps (\<lambda>s. K (calls s)) (SetupPipes A)"
  unfolding SetupPipes_def SetupPipes_in_def SetupPipes_out_def
  by (intro keeps_K keeps_K_SetupPipe) simp_all

lemma keeps_K_round: "keeps (\<lambda>s. K (calls s)) (InitPipes_round A e)"
  unfolding InitPipes_round_def by (intro keeps_K) simp_all

lemma InitPipes_loop_K:
  assumes "InitPipes_loop A cur s = Some y" "K (calls s)"
  shows "K (calls (snd y))"
proof -
  from assms(1) have "K (calls s) \<longrightarrow> K (calls (snd y))"
  proof (rule InitPipes_loop.raw_induct [where P = "\<lambda>A cur s y. K (calls s) \<longrightarrow> K (calls (snd y))", rotated])
    fix f A cur s y
    assume IH: "\<And>A cur s y. f A cur s = Some y \<Longrightarrow> K (calls s) \<longrightarrow> K (calls (snd y))"
      and eq: "(case ep_after A s cur of None \<Rightarrow> Some (False, s)
        | Some ep \<Rightarrow> (case fst (run_state (InitPipes_round A ep) s) of
            None \<Rightarrow> f A (Some ep) (snd (run_state (InitPipes_round A ep) s))
          | Some b \<Rightarrow> Some (b, snd (run_state (InitPipes_round A ep) s)))) = Some y"
    show "K (calls s) \<longrightarrow> K (calls (snd y))"
    proof
      assume s: "K (calls s)"
      have round: "K (calls (snd (run_state (InitPipes_round A ep) s)))" for ep
        using keeps_run [OF keeps_K_round s] by (metis prod.collapse)
      show "K (calls (snd y))"
        using eq s round IH by (auto split: option.splits)
    qed
  qed
  with assms(2) show ?thesis by simp
qed

lemma keeps_K_InitPipes: "keeps (\<lambda>s. K (calls s)) (InitPipes A)"
proof -
  have "keeps (\<lambda>s. K (calls s)) (State (\<lambda>s. case InitPipes_loop A None s of None \<Rightarrow> (None, s)
      | Some (b, s') \<Rightarrow> (Some b, s')))"
    by (auto simp: keeps_def wp_def dest: InitPipes_loop_K split: option.split prod.split)
  then show ?thesis unfolding InitPipes_def by (intro keeps_K)
qed

lemma keeps_K_handleStart: "keeps (\<lambda>s. K (calls s)) (handleStart A C provider)"
  unfolding handleStart_def InitDescriptors_def handleStart_pipes_def handleStart_setup_def
    handleStart_listen_def handleStart_greet_def
  by (intro keeps_K keeps_K_InitPipes keeps_K_SetupPipes keeps_K_Send keeps_K_Request) simp_all

lemma keeps_K_read_byte: "keeps (\<lambda>s. K (calls s)) (read_byte p i)"
  unfolding read_byte_def by (intro keeps_K)

lemma keeps_K_read_bytes: "keeps (\<lambda>s. K (calls s)) (State_Monad.traverse_list (read_byte p) is)"
  by (induction "is") (auto intro!: keeps_K keeps_K_read_byte)

lemma keeps_K_GotData: "keeps (\<lambda>s. K (calls s)) (GotData C status n t)"
  unfolding GotData_def HandleControllerReport_def HandleGuideReport_def HandleReportGeneric_def
    DebugPrintButtonPacket_def
  by (intro keeps_K keeps_K_read_byte keeps_K_read_bytes keeps_K_Request keeps_K_Send) simp_all

lemma handleStart_K:
  "run_state (handleStart A C p) s = (r, s') \<Longrightarrow> K (calls s) \<Longrightarrow> K (calls s')"
  using keeps_run [OF keeps_K_handleStart] by blast

lemma GotData_K: "run_state (GotData C status n t) s = (r, s') \<Longrightarrow> K (calls s) \<Longrightarrow> K (calls s')"
  using keeps_run [OF keeps_K_GotData] by blast

end

interpretation allocation: call_property C "\<lambda>cs. ivars_live cs = n"
  by unfold_locales (auto simp: traffic_call_def)

end
