(* ===== verification/System_Ownership.thy ===== *)
theory System_Ownership
  imports Call_Properties
begin

text \<open>
  The books of the driver over its whole life: in every state the references it has taken and not
  given back are those it has stored, one to the interface, two more while a stop is under way, and
  the clients it has handed out; and every allocation of stored variables belongs to the driver or to
  a client that is connected.
\<close>

text \<open>What the account needs of the frameworks, beyond \<open>well_behaved\<close>.\<close>
definition accountable :: "environment \<Rightarrow> bool" where
  "accountable E \<longleftrightarrow> untouched_on_failure (env_startup E) \<and> one_endpoint_per_slot (env_startup E)"

definition owed :: "environment \<Rightarrow> system \<Rightarrow> ref \<Rightarrow> int" where
  "owed E \<sigma> r = int (count_list (handed_out \<sigma>) r) +
     (case ivars (drv \<sigma>) of None \<Rightarrow> 0
      | Some v \<Rightarrow> int (count_list (stored v) r) + of_bool (r = provider_ref E)) +
     (if phase \<sigma> = Stopping then of_bool (r = this_ref E) + of_bool (r = provider_ref E) else 0)"

definition own_inv :: "environment \<Rightarrow> system \<Rightarrow> bool" where
  "own_inv E \<sigma> \<longleftrightarrow>
     (\<forall>r. balance r (calls (drv \<sigma>)) = owed E \<sigma> r) \<and>
     (\<forall>v. ivars (drv \<sigma>) = Some v \<longrightarrow> interface v = Some (provider_ref E)) \<and>
     finite (dom (clients \<sigma>)) \<and>
     ivars_live (calls (drv \<sigma>)) = of_bool (ivars (drv \<sigma>) \<noteq> None) + int (card (dom (clients \<sigma>)))"

lemma opened_fresh: "fresh (opened_ivars E)"
  by (simp add: fresh_def stored_def pipe_refs_def opened_ivars_def zeroed_ivars_def default_pipe_def
      default_buffer_def)

lemma own_inv_start:
  assumes E: "well_behaved E" "accountable E" and start: "system_start E \<sigma>"
  shows "own_inv E \<sigma>"
  using start
proof (cases rule: system_start.cases)
  case (started_up s s1 s2 v)
  obtain u after t where u:
    "run_state (handleStart (env_startup E) (env_comm E) (Some (provider_ref E))) u = (Some True, t)"
    "ivars u = Some (opened_ivars E)" "ub u = []" "aside (\<lambda>r. 0) 1 (calls u)" "aside (\<lambda>r. 0) 0 after"
    "s2 = t\<lparr>calls := calls t @ after\<rparr>"
    by (rule start_runs_handleStart [OF E(1) started_up(2-6)])
  have A: "untouched_on_failure (env_startup E)" "one_endpoint_per_slot (env_startup E)"
    "interface (opened_ivars E) = Some (provider_ref E)"
    using E by (simp_all add: accountable_def opened_ivars_def)
  from wp_run [OF handleStart_accounted [OF A(1,2) u(2) A(3) opened_fresh] u(1)] obtain w where
    w: "interface w = Some (provider_ref E)"
      "accounted (\<lambda>r. balance r (calls u) + of_bool (r = provider_ref E)) t w" by auto
  have "ivars_live (calls t) = 1"
    using allocation.handleStart_K [OF u(1)] u(4) by (simp add: aside_def)
  with w u(4-6) started_up(1) show ?thesis
    by (auto simp: own_inv_def owed_def accounted_def aside_def)
qed

lemma own_inv_read:
  assumes own: "own_inv E \<sigma>" and v: "ivars (drv \<sigma>) = Some v"
    and run: "run_state (GotData C status n t) ((drv \<sigma>)\<lparr>ivars := Some (transfer mem v)\<rparr>) = ((), s')"
  shows "own_inv E (\<sigma>\<lparr>drv := s', reads := k\<rparr>)"
proof -
  let ?s = "(drv \<sigma>)\<lparr>ivars := Some (transfer mem v)\<rparr>"
  let ?base = "\<lambda>r. balance r (calls (drv \<sigma>)) - int (count_list (stored v) r)"
  have "held ?base (ivars_live (calls (drv \<sigma>))) (interface v) (gotDataAction v) ?s"
    by (simp add: held_def accounted_def)
  from keeps_run [OF keeps_held_GotData this run] own v show ?thesis
    by (auto simp: held_def accounted_def own_inv_def owed_def)
qed

lemma own_inv_call:
  assumes own: "own_inv E \<sigma>" and v: "ivars (drv \<sigma>) = Some v" "clients \<sigma> c = Some w"
    and s': "ivars s' = Some (v\<lparr>enabled := b\<rparr>)" "calls s' = calls (drv \<sigma>)" "client_ivars s' = Some w"
  shows "own_inv E (\<sigma>\<lparr>drv := s', clients := (clients \<sigma>)(c := client_ivars s')\<rparr>)"
proof -
  have "(clients \<sigma>)(c := client_ivars s') = clients \<sigma>" using v(2) s'(3) by auto
  with own v(1) s'(1,2) show ?thesis
    by (simp add: own_inv_def owed_def stored_def)
qed

lemma own_inv_step:
  assumes E: "well_behaved E" and inv: "system_inv E \<sigma>" and own: "own_inv E \<sigma>" and step: "system_step E \<sigma> e \<tau>"
  shows "own_inv E \<tau>"
  using step
proof cases
  case (read_done v mem status n t s')
  then show ?thesis using own_inv_read [OF own] by simp
next
  case (connected c s')
  from connect_effect [OF E connected(4)] connected(3,5) own show ?thesis
    unfolding connected(2)
    by (auto simp: connects_def aside_def own_inv_def owed_def dom_fun_upd card_insert_if)
next
  case (not_connected ret u s')
  from connect_effect [OF E not_connected(4)] not_connected(3,5) own show ?thesis
    unfolding not_connected(2) by (auto simp: connects_def aside_def own_inv_def owed_def)
next
  case (external_call c w selector d target a ret s')
  from system_inv_call [OF E inv external_call(3-5)] obtain v where
    "ivars (drv \<sigma>) = Some v" "ivars s' = Some (v\<lparr>enabled := switched selector a (enabled v)\<rparr>)"
    "calls s' = calls (drv \<sigma>)" "client_ivars s' = Some w" by metis
  from own_inv_call [OF own this(1) external_call(3) this(2-4)] show ?thesis
    unfolding external_call(2) .
next
  case (disconnected c w s')
  have "card (dom (clients \<sigma>)) = Suc (card (dom (clients \<sigma>) - {c}))"
    using own disconnected(3) by (intro card.remove) (auto simp: own_inv_def)
  with leave_effect [OF disconnected(4)] own show ?thesis
    unfolding disconnected(2) by (auto simp: aside_def own_inv_def owed_def)
next
  case (stop_driver v ret s')
  with inv obtain a where "gotDataAction v = Some a" by (auto simp: system_inv_def)
  with stop_driver own stop_effect [OF stop_driver(4) this, of "env_startup E" "this_ref E" "provider_ref E"]
  show ?thesis by (auto simp: own_inv_def owed_def owner_simps)
next
  case (cancelled s')
  with own finalize_effect [of "env_startup E" "this_ref E" "provider_ref E" "drv \<sigma>"]
  show ?thesis by (auto simp: own_inv_def owed_def owner_simps)
next
  case (last_release s')
  with inv obtain v where v: "ivars (drv \<sigma>) = Some v" by (auto simp: system_inv_def)
  with own have "interface v = Some (provider_ref E)" by (simp add: own_inv_def)
  with v last_release own free_effect [OF v] show ?thesis
    by (auto simp: own_inv_def owed_def owner_simps stored_def)
qed

interpretation books: invariant_system "\<lambda>\<sigma>. accountable E \<and> life_start E \<sigma>" "life_step E"
  "\<lambda>\<sigma>. system_inv E \<sigma> \<and> own_inv E \<sigma>"
  by unfold_locales (auto intro: system_inv_start own_inv_start system_inv_step own_inv_step)

end
