(* ===== verification/Core_Interface.thy ===== *)
theory Core_Interface
  imports Driver_Lifecycle
begin

text \<open>
  \<^verbatim>\<open>XboxOneInterface.cpp\<close>: an earlier interface driver that accepts only interface
  number 0.  The file is not part of the Xcode target and its header is not in the repository; its
  code is modelled as it stands.  The base class's \<^verbatim>\<open>Start\<close> is a parameter action,
  because it calls back into the object.
\<close>

type_synonym XboxOneInterfaceType = u8

definition XboxOneInterfaceTypeUnknown :: XboxOneInterfaceType where
  "XboxOneInterfaceTypeUnknown = 255"

definition XboxOneInterfaceTypeInput :: XboxOneInterfaceType where
  "XboxOneInterfaceTypeInput = 0"

record XboxOneInterface_IVars =
  interfaceType :: XboxOneInterfaceType
  core_interface :: "ref ptr"

record core_state = "call world" +
  core_ivars :: "XboxOneInterface_IVars ptr"

text \<open>\<^verbatim>\<open>IONewZero\<close> fills with zero bytes.\<close>
definition zeroed_core_ivars :: XboxOneInterface_IVars where
  "zeroed_core_ivars = \<lparr>interfaceType = 0, core_interface = None\<rparr>"

definition XboxOneInterface_init :: "'a interface_api_scheme \<Rightarrow> (core_state, bool) state" where
  "XboxOneInterface_init A = do {
     result \<leftarrow> invoke super_init (on_super_init A);
     if \<not> result then return False
     else do {
       ok \<leftarrow> invoke IONewZero (on_IONewZero A);
       modify (core_ivars_update (\<lambda>_. if ok then Some zeroed_core_ivars else None));
       if \<not> ok then return False else return True
     }
   }"

definition XboxOneInterface_Start ::
    "(ref ptr \<Rightarrow> (core_state, kern_return) state) \<Rightarrow> ref ptr \<Rightarrow> (core_state, kern_return) state" where
  "XboxOneInterface_Start super_start provider = do {
     ret \<leftarrow> super_start provider;
     if ret \<noteq> kIOReturnSuccess then return ret else return ret
   }"

text \<open>The body of \<^verbatim>\<open>handleStart\<close> up to \<^verbatim>\<open>Exit\<close>: the result and the configuration descriptor.\<close>
definition XboxOneInterface_handleStart_body ::
    "'a interface_api_scheme \<Rightarrow> ref ptr \<Rightarrow> (core_state, bool \<times> ref ptr) state" where
  "XboxOneInterface_handleStart_body A provider = do {
     set_member core_ivars core_ivars_update
       (core_interface_update (\<lambda>_. OSDynamicCast (is_IOUSBHostInterface A) provider));
     case OSDynamicCast (is_IOUSBHostInterface A) provider of
       None \<Rightarrow> return (False, None)
     | Some i \<Rightarrow> do {
         cd \<leftarrow> invoke (Interface_CopyConfigurationDescriptor i) (on_CopyConfigurationDescriptor A i);
         case cd of
           None \<Rightarrow> return (False, None)
         | Some c \<Rightarrow> do {
             ifd \<leftarrow> invoke (Interface_GetInterfaceDescriptor i c) (on_GetInterfaceDescriptor A i c);
             case ifd of
               None \<Rightarrow> return (False, Some c)
             | Some x \<Rightarrow>
                 if bInterfaceNumber x = XboxOneInterfaceTypeInput then do {
                   result \<leftarrow> invoke (super_handleStart provider) (on_super_handleStart A provider);
                   return (result, Some c)
                 }
                 else return (False, Some c)
           }
       }
   }"

definition XboxOneInterface_handleStart ::
    "'a interface_api_scheme \<Rightarrow> ref ptr \<Rightarrow> (core_state, bool) state" where
  "XboxOneInterface_handleStart A provider = do {
     (result, cd) \<leftarrow> XboxOneInterface_handleStart_body A provider;
     free_descriptor_if cd;
     return result
   }"

definition XboxOneInterface_Stop ::
    "'a interface_api_scheme \<Rightarrow> ref ptr \<Rightarrow> (core_state, kern_return) state" where
  "XboxOneInterface_Stop A provider = invoke (super_Stop provider) (on_super_Stop A provider)"

definition XboxOneInterface_free :: "(core_state, unit) state" where
  "XboxOneInterface_free = do {
     iv \<leftarrow> gets core_ivars;
     IOSafeDeleteNULL iv;
     modify (core_ivars_update (\<lambda>_. None));
     emit super_free
   }"

interpretation core: driver_object
  "XboxOneInterface_init A" XboxOneInterface_free "\<lambda>s. core_ivars s \<noteq> None" calls
  by unfold_locales (auto simp: XboxOneInterface_init_def XboxOneInterface_free_def wp_simps)

lemmas core_handleStart_defs = XboxOneInterface_handleStart_def XboxOneInterface_handleStart_body_def

lemma core_handleStart_balance:
  assumes "core_ivars s = Some v"
  shows "wp (XboxOneInterface_handleStart A provider)
     (\<lambda>ok s'. ub s' = ub s \<and> (\<forall>r. balance r (calls s') = balance r (calls s))) s"
  using assms by (auto simp: core_handleStart_defs wp_simps owner_simps split: option.split)

lemma core_handleStart_accepts:
  assumes "core_ivars s = Some v"
  shows "wp (XboxOneInterface_handleStart A provider)
     (\<lambda>ok s'. ok \<longrightarrow> (\<exists>i c x. provider = Some i \<and> bInterfaceNumber x = XboxOneInterfaceTypeInput \<and>
        calls s' = calls s @ [Interface_CopyConfigurationDescriptor i (Some c),
          Interface_GetInterfaceDescriptor i c (Some x), super_handleStart provider True,
          IOUSBHostFreeDescriptor c])) s"
  using assms by (auto simp: core_handleStart_defs wp_simps OSDynamicCast_Some split: option.split)

end
