(* ===== verification/Device.thy ===== *)
theory Device
  imports Driver_Lifecycle
begin

text \<open>
  \<^verbatim>\<open>XboxOneDevice.cpp\<close>: the driver of the USB device.  Its only job is to open the
  device and to make configuration 1 active, so that the system finds the controller's interfaces
  and starts the interface driver.
\<close>

definition TARGET_CONFIGURATION :: u8 where
  "TARGET_CONFIGURATION = 1"

text \<open>\<^verbatim>\<open>XboxOneDevice_IVars\<close> has no members.\<close>
type_synonym XboxOneDevice_IVars = unit

record device_state = "call world" +
  device_ivars :: "XboxOneDevice_IVars ptr"

definition XboxOneDevice_init :: "'a device_api_scheme \<Rightarrow> (device_state, bool) state" where
  "XboxOneDevice_init A = do {
     result \<leftarrow> invoke super_init (on_super_init A);
     if \<not> result then return False
     else do {
       ok \<leftarrow> invoke IONewZero (on_IONewZero A);
       modify (device_ivars_update (\<lambda>_. if ok then Some () else None));
       if \<not> ok then return False else return True
     }
   }"

text \<open>
  The body of \<^verbatim>\<open>Start_Impl\<close> up to the label \<^verbatim>\<open>Exit\<close>: the value of
  \<^verbatim>\<open>ret\<close> there and the two descriptor pointers.
\<close>
definition XboxOneDevice_Start_body ::
    "'a device_api_scheme \<Rightarrow> ref ptr \<Rightarrow>
     (device_state, kern_return \<times> device_descriptor ptr \<times> ref ptr) state" where
  "XboxOneDevice_Start_body A provider =
     (case OSDynamicCast (is_IOUSBHostDevice A) provider of
        None \<Rightarrow> return (kIOReturnError, None, None)
      | Some device \<Rightarrow> do {
          deviceDescriptor \<leftarrow>
            invoke (Device_CopyDeviceDescriptor device) (on_CopyDeviceDescriptor A device);
          case deviceDescriptor of
            None \<Rightarrow> return (kIOReturnSuccess, None, None)
          | Some dd \<Rightarrow>
              if bNumConfigurations dd < 1 then return (kIOReturnSuccess, Some dd, None)
              else do {
                ret \<leftarrow> invoke (Device_Open device) (on_Device_Open A device);
                if ret \<noteq> kIOReturnSuccess then return (ret, Some dd, None)
                else do {
                  configurationDescriptor \<leftarrow>
                    invoke (Device_CopyConfigurationDescriptorWithValue device TARGET_CONFIGURATION)
                      (on_CopyConfigurationDescriptorWithValue A device TARGET_CONFIGURATION);
                  if configurationDescriptor = None then return (ret, Some dd, None)
                  else do {
                    ret \<leftarrow> invoke (Device_SetConfiguration device TARGET_CONFIGURATION True)
                      (on_SetConfiguration A device TARGET_CONFIGURATION True);
                    if ret \<noteq> kIOReturnSuccess then return (ret, Some dd, configurationDescriptor)
                    else do {
                      ret \<leftarrow> invoke (super_Start provider) (on_super_Start A provider);
                      if ret \<noteq> kIOReturnSuccess then return (ret, Some dd, configurationDescriptor)
                      else do {
                        ret \<leftarrow> invoke RegisterService (on_RegisterService A);
                        if ret \<noteq> kIOReturnSuccess
                        then return (ret, Some dd, configurationDescriptor)
                        else return (kIOReturnSuccess, Some dd, configurationDescriptor)
                      }
                    }
                  }
                }
              }
        })"

definition XboxOneDevice_Start ::
    "'a device_api_scheme \<Rightarrow> ref ptr \<Rightarrow> (device_state, kern_return) state" where
  "XboxOneDevice_Start A provider = do {
     (ret, deviceDescriptor, configurationDescriptor) \<leftarrow> XboxOneDevice_Start_body A provider;
     free_descriptor_if (map_option device_descriptor_ref deviceDescriptor);
     free_descriptor_if configurationDescriptor;
     return ret
   }"

definition XboxOneDevice_Stop ::
    "'a device_api_scheme \<Rightarrow> ref ptr \<Rightarrow> (device_state, kern_return) state" where
  "XboxOneDevice_Stop A provider = invoke (super_Stop provider) (on_super_Stop A provider)"

definition XboxOneDevice_free :: "(device_state, unit) state" where
  "XboxOneDevice_free = do {
     iv \<leftarrow> gets device_ivars;
     IOSafeDeleteNULL iv;
     modify (device_ivars_update (\<lambda>_. None));
     emit super_free
   }"

subsection \<open>The calls a start makes\<close>

text \<open>
  What a start that gets through every step does, in order.
\<close>
definition full_start_calls ::
    "ref \<Rightarrow> device_descriptor \<Rightarrow> ref \<Rightarrow> kern_return \<Rightarrow> call list" where
  "full_start_calls device dd cd ret =
     [Device_CopyDeviceDescriptor device (Some dd), Device_Open device kIOReturnSuccess,
      Device_CopyConfigurationDescriptorWithValue device TARGET_CONFIGURATION (Some cd),
      Device_SetConfiguration device TARGET_CONFIGURATION True kIOReturnSuccess,
      super_Start (Some device) kIOReturnSuccess, RegisterService ret,
      IOUSBHostFreeDescriptor (device_descriptor_ref dd), IOUSBHostFreeDescriptor cd]"

lemmas Start_defs = XboxOneDevice_Start_def XboxOneDevice_Start_body_def

lemma Start_balance:
  "wp (XboxOneDevice_Start A provider)
     (\<lambda>ret s'. \<forall>r. balance r (calls s') = balance r (calls s)) s"
  by (auto simp: Start_defs wp_simps owner_simps split: option.split)

lemma Start_ivars:
  "wp (XboxOneDevice_Start A provider)
     (\<lambda>ret s'. device_ivars s' = device_ivars s \<and> ub s' = ub s) s"
  by (auto simp: Start_defs wp_simps split: option.split)

lemma Start_registers:
  "wp (XboxOneDevice_Start A provider)
     (\<lambda>ret s'. \<exists>new. calls s' = calls s @ new \<and>
        ((\<exists>x. RegisterService x \<in> set new) \<longrightarrow>
           (\<exists>device dd cd. provider = Some device \<and> bNumConfigurations dd \<noteq> 0 \<and>
              new = full_start_calls device dd cd ret))) s"
  by (auto simp: Start_defs wp_simps full_start_calls_def OSDynamicCast_Some not_less split: option.split)

interpretation device: driver_object
  "XboxOneDevice_init A" XboxOneDevice_free "\<lambda>s. device_ivars s \<noteq> None" calls
  by unfold_locales (auto simp: XboxOneDevice_init_def XboxOneDevice_free_def wp_simps)

lemma Start_keeps_ivars:
  "keeps_ivars (\<lambda>s. device_ivars s \<noteq> None) calls (XboxOneDevice_Start A provider)"
  by (auto simp: keeps_ivars_def Start_defs wp_simps split: option.split)

lemma Stop_keeps_ivars:
  "keeps_ivars (\<lambda>s. device_ivars s \<noteq> None) calls (XboxOneDevice_Stop A provider)"
  by (auto simp: keeps_ivars_def XboxOneDevice_Stop_def wp_simps)

end
