(* ===== verification/Input_Description.thy ===== *)
theory Input_Description
  imports Input_Comm Descriptors "HOL-Library.Monad_Syntax"
begin

text \<open>
  What \<^verbatim>\<open>XboxOneInputInterface.cpp\<close> tells the HID stack about the controller: the
  strings it reads from the device (\<^verbatim>\<open>CopyStringAtIndex\<close>), the device description
  (\<^verbatim>\<open>newDeviceDescription\<close>) and the report descriptor
  (\<^verbatim>\<open>newReportDescriptor\<close>).  A dictionary is the list of the entries set in it.
  \<open>descriptor_text\<close> is what a string descriptor says, without the loop that reads it.
\<close>

record description_api =
  on_Interface_CopyProperties :: "ref \<Rightarrow> call list \<Rightarrow> ref ptr"
  on_CopyDevice :: "ref \<Rightarrow> call list \<Rightarrow> ref ptr"
  on_DeviceDescriptor :: "ref \<Rightarrow> call list \<Rightarrow> device_descriptor ptr"
  on_CopyStringDescriptor :: "ref \<Rightarrow> u8 \<Rightarrow> u16 \<Rightarrow> call list \<Rightarrow> string_descriptor ptr"
  on_OSStringCreate :: "u8 list \<Rightarrow> call list \<Rightarrow> ref ptr"
  on_withCapacity :: "nat \<Rightarrow> call list \<Rightarrow> ref ptr"
  on_withBytesNoCopy :: "u8 list \<Rightarrow> u32 \<Rightarrow> call list \<Rightarrow> ref ptr"
  dictionary_value :: "ref \<Rightarrow> dict_key \<Rightarrow> ref ptr"
  dictionary_UInt64 :: "ref \<Rightarrow> dict_key \<Rightarrow> u64"
  USBToHost16 :: "u16 \<Rightarrow> u16"
  kIOUSBHostPortTypeInternal :: u64

subsection \<open>Strings\<close>

definition descriptorHeaderSize :: u8 where
  "descriptorHeaderSize = 2"

text \<open>The loop: the index it stops at and the characters.  \<open>left\<close> is what is left to read.\<close>
fun CopyStringAtIndex_loop ::
    "u8 list \<Rightarrow> nat \<Rightarrow> nat \<Rightarrow> u8 list \<Rightarrow> ('z input_state_scheme, nat \<times> u8 list) state" where
  "CopyStringAtIndex_loop bs index 0 result = return (index, result)"
| "CopyStringAtIndex_loop bs index (Suc left) result = do {
     ub_unless (2 * index + 1 < length bs) (Read_out_of_bounds (2 * index + 1) (length bs));
     let value = u16_at bs (2 * index);
     if value = 0 then return (index, result)
     else do {
       ub_unless (index < length result) (Write_out_of_bounds index (length result));
       CopyStringAtIndex_loop bs (Suc index) left (result[index := ucast value])
     }
   }"

definition CopyStringAtIndex ::
    "description_api \<Rightarrow> u8 \<Rightarrow> u16 \<Rightarrow> ('z input_state_scheme, ref ptr) state" where
  "CopyStringAtIndex D descriptorIndex descriptorLanguage =
     (if descriptorIndex = 0 then return None
      else do {
        q \<leftarrow> iv None interface;
        i \<leftarrow> deref 0 q;
        descriptor \<leftarrow> invoke (Interface_CopyStringDescriptor i descriptorIndex descriptorLanguage)
          (on_CopyStringDescriptor D i descriptorIndex descriptorLanguage);
        string \<leftarrow> (case descriptor of
            None \<Rightarrow> return None
          | Some d \<Rightarrow>
              if bLength d < descriptorHeaderSize then return None
              else do {
                (index, result) \<leftarrow> CopyStringAtIndex_loop (bString d) 0
                  (unat ((bLength d - descriptorHeaderSize) div 2)) (replicate 256 0);
                invoke (OSStringCreate (take index result)) (on_OSStringCreate D (take index result))
              });
        free_descriptor_if (map_option string_descriptor_ref descriptor);
        return string
      })"

subsection \<open>Device description\<close>

text \<open>Setting the value of a key to a string read from the device, if there is one.\<close>
definition set_string ::
    "description_api \<Rightarrow> ref \<Rightarrow> dict_key \<Rightarrow> u8 \<Rightarrow> ('z input_state_scheme, unit) state" where
  "set_string D dict key descriptorIndex = do {
     v \<leftarrow> CopyStringAtIndex D descriptorIndex kLanguageIDEnglishUS;
     case v of
       None \<Rightarrow> return ()
     | Some r \<Rightarrow> do {
         emit (OSDictionarySet dict key (OSObject r));
         emit (release r)
       }
   }"

text \<open>The entries that do not depend on the properties and the strings.\<close>
definition set_numbers ::
    "description_api \<Rightarrow> ref \<Rightarrow> device_descriptor \<Rightarrow> ('z input_state_scheme, unit) state" where
  "set_numbers D dict dd = do {
     emit (OSDictionarySet dict kIOHIDRegisterServiceKey (OSBoolean True));
     emit (OSDictionarySet dict (Literal_key ''HIDDefaultBehavior'') (OSBoolean True));
     emit (OSDictionarySet dict (Literal_key ''AppleVendorSupported'') (OSBoolean True));
     t \<leftarrow> iv 0 (\<lambda>v. interval (inPipe v));
     emit (OSDictionarySet dict kIOHIDReportIntervalKey (OSNumber (ucast t)));
     emit (OSDictionarySet dict kIOHIDVendorIDKey (OSNumber (ucast (USBToHost16 D (idVendor dd)))));
     emit (OSDictionarySet dict kIOHIDProductIDKey (OSNumber (ucast (USBToHost16 D (idProduct dd)))));
     emit (OSDictionarySet dict kIOHIDTransportKey (OSStringValue ''USB''));
     emit (OSDictionarySet dict kIOHIDVersionNumberKey (OSNumber (ucast (USBToHost16 D (bcdDevice dd)))));
     emit (OSDictionarySet dict kIOHIDCountryCodeKey (OSNumber 0));
     emit (OSDictionarySet dict kIOHIDRequestTimeoutKey
       (OSNumber (kUSBHostClassRequestCompletionTimeout * 1000)));
     emit (OSDictionarySet dict kIOHIDPrimaryUsagePageKey (OSNumber (ucast (ReportDescriptor ! 1))));
     emit (OSDictionarySet dict kIOHIDPrimaryUsageKey (OSNumber (ucast (ReportDescriptor ! 3))))
   }"

definition newDeviceDescription_fill ::
    "description_api \<Rightarrow> ref \<Rightarrow> ref \<Rightarrow> device_descriptor \<Rightarrow> ('z input_state_scheme, unit) state" where
  "newDeviceDescription_fill D dict properties dd = do {
     set_numbers D dict dd;
     (case dictionary_value D properties kUSBHostPropertyLocationID of
        None \<Rightarrow> return ()
      | Some r \<Rightarrow> emit (OSDictionarySet dict kIOHIDLocationIDKey (OSObject r)));
     set_string D dict kIOHIDManufacturerKey (iManufacturer dd);
     set_string D dict kIOHIDProductKey (iProduct dd);
     set_string D dict kIOHIDSerialNumberKey (iSerialNumber dd);
     when_do (dictionary_UInt64 D properties kUSBHostMatchingPropertyPortType = kIOUSBHostPortTypeInternal D)
       (emit (OSDictionarySet dict kIOHIDBuiltInKey (OSBoolean True)))
   }"

text \<open>
  The body up to \<^verbatim>\<open>Exit\<close>: the dictionary, and the properties, the device descriptor
  and the device as far as they have been copied.
\<close>
definition newDeviceDescription_body ::
    "description_api \<Rightarrow> ('z input_state_scheme, ref ptr \<times> ref ptr \<times> ref ptr \<times> ref ptr) state" where
  "newDeviceDescription_body D = do {
     q \<leftarrow> iv None interface;
     case q of
       None \<Rightarrow> return (None, None, None, None)
     | Some i \<Rightarrow> do {
         properties \<leftarrow> invoke (Interface_CopyProperties i) (on_Interface_CopyProperties D i);
         case properties of
           None \<Rightarrow> return (None, None, None, None)
         | Some p \<Rightarrow> do {
             device \<leftarrow> invoke (Interface_CopyDevice i) (on_CopyDevice D i);
             case device of
               None \<Rightarrow> return (None, properties, None, None)
             | Some dev \<Rightarrow> do {
                 descriptor \<leftarrow> invoke (Device_CopyDeviceDescriptor dev) (on_DeviceDescriptor D dev);
                 case descriptor of
                   None \<Rightarrow> return (None, properties, None, device)
                 | Some dd \<Rightarrow> do {
                     dict \<leftarrow> invoke (OSDictionary_withCapacity 16) (on_withCapacity D 16);
                     (case dict of None \<Rightarrow> return () | Some d \<Rightarrow> newDeviceDescription_fill D d p dd);
                     return (dict, properties, Some (device_descriptor_ref dd), device)
                   }
               }
           }
       }
   }"

definition newDeviceDescription :: "description_api \<Rightarrow> ('z input_state_scheme, ref ptr) state" where
  "newDeviceDescription D = do {
     (dict, properties, descriptor, device) \<leftarrow> newDeviceDescription_body D;
     OSSafeRelease properties;
     free_descriptor_if descriptor;
     OSSafeRelease device;
     return dict
   }"

definition newReportDescriptor :: "description_api \<Rightarrow> ('z input_state_scheme, ref ptr) state" where
  "newReportDescriptor D =
     invoke (OSData_withBytesNoCopy ReportDescriptor REPORT_DESCRIPTOR_SIZE)
       (on_withBytesNoCopy D ReportDescriptor REPORT_DESCRIPTOR_SIZE)"

subsection \<open>What the strings say\<close>

definition string_units :: "u8 list \<Rightarrow> nat \<Rightarrow> u16 list" where
  "string_units bs n = map (\<lambda>k. u16_at bs (2 * k)) [0..<n]"

text \<open>The text of a descriptor: its units before the first zero, the low byte of each.\<close>
definition descriptor_text :: "u8 list \<Rightarrow> nat \<Rightarrow> u8 list" where
  "descriptor_text bs n = map ucast (takeWhile (\<lambda>w. w \<noteq> 0) (string_units bs n))"

text \<open>A string descriptor has the bytes its length announces.\<close>
definition string_complete :: "string_descriptor \<Rightarrow> bool" where
  "string_complete d \<longleftrightarrow> unat (bLength d) \<le> length (bString d) + 2"

subsection \<open>What the description says\<close>

text \<open>The entries that have been set in a dictionary, in order.\<close>
definition entry_of :: "ref \<Rightarrow> call \<Rightarrow> (dict_key \<times> dict_value) list" where
  "entry_of d c = (case c of OSDictionarySet d' k x \<Rightarrow> if d' = d then [(k, x)] else [] | _ \<Rightarrow> [])"

definition entries :: "ref \<Rightarrow> call list \<Rightarrow> (dict_key \<times> dict_value) list" where
  "entries d cs = concat (map (entry_of d) cs)"

definition fixed_entries ::
    "description_api \<Rightarrow> u32 \<Rightarrow> device_descriptor \<Rightarrow> (dict_key \<times> dict_value) list" where
  "fixed_entries D t dd =
     [(kIOHIDRegisterServiceKey, OSBoolean True),
      (Literal_key ''HIDDefaultBehavior'', OSBoolean True),
      (Literal_key ''AppleVendorSupported'', OSBoolean True),
      (kIOHIDReportIntervalKey, OSNumber (ucast t)),
      (kIOHIDVendorIDKey, OSNumber (ucast (USBToHost16 D (idVendor dd)))),
      (kIOHIDProductIDKey, OSNumber (ucast (USBToHost16 D (idProduct dd)))),
      (kIOHIDTransportKey, OSStringValue ''USB''),
      (kIOHIDVersionNumberKey, OSNumber (ucast (USBToHost16 D (bcdDevice dd)))),
      (kIOHIDCountryCodeKey, OSNumber 0),
      (kIOHIDRequestTimeoutKey, OSNumber 5000000),
      (kIOHIDPrimaryUsagePageKey, OSNumber 1),
      (kIOHIDPrimaryUsageKey, OSNumber 5)]"

definition object_entry :: "dict_key \<Rightarrow> ref ptr \<Rightarrow> (dict_key \<times> dict_value) list" where
  "object_entry k p = (case p of None \<Rightarrow> [] | Some r \<Rightarrow> [(k, OSObject r)])"

definition description_entries ::
    "description_api \<Rightarrow> u32 \<Rightarrow> ref \<Rightarrow> device_descriptor \<Rightarrow> ref ptr \<Rightarrow> ref ptr \<Rightarrow> ref ptr \<Rightarrow>
     (dict_key \<times> dict_value) list" where
  "description_entries D t properties dd m p n =
     fixed_entries D t dd @
     object_entry kIOHIDLocationIDKey (dictionary_value D properties kUSBHostPropertyLocationID) @
     object_entry kIOHIDManufacturerKey m @ object_entry kIOHIDProductKey p @
     object_entry kIOHIDSerialNumberKey n @
     (if dictionary_UInt64 D properties kUSBHostMatchingPropertyPortType = kIOUSBHostPortTypeInternal D
      then [(kIOHIDBuiltInKey, OSBoolean True)] else [])"

text \<open>
  A list of entries is the description of a device: an entry for a string is there only if the
  device has an index for it.
\<close>
definition describes ::
    "description_api \<Rightarrow> u32 \<Rightarrow> ref \<Rightarrow> device_descriptor \<Rightarrow> (dict_key \<times> dict_value) list \<Rightarrow> bool" where
  "describes D t properties dd es \<longleftrightarrow>
     (\<exists>m p n. (iManufacturer dd = 0 \<longrightarrow> m = None) \<and> (iProduct dd = 0 \<longrightarrow> p = None) \<and>
        (iSerialNumber dd = 0 \<longrightarrow> n = None) \<and> es = description_entries D t properties dd m p n)"

text \<open>Every string descriptor the framework gives is as long as it says.\<close>
definition strings_complete :: "description_api \<Rightarrow> bool" where
  "strings_complete D \<longleftrightarrow>
     (\<forall>i k l h d. on_CopyStringDescriptor D i k l h = Some d \<longrightarrow> string_complete d)"

lemma entries_append [simp]: "entries d (xs @ ys) = entries d xs @ entries d ys"
  by (simp add: entries_def)

lemma entries_Nil [simp]: "entries d [] = []"
  by (simp add: entries_def)

lemma entries_Cons [simp]: "entries d (c # cs) = entry_of d c @ entries d cs"
  by (simp add: entries_def)

lemma entry_of_simps [simp]:
  "entry_of d (OSDictionarySet d k x) = [(k, x)]" "entry_of d (release r) = []"
  "entry_of d (IOUSBHostFreeDescriptor r) = []" "entry_of d (OSStringCreate t q) = []"
  "entry_of d (Interface_CopyStringDescriptor i k' l sd) = []"
  "entry_of d (Interface_CopyProperties i q) = []" "entry_of d (Interface_CopyDevice i q) = []"
  "entry_of d (Device_CopyDeviceDescriptor e dd) = []" "entry_of d (OSDictionary_withCapacity c q) = []"
  by (simp_all add: entry_of_def)

lemma entries_releases [simp]:
  "entries d (map release rs) = []" "entries d (map IOUSBHostFreeDescriptor rs) = []"
  by (induction rs) simp_all

subsection \<open>Reading a string\<close>

lemma string_loop_wp:
  assumes "2 * (index + left) \<le> length bs" "index + left \<le> length result"
  shows "wp (CopyStringAtIndex_loop bs index left result)
    (\<lambda>(ix, res) s'. s' = s \<and>
       take ix res = take index result @
         map ucast (takeWhile (\<lambda>w. w \<noteq> 0) (map (\<lambda>k. u16_at bs (2 * k)) [index..<index + left]))) s"
  using assms
proof (induction left arbitrary: index result)
  case 0
  then show ?case by (simp add: wp_simps)
next
  case (Suc left)
  have range: "[index..<index + Suc left] = index # [Suc index..<Suc index + left]"
    by (simp add: upt_conv_Cons)
  show ?case
  proof (cases "u16_at bs (2 * index) = 0")
    case True
    with Suc.prems show ?thesis
      unfolding range by (simp add: wp_simps Let_def)
  next
    case False
    let ?res = "result[index := ucast (u16_at bs (2 * index))]"
    have "take (Suc index) ?res = take index result @ [ucast (u16_at bs (2 * index))]"
      using Suc.prems by (simp add: take_Suc_conv_app_nth)
    moreover have "wp (CopyStringAtIndex_loop bs (Suc index) left ?res)
      (\<lambda>(ix, res) s'. s' = s \<and> take ix res = take (Suc index) ?res @
         map ucast (takeWhile (\<lambda>w. w \<noteq> 0) (map (\<lambda>k. u16_at bs (2 * k)) [Suc index..<Suc index + left]))) s"
      using Suc.prems by (intro Suc.IH) simp_all
    ultimately show ?thesis
      using False Suc.prems unfolding range by (simp add: wp_simps Let_def del: upt_Suc)
  qed
qed

lemma text_units: "unat ((bLength d - descriptorHeaderSize) div 2) = (unat (bLength d) - 2) div 2"
  if "\<not> bLength d < descriptorHeaderSize"
  using that by (simp add: descriptorHeaderSize_def unat_div unat_sub_if_size word_less_nat_alt)

definition text_of :: "string_descriptor \<Rightarrow> u8 list" where
  "text_of d = descriptor_text (bString d) ((unat (bLength d) - 2) div 2)"

text \<open>The calls of one reading of a string, from the descriptor and the string object it gave.\<close>
definition string_calls :: "ref \<Rightarrow> u8 \<Rightarrow> u16 \<Rightarrow> string_descriptor ptr \<Rightarrow> ref ptr \<Rightarrow> call list" where
  "string_calls i k l sd ret =
     [Interface_CopyStringDescriptor i k l sd] @
     (case sd of None \<Rightarrow> []
      | Some d \<Rightarrow> (if 2 \<le> unat (bLength d) then [OSStringCreate (text_of d) ret] else []) @
          [IOUSBHostFreeDescriptor (string_descriptor_ref d)])"

lemma text_loop_wp:
  assumes "string_complete d" "\<not> bLength d < descriptorHeaderSize"
  shows "wp (CopyStringAtIndex_loop (bString d) 0 (unat ((bLength d - descriptorHeaderSize) div 2))
      (replicate 256 0)) (\<lambda>(ix, res) s'. s' = s \<and> take ix res = text_of d) s"
proof -
  have "unat (bLength d) < 256" using unsigned_less [of "bLength d"] by simp
  with assms show ?thesis
    unfolding text_units [OF assms(2)] text_of_def descriptor_text_def string_units_def
    by (intro wp_mono [OF string_loop_wp]) (auto simp: string_complete_def)
qed

lemma CopyStringAtIndex_calls:
  assumes D: "strings_complete D" and v: "ivars s = Some v" "interface v = Some i"
  shows "wp (CopyStringAtIndex D k l) (\<lambda>ret s'. ivars s' = ivars s \<and> ub s' = ub s \<and>
      (if k = 0 then ret = None \<and> calls s' = calls s
       else \<exists>sd. calls s' = calls s @ string_calls i k l sd ret \<and>
         (case sd of None \<Rightarrow> ret = None | Some d \<Rightarrow> unat (bLength d) < 2 \<longrightarrow> ret = None))) s"
proof -
  have short: "bLength d < descriptorHeaderSize \<longleftrightarrow> unat (bLength d) < 2" for d
    by (simp add: descriptorHeaderSize_def word_less_nat_alt)
  have chars: "wp (CopyStringAtIndex_loop (bString d) 0 (unat ((bLength d - descriptorHeaderSize) div 2))
      (replicate 256 0)) (\<lambda>(ix, res) s'. s' = t \<and> take ix res = text_of d) t"
    if "on_CopyStringDescriptor D i k l (calls s) = Some d" "\<not> unat (bLength d) < 2" for d t
    by (rule text_loop_wp) (use D that in \<open>auto simp: strings_complete_def short\<close>)
  show ?thesis
    using v
    by (auto simp: CopyStringAtIndex_def wp_simps short string_calls_def
        intro!: wp_mono [OF chars] exI [of _ "on_CopyStringDescriptor D i k l (calls s)"]
        split: option.split)
qed

text \<open>What a client of \<^verbatim>\<open>CopyStringAtIndex\<close> needs to know.\<close>
lemma CopyStringAtIndex_wp:
  assumes D: "strings_complete D" and v: "ivars s = Some v" "interface v = Some i"
  shows "wp (CopyStringAtIndex D k l) (\<lambda>ret s'. ivars s' = Some v \<and> ub s' = ub s \<and>
      (\<forall>d. entries d (calls s') = entries d (calls s)) \<and> (k = 0 \<longrightarrow> ret = None) \<and>
      (\<forall>r. balance r (calls s') = balance r (calls s) + int (count_list (ptr_refs ret) r))) s"
  by (rule wp_mono [OF CopyStringAtIndex_calls [OF assms]])
    (auto simp: v string_calls_def owner_simps split: if_splits option.splits)

lemma set_string_wp:
  assumes D: "strings_complete D" and v: "ivars s = Some v" "interface v = Some i"
  shows "wp (set_string D d key k) (\<lambda>_ s'. ivars s' = Some v \<and> ub s' = ub s \<and>
      (\<exists>q. (k = 0 \<longrightarrow> q = None) \<and> entries d (calls s') = entries d (calls s) @ object_entry key q) \<and>
      (\<forall>r. balance r (calls s') = balance r (calls s))) s"
  unfolding set_string_def wp_bind
  by (rule wp_mono [OF CopyStringAtIndex_wp [OF assms]])
    (auto simp: wp_simps object_entry_def owner_simps split: option.split intro: exI [of _ None])

subsection \<open>The whole description\<close>

definition set_calls :: "ref \<Rightarrow> (dict_key \<times> dict_value) list \<Rightarrow> call list" where
  "set_calls d es = map (\<lambda>(k, x). OSDictionarySet d k x) es"

lemma entries_set_calls [simp]: "entries d (set_calls d es) = es"
  by (induction es) (auto simp: set_calls_def)

lemma balance_set_calls [simp]: "balance r (set_calls d es) = 0"
  by (induction es) (auto simp: set_calls_def owner_simps)

lemma wp_set_numbers:
  assumes "ivars s = Some v"
  shows "wp (set_numbers D d dd) Q s =
    Q () (s\<lparr>calls := calls s @ set_calls d (fixed_entries D (interval (inPipe v)) dd)\<rparr>)"
proof -
  have "ReportDescriptor ! 1 = 1" "ReportDescriptor ! 3 = 5" by (simp_all add: ReportDescriptor_def)
  with assms show ?thesis
    by (simp add: set_numbers_def wp_simps set_calls_def fixed_entries_def
        kUSBHostClassRequestCompletionTimeout_def)
qed

lemma fill_wp:
  fixes s :: "'z input_state_scheme"
  assumes D: "strings_complete D" and v: "ivars s = Some v" "interface v = Some i"
  shows "wp (newDeviceDescription_fill D d properties dd) (\<lambda>_ s'. ivars s' = Some v \<and> ub s' = ub s \<and>
      (\<exists>es. describes D (interval (inPipe v)) properties dd es \<and>
        entries d (calls s') = entries d (calls s) @ es) \<and>
      (\<forall>r. balance r (calls s') = balance r (calls s))) s"
proof -
  let ?loc = "dictionary_value D properties kUSBHostPropertyLocationID"
  define t where "t = s\<lparr>calls := calls s @ set_calls d (fixed_entries D (interval (inPipe v)) dd) @
     set_calls d (object_entry kIOHIDLocationIDKey ?loc)\<rparr>"
  have t: "ivars t = Some v" "ub t = ub s" "\<And>r. balance r (calls t) = balance r (calls s)"
    "entries d (calls t) = entries d (calls s) @ fixed_entries D (interval (inPipe v)) dd @
       object_entry kIOHIDLocationIDKey ?loc"
    using v by (simp_all add: t_def)
  let ?rest = "do {
     set_string D d kIOHIDManufacturerKey (iManufacturer dd);
     set_string D d kIOHIDProductKey (iProduct dd);
     set_string D d kIOHIDSerialNumberKey (iSerialNumber dd);
     when_do (dictionary_UInt64 D properties kUSBHostMatchingPropertyPortType = kIOUSBHostPortTypeInternal D)
       (emit (OSDictionarySet d kIOHIDBuiltInKey (OSBoolean True))) }"
  have "wp (newDeviceDescription_fill D d properties dd) Q s = wp ?rest Q t"
    for Q :: "unit \<Rightarrow> 'z input_state_scheme \<Rightarrow> bool"
    using v(1)
    by (cases ?loc) (simp_all add: newDeviceDescription_fill_def wp_bind wp_set_numbers wp_emit wp_return
        t_def object_entry_def set_calls_def)
  then show ?thesis
    unfolding wp_bind
    apply (simp add: describes_def)
    apply (rule wp_mono [OF set_string_wp [OF D t(1) v(2)]], elim exE conjE)
    subgoal for _ s1 m
      apply (rule wp_mono [OF set_string_wp [OF D _ v(2), where s = s1]], assumption, elim exE conjE)
      subgoal for _ s2 p
        apply (rule wp_mono [OF set_string_wp [OF D _ v(2), where s = s2]], assumption, elim exE conjE)
        subgoal for _ s3 n
          by (cases "dictionary_UInt64 D properties kUSBHostMatchingPropertyPortType = kIOUSBHostPortTypeInternal D";
              simp add: wp_simps owner_simps t description_entries_def describes_def;
              rule exI [of _ m], simp, rule exI [of _ p], simp, rule exI [of _ n], simp)
        done
      done
    done
qed

text \<open>The answers that lead to a dictionary: the properties and the device descriptor.\<close>
definition description_source :: "description_api \<Rightarrow> ref ptr \<Rightarrow> call list \<Rightarrow> (ref \<times> device_descriptor) option" where
  "description_source D q h = do {
     i \<leftarrow> q;
     p \<leftarrow> on_Interface_CopyProperties D i h;
     dev \<leftarrow> on_CopyDevice D i (h @ [Interface_CopyProperties i (Some p)]);
     dd \<leftarrow> on_DeviceDescriptor D dev
       (h @ [Interface_CopyProperties i (Some p), Interface_CopyDevice i (Some dev)]);
     Some (p, dd)
   }"

text \<open>
  Balanced accounts of \<^verbatim>\<open>newDeviceDescription\<close>, and what it says when it gives a
  dictionary.
\<close>
lemma newDeviceDescription_wp:
  fixes s :: "'z input_state_scheme"
  assumes D: "strings_complete D" and v: "ivars s = Some v"
  shows "wp (newDeviceDescription D) (\<lambda>ret s'. ivars s' = Some v \<and> ub s' = ub s \<and>
      (\<forall>r. balance r (calls s') = balance r (calls s) + int (count_list (ptr_refs ret) r)) \<and>
      (\<forall>d. ret = Some d \<longrightarrow> (\<exists>properties dd es.
         description_source D (interface v) (calls s) = Some (properties, dd) \<and>
         describes D (interval (inPipe v)) properties dd es \<and>
         entries d (calls s') = entries d (calls s) @ es))) s"
  using v
  by (auto simp: newDeviceDescription_def newDeviceDescription_body_def wp_simps owner_simps
      description_source_def intro!: wp_mono [OF fill_wp [OF D]] split: option.split)

end
