(* ===== verification/Client_Tester.thy ===== *)
theory Client_Tester
  imports Dext_Prelude
begin

text \<open>
  \<^verbatim>\<open>UserClientTester/main.cpp\<close>: the program that looks for the driver among the
  services of the system, connects to the first that lets it, and makes one licensing call.
  Handles are 32-bit port names, 0 being the null object.  The search goes on until the iterator
  is exhausted or a service opens; nothing in the code bounds it, so the loop is a partial
  function and \<open>None\<close> is a search that never ends.  What is printed is not modelled.
\<close>

datatype tester_call =
    IOServiceGetMatchingServices string "kern_return \<times> u32"
  | IOIteratorNext u32 u32
  | IOServiceOpen u32 u32 "kern_return \<times> u32"
  | IOObjectRelease u32
  | IOConnectCallScalarMethod u32 u32 "u64 list" u32 u32 "kern_return \<times> u64 list \<times> u32"

record tester_api =
  on_GetMatching :: "string \<Rightarrow> u32 \<Rightarrow> tester_call list \<Rightarrow> kern_return \<times> u32"
  on_Next :: "u32 \<Rightarrow> tester_call list \<Rightarrow> u32"
  on_ServiceOpen :: "u32 \<Rightarrow> u32 \<Rightarrow> u32 \<Rightarrow> tester_call list \<Rightarrow> kern_return \<times> u32"
  on_CallScalar :: "u32 \<Rightarrow> u32 \<Rightarrow> u64 list \<Rightarrow> u32 \<Rightarrow> u64 list \<Rightarrow> u32 \<Rightarrow> tester_call list \<Rightarrow>
    kern_return \<times> u64 list \<times> u32"
  kIOHIDServerConnectType :: u32

type_synonym tester_state = "tester_call world"

definition IO_OBJECT_NULL :: u32 where
  "IO_OBJECT_NULL = 0"

definition EXIT_FAILURE :: int where
  "EXIT_FAILURE = 1"

definition dextIdentifier :: string where
  "dextIdentifier = ''XboxOneInputInterface''"

text \<open>
  One round of the search with a service in hand: \<open>Some connection\<close> to leave the loop with
  the service open.
\<close>
definition try_service :: "tester_api \<Rightarrow> u32 \<Rightarrow> u32 \<Rightarrow> (tester_state, u32 option \<times> u32) state" where
  "try_service T service connection = do {
     (ret, connection) \<leftarrow> invoke (IOServiceOpen service (kIOHIDServerConnectType T))
       (on_ServiceOpen T service (kIOHIDServerConnectType T) connection);
     if ret = kIOReturnSuccess then return (Some service, connection)
     else do {
       emit (IOObjectRelease service);
       return (None, connection)
     }
   }"

text \<open>The service the loop ends with (null if there is none), and the connection.\<close>
partial_function (option) search_loop ::
    "tester_api \<Rightarrow> u32 \<Rightarrow> u32 \<Rightarrow> tester_state \<Rightarrow> ((u32 \<times> u32) \<times> tester_state) option" where
  "search_loop T iterator connection s =
     (let (service, s1) = run_state (invoke (IOIteratorNext iterator) (on_Next T iterator)) s
      in if service = IO_OBJECT_NULL then Some ((IO_OBJECT_NULL, connection), s1)
         else let ((found, connection), s2) = run_state (try_service T service connection) s1
              in case found of
                   Some sv \<Rightarrow> Some ((sv, connection), s2)
                 | None \<Rightarrow> search_loop T iterator connection s2)"

definition search :: "tester_api \<Rightarrow> u32 \<Rightarrow> u32 \<Rightarrow> (tester_state, (u32 \<times> u32) option) state" where
  "search T iterator connection = State (\<lambda>s. case search_loop T iterator connection s of
     None \<Rightarrow> (None, s) | Some (r, s') \<Rightarrow> (Some r, s'))"

text \<open>The exit code; \<open>None\<close> if the program never ends.\<close>
definition tester_main :: "tester_api \<Rightarrow> (tester_state, int option) state" where
  "tester_main T = do {
     (ret, iterator) \<leftarrow> invoke (IOServiceGetMatchingServices dextIdentifier)
       (on_GetMatching T dextIdentifier IO_OBJECT_NULL);
     r \<leftarrow> search T iterator IO_OBJECT_NULL;
     case r of
       None \<Rightarrow> return None
     | Some (service, connection) \<Rightarrow> do {
         emit (IOObjectRelease iterator);
         if service = IO_OBJECT_NULL then return (Some EXIT_FAILURE)
         else do {
           _ \<leftarrow> invoke (IOConnectCallScalarMethod connection 1 [of_bool True] 1 1)
             (on_CallScalar T connection 1 [of_bool True] 1 [0] 1);
           return (Some 0)
         }
       }
   }"

subsection \<open>Iterators\<close>

definition nexts :: "u32 \<Rightarrow> tester_call list \<Rightarrow> nat" where
  "nexts it h = length (filter (\<lambda>c. case c of IOIteratorNext i r \<Rightarrow> i = it | _ \<Rightarrow> False) h)"

text \<open>The iterator gives the services of a list, one after the other, and then null.\<close>
definition iterates :: "tester_api \<Rightarrow> u32 \<Rightarrow> u32 list \<Rightarrow> bool" where
  "iterates T it services \<longleftrightarrow> IO_OBJECT_NULL \<notin> set services \<and>
     (\<forall>h. on_Next T it h = (if nexts it h < length services then services ! nexts it h else IO_OBJECT_NULL))"

text \<open>The search over a known list of services.\<close>
fun search_list :: "tester_api \<Rightarrow> u32 \<Rightarrow> u32 list \<Rightarrow> u32 \<Rightarrow> (tester_state, u32 \<times> u32) state" where
  "search_list T it [] connection = do {
     emit (IOIteratorNext it IO_OBJECT_NULL);
     return (IO_OBJECT_NULL, connection)
   }"
| "search_list T it (sv # svs) connection = do {
     emit (IOIteratorNext it sv);
     (found, connection) \<leftarrow> try_service T sv connection;
     case found of Some sv \<Rightarrow> return (sv, connection) | None \<Rightarrow> search_list T it svs connection
   }"

text \<open>
  Handles of services that a list of calls has opened, and the calls made on connections: the
  connection, the selector, the inputs and the number of outputs.
\<close>
definition opened :: "tester_call list \<Rightarrow> (u32 \<times> u32) list" where
  "opened cs = concat (map (\<lambda>c. case c of
     IOServiceOpen sv t (ret, conn) \<Rightarrow> if ret = kIOReturnSuccess then [(sv, conn)] else [] | _ \<Rightarrow> []) cs)"

definition scalar_calls :: "tester_call list \<Rightarrow> (u32 \<times> u32 \<times> u64 list \<times> u32) list" where
  "scalar_calls cs = concat (map (\<lambda>c. case c of
     IOConnectCallScalarMethod conn sel inp n m x \<Rightarrow> [(conn, sel, inp, m)] | _ \<Rightarrow> []) cs)"

lemma nexts_simps [simp]:
  "nexts it [] = 0" "nexts it (xs @ ys) = nexts it xs + nexts it ys"
  "nexts it [IOIteratorNext it r] = 1" "nexts it [IOServiceOpen sv t x] = 0"
  "nexts it [IOServiceOpen sv t x, IOObjectRelease sv'] = 0"
  "nexts it [IOIteratorNext it r, IOServiceOpen sv t x, IOObjectRelease sv'] = 1"
  by (simp_all add: nexts_def)

lemma opened_simps [simp]: "opened [] = []" "opened (xs @ ys) = opened xs @ opened ys"
  "opened (IOServiceOpen sv t (ret, conn) # cs) =
     (if ret = kIOReturnSuccess then [(sv, conn)] else []) @ opened cs"
  "opened (IOIteratorNext it r # cs) = opened cs" "opened (IOObjectRelease r # cs) = opened cs"
  "opened (IOServiceGetMatchingServices k x # cs) = opened cs"
  "opened (IOConnectCallScalarMethod c sel inp n m y # cs) = opened cs"
  by (simp_all add: opened_def)

lemma scalar_calls_simps [simp]: "scalar_calls [] = []"
  "scalar_calls (xs @ ys) = scalar_calls xs @ scalar_calls ys"
  "scalar_calls (IOServiceOpen sv t z # cs) = scalar_calls cs"
  "scalar_calls (IOIteratorNext it r # cs) = scalar_calls cs"
  "scalar_calls (IOObjectRelease r # cs) = scalar_calls cs"
  "scalar_calls (IOServiceGetMatchingServices k x # cs) = scalar_calls cs"
  "scalar_calls (IOConnectCallScalarMethod c sel inp n m y # cs) = (c, sel, inp, m) # scalar_calls cs"
  by (simp_all add: scalar_calls_def)

text \<open>On an iterator that is exhausted some time, the loop ends with the result of the list.\<close>
lemma search_loop_list:
  assumes it: "iterates T it services" and k: "nexts it (calls s) + length svs = length services"
    "svs = drop (nexts it (calls s)) services"
  shows "search_loop T it connection s = Some (run_state (search_list T it svs connection) s)"
  using k
proof (induction svs arbitrary: s connection)
  case Nil
  have "on_Next T it (calls s) = IO_OBJECT_NULL"
    using it Nil by (simp add: iterates_def)
  then show ?case by (subst search_loop.simps) simp
next
  case (Cons sv svs)
  from Cons.prems(1) have lt: "nexts it (calls s) < length services" by simp
  with Cons.prems(2) have sv: "services ! nexts it (calls s) = sv"
    "svs = drop (Suc (nexts it (calls s))) services"
    by (simp_all add: Cons_nth_drop_Suc [symmetric])
  from it lt sv have nx: "on_Next T it (calls s) = sv" "sv \<noteq> IO_OBJECT_NULL"
    using nth_mem [OF lt] by (auto simp: iterates_def)
  let ?s = "s\<lparr>calls := calls s @ [IOIteratorNext it sv]\<rparr>"
  obtain ret conn where rc: "on_ServiceOpen T sv (kIOHIDServerConnectType T) connection (calls ?s) = (ret, conn)"
    by fastforce
  show ?case
    using nx rc Cons.IH [where connection = conn] Cons.prems(1) sv(2)
    by (subst search_loop.simps) (simp add: try_service_def)
qed

lemma search_list_wp:
  assumes "IO_OBJECT_NULL \<notin> set svs"
  shows "wp (search_list T it svs connection) (\<lambda>(sv, conn) s'. \<exists>new. calls s' = calls s @ new \<and> ub s' = ub s \<and>
     scalar_calls new = [] \<and> set (map fst (opened new)) \<subseteq> set svs \<and>
     opened new = (if sv = IO_OBJECT_NULL then [] else [(sv, conn)])) s"
  using assms
proof (induction svs arbitrary: s connection)
  case Nil
  then show ?case by (simp add: wp_simps)
next
  case (Cons sv svs)
  let ?s = "s\<lparr>calls := calls s @ [IOIteratorNext it sv]\<rparr>"
  obtain ret conn where rc: "on_ServiceOpen T sv (kIOHIDServerConnectType T) connection (calls ?s) = (ret, conn)"
    by fastforce
  show ?case
  proof (cases "ret = kIOReturnSuccess")
    case True
    with Cons.prems rc show ?thesis by (auto simp: wp_simps try_service_def)
  next
    case False
    let ?t = "?s\<lparr>calls := calls ?s @ [IOServiceOpen sv (kIOHIDServerConnectType T) (ret, conn),
      IOObjectRelease sv]\<rparr>"
    have "wp (search_list T it svs conn) (\<lambda>(sv, conn) s'. \<exists>new. calls s' = calls ?t @ new \<and> ub s' = ub ?t \<and>
       scalar_calls new = [] \<and> set (map fst (opened new)) \<subseteq> set svs \<and>
       opened new = (if sv = IO_OBJECT_NULL then [] else [(sv, conn)])) ?t"
      using Cons.prems by (intro Cons.IH) simp
    with False rc show ?thesis
      by (auto simp: wp_simps try_service_def elim!: wp_mono)
  qed
qed

lemma search_eq_list:
  assumes "iterates T it services" "nexts it (calls s) = 0"
  shows "wp (search T it connection) Q s = wp (search_list T it services connection) (\<lambda>r. Q (Some r)) s"
  using search_loop_list [OF assms(1), of s services] assms(2)
  by (simp add: search_def wp_def split: prod.split)

end
