(* ===== verification/Sample_Frameworks.thy ===== *)
theory Sample_Frameworks
  imports System_Ownership Core_Interface Device Input_Description Client_Tester
begin

text \<open>
  Concrete answers of the frameworks, and concrete states of the driver: a system in which every
  call succeeds, with one controller that has an IN and an OUT interrupt endpoint of 64 bytes.
  The properties hold for all answers that keep the documented laws; these ones show that the laws
  can be kept and give the inputs at which properties are applied.
\<close>

definition sample_comm :: comm_api where
  "sample_comm = \<lparr>DEBUG = False, on_Pipe_IO = (\<lambda>p bs n h. (kIOReturnSuccess, n)),
     on_AsyncIO = (\<lambda>p b n a h. kIOReturnSuccess), on_handleReport = (\<lambda>t bs n h. kIOReturnSuccess)\<rparr>"

text \<open>Endpoint 1 is the IN endpoint, endpoint 2 the OUT endpoint; the interface is object 10.\<close>
fun sample_next :: "ref ptr \<Rightarrow> ref ptr" where
  "sample_next None = Some 1"
| "sample_next (Some n) = (if n = 1 then Some 2 else None)"

definition sample_startup :: startup_api where
  "sample_startup =
     \<lparr>on_super_init = (\<lambda>h. True), on_IONewZero = (\<lambda>h. True),
      on_super_Start = (\<lambda>p h. kIOReturnSuccess), on_super_Stop = (\<lambda>p h. kIOReturnSuccess),
      on_super_handleStart = (\<lambda>p h. True), on_RegisterService = (\<lambda>h. kIOReturnSuccess),
      is_IOUSBHostInterface = (\<lambda>r. r = 10),
      on_CopyConfigurationDescriptor = (\<lambda>i h. Some 11),
      on_GetInterfaceDescriptor = (\<lambda>i c h. Some \<lparr>interface_descriptor_ref = 12, bInterfaceNumber = 0\<rparr>),
      on_Interface_Open = (\<lambda>i h. kIOReturnSuccess),
      next_endpoint = (\<lambda>cd ifd e. sample_next e),
      endpoint_type = (\<lambda>e. kIOUSBEndpointTypeInterrupt),
      endpoint_direction = (\<lambda>e. if e = 1 then kIOUSBEndpointDirectionIn else kIOUSBEndpointDirectionOut),
      endpoint_address = (\<lambda>e. of_nat e),
      endpoint_interval = (\<lambda>sp d. 4), endpoint_max_packet = (\<lambda>sp d. 64),
      on_CopyPipe = (\<lambda>i a old h. (kIOReturnSuccess, Some (20 + unat a))),
      on_GetSpeed = (\<lambda>p old h. (kIOReturnSuccess, 2)),
      on_CreateIOBuffer = (\<lambda>i n old h. (kIOReturnSuccess, Some (30 + length h))),
      on_Map = (\<lambda>b old h. case buffer_capacity b h of
         None \<Rightarrow> (kIOReturnSuccess, [], 0)
       | Some n \<Rightarrow> (kIOReturnSuccess, replicate (unat n) 0, n)),
      on_CopyProperties = (\<lambda>h. (kIOReturnSuccess, Some 14)),
      property_UInt64 = (\<lambda>p k. 64),
      on_CreateActionGotData = (\<lambda>n old h. (kIOReturnSuccess, Some 15))\<rparr>"

definition sample_pipe :: "ref \<Rightarrow> usb_pipe_data" where
  "sample_pipe r = \<lparr>pipe = Some r, speed = 2, interval = 4, reportSize = 64, maxPacketSize = 64,
     descriptor = None,
     memory = \<lparr>buffer = Some (r + 10), address = Some (replicate 64 0), mem_length = 64\<rparr>\<rparr>"

text \<open>The stored variables of an interface driver that runs, and of one before its start.\<close>
definition running_ivars :: XboxOneInputInterface_IVars where
  "running_ivars = \<lparr>interface = Some 10, configurationDescriptor = Some 11, interfaceDescriptor = Some 12,
     inPipe = sample_pipe 21, outPipe = sample_pipe 22, gotDataAction = Some 15, outCounter = 0,
     enabled = True\<rparr>"

definition new_ivars :: XboxOneInputInterface_IVars where
  "new_ivars = zeroed_ivars\<lparr>interface := Some 10, enabled := True\<rparr>"

definition running :: input_state where
  "running = \<lparr>calls = [], ub = [], ivars = Some running_ivars\<rparr>"

definition unstarted :: input_state where
  "unstarted = \<lparr>calls = [], ub = [], ivars = Some new_ivars\<rparr>"

definition connected :: client_state where
  "connected = \<lparr>calls = [], ub = [], ivars = Some running_ivars,
     client_ivars = Some \<lparr>inputInterface = Some 10\<rparr>, arguments = licence_arguments 0\<rparr>"

text \<open>The base class's dispatch, as its law has it.\<close>
definition sample_super :: external_method where
  "sample_super selector d target = State (\<lambda>s. case d of
     None \<Rightarrow> (kIOReturnNotFound, s)
   | Some x \<Rightarrow> (case dispatch_function x of
       None \<Rightarrow> (kIOReturnNotFound, s)
     | Some f \<Rightarrow> if accepts x (arguments s) then run_state (run_function f target) s
         else (kIOReturnBadArgument, s)))"

lemma sample_documented: "documented sample_startup"
  by (simp add: documented_def sample_startup_def split: option.split)

lemma sample_enumerates: "enumerates sample_next None [1, 2]"
  by simp

lemma sample_finite: "finite_endpoints sample_startup"
  using exI [of "enumerates sample_next None", OF sample_enumerates]
  by (simp add: finite_endpoints_def sample_startup_def)

lemma sample_untouched: "untouched_on_failure sample_startup"
  by (simp add: untouched_on_failure_def sample_startup_def)

lemma sample_one_per_slot: "one_endpoint_per_slot sample_startup"
proof -
  have "one_per_slot sample_startup [1, 2]"
    by (simp add: fills_def finds_def slot_of_def sample_startup_def)
  with sample_enumerates show ?thesis
    unfolding one_endpoint_per_slot_def by (auto simp: sample_startup_def intro: exI [of _ "[1, 2]"])
qed

lemma sample_dispatch_law: "dispatch_law sample_super"
  by (simp add: dispatch_law_def sample_super_def)

lemma running_ready: "comm_ready sample_comm running_ivars" "ivars running = Some running_ivars"
  by (simp_all add: comm_ready_def running_ivars_def sample_pipe_def pipe_ready_def mapped_def
      in_memory_def sample_comm_def running_def)

lemma unstarted_fresh: "fresh new_ivars" "ivars unstarted = Some new_ivars" "interface new_ivars = Some 10"
  "outCounter new_ivars = 0" "enabled new_ivars"
  by (simp_all add: fresh_def stored_def pipe_refs_def new_ivars_def zeroed_ivars_def default_pipe_def
      default_buffer_def unstarted_def)

lemma sample_answers:
  "on_super_handleStart sample_startup p h" "on_CopyConfigurationDescriptor sample_startup i h = Some 11"
  "on_GetInterfaceDescriptor sample_startup i c h = Some \<lparr>interface_descriptor_ref = 12, bInterfaceNumber = 0\<rparr>"
  "endpoint_type sample_startup e = kIOUSBEndpointTypeInterrupt"
  "endpoint_direction sample_startup e = (if e = 1 then kIOUSBEndpointDirectionIn else kIOUSBEndpointDirectionOut)"
  "endpoint_address sample_startup e = of_nat e"
  "endpoint_interval sample_startup sp d = 4" "endpoint_max_packet sample_startup sp d = 64"
  "on_CopyPipe sample_startup i a old h = (kIOReturnSuccess, Some (20 + unat a))"
  "on_GetSpeed sample_startup r b h = (kIOReturnSuccess, 2)"
  "on_CreateIOBuffer sample_startup i n old h = (kIOReturnSuccess, Some (30 + length h))"
  "on_Map sample_startup k m h = (case buffer_capacity k h of None \<Rightarrow> (kIOReturnSuccess, [], 0)
     | Some n \<Rightarrow> (kIOReturnSuccess, replicate (unat n) 0, n))"
  "on_CopyProperties sample_startup h = (kIOReturnSuccess, Some 14)"
  "property_UInt64 sample_startup q key = 64"
  "on_CreateActionGotData sample_startup n old h = (kIOReturnSuccess, Some 15)"
  "on_Pipe_IO sample_comm r bs w h = (kIOReturnSuccess, w)"
  "on_AsyncIO sample_comm r q w old h = kIOReturnSuccess"
  by (simp_all add: sample_startup_def sample_comm_def)

lemma sample_search: "wp (InitPipes sample_startup) Q s = wp (InitPipes_list sample_startup [1, 2]) (\<lambda>b. Q (Some b)) s"
  if "ivars s = Some v"
  by (rule InitPipes_eq_list [OF that]) (simp add: sample_startup_def)

subsection \<open>A system that starts\<close>

text \<open>The driver is object 7; a client gets the number 40 and the number of calls made before it.\<close>
definition sample_client :: client_api where
  "sample_client =
     \<lparr>on_super_init = (\<lambda>h. True), on_IONewZero = (\<lambda>h. True),
      on_super_Start = (\<lambda>p h. kIOReturnSuccess), on_super_Stop = (\<lambda>p h. kIOReturnSuccess),
      on_super_handleStart = (\<lambda>p h. True), on_RegisterService = (\<lambda>h. kIOReturnSuccess),
      is_XboxOneInputInterface = (\<lambda>r. r = 7), is_XboxOneUserClient = (\<lambda>r. 40 \<le> r)\<rparr>"

definition sample_create :: create_client where
  "sample_create k = do {
     _ \<leftarrow> XboxOneUserClient_init sample_client;
     _ \<leftarrow> XboxOneUserClient_Start sample_client (Some 7);
     invoke (Create_UserClient k) (\<lambda>h. (kIOReturnSuccess, Some (40 + length h)))
   }"

definition sample_base_start :: "ref ptr \<Rightarrow> (client_state, kern_return) state" where
  "sample_base_start p = do {
     r \<leftarrow> handleStart sample_startup sample_comm p;
     return (if r = Some True then kIOReturnSuccess else kIOReturnError)
   }"

definition sample_env :: environment where
  "sample_env = \<lparr>env_startup = sample_startup, env_comm = sample_comm, env_client = sample_client,
     env_Start = sample_base_start, env_ExternalMethod = sample_super, env_Create = sample_create,
     this_ref = 7, provider_ref = 10\<rparr>"

lemma sample_env_simps [simp]:
  "env_startup sample_env = sample_startup" "env_comm sample_env = sample_comm"
  "env_client sample_env = sample_client" "env_Start sample_env = sample_base_start"
  "env_ExternalMethod sample_env = sample_super" "env_Create sample_env = sample_create"
  "this_ref sample_env = 7" "provider_ref sample_env = 10"
  by (simp_all add: sample_env_def)

lemma sample_create_run:
  "run_state (sample_create k) s = ((kIOReturnSuccess, Some (44 + length (calls s))),
     s\<lparr>client_ivars := Some \<lparr>inputInterface = None\<rparr>, calls := calls s @
       [super_init True, IONewZero True, super_Start (Some 7) kIOReturnSuccess, RegisterService kIOReturnSuccess,
        Create_UserClient k (kIOReturnSuccess, Some (44 + length (calls s)))]\<rparr>)"
  by (simp add: sample_create_def XboxOneUserClient_init_def XboxOneUserClient_Start_def sample_client_def)

lemma sample_create_law: "create_law sample_client sample_create"
  by (auto simp: create_law_def sample_create_run sample_client_def aside_def actions_of_def owner_simps)

lemma sample_base_start_law: "base_start_law sample_startup sample_comm sample_base_start"
proof -
  have "aside (\<lambda>r. 0) 0 []" by (simp add: aside_def)
  then show ?thesis
    by (auto simp: base_start_law_def sample_base_start_def
        split: prod.splits if_splits intro!: exI [of _ "[]"])
qed

lemma sample_well_behaved: "well_behaved sample_env"
  using sample_documented sample_finite sample_base_start_law sample_dispatch_law sample_create_law
  by (simp add: well_behaved_def) (simp add: sample_startup_def sample_client_def)

lemma sample_accountable: "accountable sample_env"
  using sample_untouched sample_one_per_slot by (simp add: accountable_def)

definition before_init :: client_state where
  "before_init = \<lparr>calls = [], ub = [], ivars = None, client_ivars = None, arguments = licence_arguments 0\<rparr>"

definition after_init :: client_state where
  "after_init = before_init\<lparr>ivars := Some (zeroed_ivars\<lparr>enabled := True\<rparr>),
     calls := [super_init True, IONewZero True]\<rparr>"

definition opened_driver :: client_state where
  "opened_driver = before_init\<lparr>ivars := Some (opened_ivars sample_env),
     calls := [super_init True, IONewZero True, Interface_Open 10 kIOReturnSuccess]\<rparr>"

lemma sample_handleStart:
  "wp (handleStart sample_startup sample_comm (Some 10)) (\<lambda>r s'. r = Some True \<and>
     (\<exists>v. ivars s' = Some v \<and> length (in_memory v) = 64)) opened_driver"
  by (simp add: handleStart_def handleStart_pipes_def handleStart_setup_def handleStart_listen_def handleStart_greet_def
    InitDescriptors_def sample_search InitPipes_round_def SetupPipes_def SetupPipes_in_def SetupPipes_out_def SetupPipe_def
    SendInterruptData_def RequestAsyncInterruptData_def set_out_memory_def in_memory_def memcpy_def sample_answers
    wp_simps opened_driver_def before_init_def opened_ivars_def zeroed_ivars_def default_pipe_def default_buffer_def slot_of_def)

lemma sample_opens:
  "run_state (XboxOneInputInterface_init sample_startup) before_init =
     (True, after_init)"
  "run_state (XboxOneInputInterface_Start sample_startup m (Some 10)) after_init =
   run_state (m (Some 10)) opened_driver"
  by (simp_all add: XboxOneInputInterface_init_def XboxOneInputInterface_Start_def set_iv_def set_member_def iv_def
      member_def before_init_def after_init_def opened_driver_def opened_ivars_def sample_startup_def)

text \<open>The sample system starts, with an IN buffer of 64 bytes.\<close>
lemma sample_system_starts:
  obtains \<sigma> v where "system_start sample_env \<sigma>" "ivars (drv \<sigma>) = Some v" "length (in_memory v) = 64"
    "phase \<sigma> = Running"
proof -
  obtain r s' where run: "run_state (handleStart sample_startup sample_comm (Some 10)) opened_driver = (r, s')"
    by fastforce
  from wp_run [OF sample_handleStart run] obtain v where
    v: "r = Some True" "ivars s' = Some v" "length (in_memory v) = 64" by auto
  have start: "run_state (sample_base_start (Some 10)) opened_driver = (kIOReturnSuccess, s')"
    using run v(1) by (simp add: sample_base_start_def)
  have "system_start sample_env \<lparr>drv = s', reads = reads_started (calls s'), phase = Running,
       clients = (\<lambda>c. None), handed_out = []\<rparr>"
    using start v
    by (intro started_up [where s = before_init and ?s1.0 = after_init and v = v])
      (simp_all add: sample_opens, simp_all add: before_init_def bytes_read_def sample_comm_def)
  from that [OF this] v show thesis by simp
qed

text \<open>Its first state is one of the system.\<close>
lemma sample_reachable:
  obtains \<sigma> v where "reachable (system_start sample_env) (system_step sample_env) \<sigma>" "system_start sample_env \<sigma>"
    "ivars (drv \<sigma>) = Some v" "length (in_memory v) = 64" "phase \<sigma> = Running"
  by (rule sample_system_starts) (blast intro: that reachable_start)

lemma sample_connects:
  assumes "phase \<sigma> = Running" "system_start sample_env \<sigma>"
  shows "\<exists>c w \<tau>. system_step sample_env \<sigma> Connect \<tau> \<and> clients \<tau> c = Some w"
proof -
  obtain ret u s' where run: "run_state (NewUserClient sample_client sample_create 7 None) ((drv \<sigma>)\<lparr>client_ivars := None\<rparr>) =
      ((ret, u), s')"
    by (metis prod.collapse)
  have "is_XboxOneUserClient sample_client (44 + n)" for n by (simp add: sample_client_def)
  with run have "ret = kIOReturnSuccess" by (auto simp: NewUserClient_def sample_create_run split: prod.splits)
  with connect_effect [OF sample_well_behaved, of "drv \<sigma>"] run obtain c w where
    c: "u = Some c" "client_ivars s' = Some w" by (auto simp: connects_def)
  have "clients \<sigma> c = None" using assms(2) by (auto elim: system_start.cases)
  with run c \<open>ret = kIOReturnSuccess\<close> assms(1)
  have "system_step sample_env \<sigma> Connect (\<sigma>\<lparr>drv := s', clients := (clients \<sigma>)(c := client_ivars s'),
       handed_out := c # handed_out \<sigma>\<rparr>)"
    by (intro system_step.connected) simp_all
  with c(2) show ?thesis by (intro exI [of _ c] exI [of _ w] exI conjI) (assumption, simp)
qed

end
