(* ===== verification/Lifecycle_Correctness.thy ===== *)
theory Lifecycle_Correctness
  imports Sample_Frameworks
begin

text \<open>
  Properties of the life of the driver objects: the start of the device driver and of the core
  interface driver, the stored variables from \<^verbatim>\<open>init\<close> to \<^verbatim>\<open>free\<close>, the
  shutdown of the input interface, and the references its start takes and its
  \<^verbatim>\<open>free\<close> gives back.
\<close>

subsection \<open>The device driver\<close>

definition sample_descriptor :: device_descriptor where
  "sample_descriptor = \<lparr>device_descriptor_ref = 2, bNumConfigurations = 1, idVendor = 0x45e,
     idProduct = 0x2ea, bcdDevice = 0x408, iManufacturer = 1, iProduct = 2, iSerialNumber = 0\<rparr>"

definition sample_device :: device_api where
  "sample_device =
     \<lparr>on_super_init = (\<lambda>h. True), on_IONewZero = (\<lambda>h. True),
      on_super_Start = (\<lambda>p h. kIOReturnSuccess), on_super_Stop = (\<lambda>p h. kIOReturnSuccess),
      on_super_handleStart = (\<lambda>p h. True), on_RegisterService = (\<lambda>h. kIOReturnSuccess),
      is_IOUSBHostDevice = (\<lambda>r. r = 1), on_Device_Open = (\<lambda>d h. kIOReturnSuccess),
      on_CopyDeviceDescriptor = (\<lambda>d h. Some sample_descriptor),
      on_CopyConfigurationDescriptorWithValue = (\<lambda>d v h. Some 3),
      on_SetConfiguration = (\<lambda>d v m h. kIOReturnSuccess)\<rparr>"

definition new_device :: device_state where
  "new_device = \<lparr>calls = [], ub = [], device_ivars = Some ()\<rparr>"

text \<open>
  C25. Whatever the frameworks answer, the start of the device driver gives back every descriptor it
  has copied, on every path, runs into no undefined behaviour and leaves its stored variables alone.
\<close>
theorem device_start_balanced:
  "wp (XboxOneDevice_Start A provider) (\<lambda>ret s'. (\<forall>r. balance r (calls s') = balance r (calls s)) \<and>
     device_ivars s' = device_ivars s \<and> ub s' = ub s) s"
  using wp_conj [OF Start_balance Start_ivars, of A provider s] by simp

text \<open>
  C24. The device driver publishes itself only at the end of a complete start: if the start registers
  the service, the provider is a USB device with at least one configuration, and the calls are
  exactly, in this order, the copy of the device descriptor, the opening of the device, the copy of
  the configuration descriptor, the activation of configuration 1, the base class's start, the
  registration and the release of the two descriptors.
\<close>
theorem device_registers_last:
  assumes "run_state (XboxOneDevice_Start A provider) s = (ret, s')"
    "calls s' = calls s @ new" "RegisterService x \<in> set new"
  shows "\<exists>device dd cd. provider = Some device \<and> bNumConfigurations dd \<noteq> 0 \<and>
    new = full_start_calls device dd cd ret"
  using wp_run [OF Start_registers assms(1)] assms(2,3) by auto

theorem device_registers_last_witness:
  "\<exists>device dd cd. Some 1 = Some device \<and> bNumConfigurations dd \<noteq> 0 \<and>
     calls (snd (run_state (XboxOneDevice_Start sample_device (Some 1)) new_device)) =
       full_start_calls device dd cd kIOReturnSuccess"
proof -
  let ?s' = "new_device\<lparr>calls := full_start_calls 1 sample_descriptor 3 kIOReturnSuccess\<rparr>"
  have run: "run_state (XboxOneDevice_Start sample_device (Some 1)) new_device = (kIOReturnSuccess, ?s')"
    by (simp add: Start_defs sample_device_def new_device_def full_start_calls_def sample_descriptor_def
        free_descriptor_if_def)
  show ?thesis
    using device_registers_last [OF run, of "calls ?s'" kIOReturnSuccess] run
    by (simp add: new_device_def full_start_calls_def)
qed

text \<open>
  A device without a device descriptor is reported as started: the start returns success
  although it has only asked for the descriptor, and nothing was opened, configured or registered.
\<close>
lemma device_start_silent_success:
  assumes "is_IOUSBHostDevice A device" "on_CopyDeviceDescriptor A device (calls s) = None"
  shows "run_state (XboxOneDevice_Start A (Some device)) s =
    (kIOReturnSuccess, s\<lparr>calls := calls s @ [Device_CopyDeviceDescriptor device None]\<rparr>)"
  using assms by (simp add: Start_defs free_descriptor_if_def)

text \<open>
  C34. The stored variables of the device driver live from \<^verbatim>\<open>init\<close> to
  \<^verbatim>\<open>free\<close>: whether or not the initialisation succeeds, after a start, a stop and
  \<^verbatim>\<open>free\<close> the pointer is null and every allocation has been deleted once.
\<close>
theorem device_lifetime:
  assumes "device_ivars s = None"
  shows "wp (do { ok \<leftarrow> XboxOneDevice_init A;
       _ \<leftarrow> do { _ \<leftarrow> XboxOneDevice_Start A provider; XboxOneDevice_Stop A provider };
       XboxOneDevice_free })
    (\<lambda>_ s'. device_ivars s' = None \<and> ivars_live (calls s') = ivars_live (calls s)) s"
proof -
  have "keeps_ivars (\<lambda>s. device_ivars s \<noteq> None) calls
      (do { _ \<leftarrow> XboxOneDevice_Start A provider; XboxOneDevice_Stop A provider })"
    by (intro keeps_ivars_bind Start_keeps_ivars Stop_keeps_ivars)
  from device.lifetime [OF _ this, of s A] assms show ?thesis
    unfolding not_not by blast
qed

theorem device_lifetime_witness:
  "wp (do { ok \<leftarrow> XboxOneDevice_init sample_device;
       _ \<leftarrow> do { _ \<leftarrow> XboxOneDevice_Start sample_device (Some 1); XboxOneDevice_Stop sample_device (Some 1) };
       XboxOneDevice_free })
    (\<lambda>_ s'. device_ivars s' = None \<and> ivars_live (calls s') = 0)
    \<lparr>calls = [], ub = [], device_ivars = None\<rparr>"
  using device_lifetime [of "\<lparr>calls = [], ub = [], device_ivars = None\<rparr>" sample_device "Some 1"] by simp

subsection \<open>The core interface driver\<close>

definition sample_core :: interface_api where
  "sample_core =
     \<lparr>on_super_init = (\<lambda>h. True), on_IONewZero = (\<lambda>h. True),
      on_super_Start = (\<lambda>p h. kIOReturnSuccess), on_super_Stop = (\<lambda>p h. kIOReturnSuccess),
      on_super_handleStart = (\<lambda>p h. True), on_RegisterService = (\<lambda>h. kIOReturnSuccess),
      is_IOUSBHostInterface = (\<lambda>r. r = 10), on_CopyConfigurationDescriptor = (\<lambda>i h. Some 11),
      on_GetInterfaceDescriptor = (\<lambda>i c h. Some \<lparr>interface_descriptor_ref = 12, bInterfaceNumber = 0\<rparr>)\<rparr>"

text \<open>
  C26. The core interface driver accepts only interface 0, the input interface, of a USB interface
  provider, and only if the base class accepts it too; it gives the configuration descriptor back
  whether it accepts or not.
\<close>
theorem core_accepts_input_only:
  assumes "core_ivars s = Some v"
  shows "wp (XboxOneInterface_handleStart A provider)
    (\<lambda>ok s'. ub s' = ub s \<and> (\<forall>r. balance r (calls s') = balance r (calls s)) \<and>
      (ok \<longrightarrow> (\<exists>i c x. provider = Some i \<and> bInterfaceNumber x = XboxOneInterfaceTypeInput \<and>
         calls s' = calls s @ [Interface_CopyConfigurationDescriptor i (Some c),
           Interface_GetInterfaceDescriptor i c (Some x), super_handleStart provider True,
           IOUSBHostFreeDescriptor c]))) s"
  using wp_conj [OF core_handleStart_balance [OF assms] core_handleStart_accepts [OF assms], of A provider]
  by simp

theorem core_accepts_input_only_witness:
  "wp (XboxOneInterface_handleStart sample_core (Some 10)) (\<lambda>ok s'. ok \<and> ub s' = [])
     \<lparr>calls = [], ub = [], core_ivars = Some zeroed_core_ivars\<rparr>"
proof -
  let ?s = "\<lparr>calls = [], ub = [], core_ivars = Some zeroed_core_ivars\<rparr> :: core_state"
  have "fst (run_state (XboxOneInterface_handleStart sample_core (Some 10)) ?s)"
    by (simp add: core_handleStart_defs sample_core_def set_member_def free_descriptor_if_def
        XboxOneInterfaceTypeInput_def)
  then show ?thesis
    using core_accepts_input_only [of ?s zeroed_core_ivars sample_core "Some 10"]
    by (auto simp: wp_def split: prod.splits)
qed

text \<open>
  The declared default of the interface type never holds: the stored variables are allocated
  with zero bytes, so a core interface driver that has just been initialised is of type input (0),
  not of type unknown (255).
\<close>
lemma core_type_zeroed:
  "wp (XboxOneInterface_init A) (\<lambda>ok s'. if ok then
      map_option interfaceType (core_ivars s') = Some XboxOneInterfaceTypeInput \<and>
      XboxOneInterfaceTypeInput \<noteq> XboxOneInterfaceTypeUnknown else True) s"
  by (auto simp: XboxOneInterface_init_def wp_simps zeroed_core_ivars_def XboxOneInterfaceTypeInput_def
      XboxOneInterfaceTypeUnknown_def)

subsection \<open>Shutdown of the input interface\<close>

text \<open>
  C27. Stopping: when there is a callback to cancel, the driver first holds on to itself and its
  provider, then cancels; when the cancellation is complete the base class is stopped, once, and
  both references are given back, so at no time is the object without an owner.  Without a
  callback the base class is stopped at once.
\<close>
theorem stop_sequence:
  assumes "ivars s = Some v"
  shows "wp (Stop_complete A this (Some p)) (\<lambda>ret s'. ub s' = ub s \<and> ivars s' = Some v \<and>
      (\<exists>x. calls s' = calls s @ (case gotDataAction v of
          None \<Rightarrow> [super_Stop (Some p) x]
        | Some a \<Rightarrow> [retain this, retain p, Action_Cancel a, super_Stop (Some p) x, release this, release p]))) s"
  using assms
  by (auto simp: Stop_complete_def XboxOneInputInterface_Stop_def Stop_finalize_def wp_simps
      split: option.split)

theorem stop_sequence_witness:
  "wp (Stop_complete sample_startup 7 (Some 10)) (\<lambda>ret s'. ub s' = [] \<and>
     (\<exists>x. calls s' = [retain 7, retain 10, Action_Cancel 15, super_Stop (Some 10) x, release 7, release 10]))
     running"
  by (rule wp_mono [OF stop_sequence [OF running_ready(2)]]) (auto simp: running_def running_ivars_def)

text \<open>
  C9. The references of the input interface: after a start and \<^verbatim>\<open>free\<close>, every
  reference the driver took has been given back exactly once if the start succeeded.  If the start
  failed, at whatever point, the account of the USB interface is one too low: the driver releases
  the interface, which it retains only at the very end of a successful start.
\<close>
theorem start_then_free_balance:
  assumes "untouched_on_failure A" "one_endpoint_per_slot A"
    "ivars s = Some v" "interface v = Some i" "fresh v"
  shows "wp (do { r \<leftarrow> handleStart A C provider; _ \<leftarrow> XboxOneInputInterface_free; return r })
    (\<lambda>r s'. r \<noteq> None \<and> (\<forall>x. balance x (calls s') = balance x (calls s) -
       (if r = Some False \<and> x = i then 1 else 0))) s"
  unfolding wp_bind
proof (rule wp_mono [OF handleStart_accounted [OF assms]])
  fix r t
  assume "case r of None \<Rightarrow> False | Some ok \<Rightarrow> \<exists>v'. interface v' = Some i \<and>
    accounted (\<lambda>x. balance x (calls s) + of_bool (ok \<and> x = i)) t v'"
  then obtain ok w where r: "r = Some ok" and w: "interface w = Some i" "ivars t = Some w"
    "\<And>x. balance x (calls t) = balance x (calls s) + of_bool (ok \<and> x = i) + int (count_list (stored w) x)"
    by (auto simp: accounted_def split: option.splits)
  have "wp XboxOneInputInterface_free (\<lambda>_ s'. \<forall>x. balance x (calls s') = balance x (calls t) -
      int (count_list (stored w @ ptr_refs (interface w)) x)) t"
    using free_balance [OF w(2)] by (auto simp: wp_def split: prod.splits)
  then show "wp XboxOneInputInterface_free (\<lambda>_. wp (return r) (\<lambda>r s'. r \<noteq> None \<and>
      (\<forall>x. balance x (calls s') = balance x (calls s) - (if r = Some False \<and> x = i then 1 else 0)))) t"
    by (rule wp_mono) (auto simp: wp_return r w)
qed

theorem start_then_free_balance_witness:
  "wp (do { r \<leftarrow> handleStart sample_startup sample_comm (Some 10); _ \<leftarrow> XboxOneInputInterface_free; return r })
    (\<lambda>r s'. r \<noteq> None \<and> (\<forall>x. balance x (calls s') = (if r = Some False \<and> x = 10 then - 1 else 0)))
    unstarted"
  by (rule wp_mono [OF start_then_free_balance [OF sample_untouched sample_one_per_slot
        unstarted_fresh(2,3,1)]])
    (auto simp: unstarted_def)

text \<open>
  \<^verbatim>\<open>init\<close> of the input interface: it succeeds exactly when the base class and the
  allocation do, and then the driver is enabled, its packet counter is 0 and it holds no reference.
\<close>
lemma input_init_state:
  "wp (XboxOneInputInterface_init A) (\<lambda>ok s'. ub s' = ub s \<and>
     ok = (on_super_init A (calls s) \<and> on_IONewZero A (calls s @ [super_init True])) \<and>
     (if ok then \<exists>v. ivars s' = Some v \<and> enabled v \<and> outCounter v = 0 \<and> fresh v \<and> interface v = None
      else True)) s"
  by (auto simp: XboxOneInputInterface_init_def wp_simps zeroed_ivars_def fresh_def stored_def pipe_refs_def
      default_pipe_def default_buffer_def)

text \<open>
  \<^verbatim>\<open>free\<close> of the input interface deletes the stored variables once, however often
  it runs: after \<^verbatim>\<open>init\<close> and two calls of \<^verbatim>\<open>free\<close> every allocation has
  been deleted and none twice.
\<close>
lemma input_free_idempotent:
  assumes "ivars s = None"
  shows "wp (do { _ \<leftarrow> XboxOneInputInterface_init A;
       _ \<leftarrow> XboxOneInputInterface_free; XboxOneInputInterface_free })
    (\<lambda>_ s'. ivars s' = None \<and> ivars_live (calls s') = ivars_live (calls s)) s"
  unfolding wp_bind
proof (rule wp_mono [OF input.init_law [of s A]])
  fix ok t
  assume t: "ok = (ivars t \<noteq> None) \<and>
    ivars_live (calls t) = ivars_live (calls s) + of_bool (ivars t \<noteq> None)"
  show "wp XboxOneInputInterface_free (\<lambda>_. wp XboxOneInputInterface_free
      (\<lambda>_ s'. ivars s' = None \<and> ivars_live (calls s') = ivars_live (calls s))) t"
    by (rule wp_mono [OF input.free_law]) (use t in \<open>auto intro!: wp_mono [OF input.free_law]\<close>)
qed (use assms in simp)

end
