(* ===== verification/Input_Correctness.thy ===== *)
theory Input_Correctness
  imports Sample_Frameworks
begin

text \<open>
  Properties of the input interface: its start, the search for the pipes and their set-up, the
  packets it sends and what its callback does with a packet that came in.
\<close>

subsection \<open>Start\<close>

text \<open>
  C8. \<^verbatim>\<open>handleStart\<close> ends, on any answers of the frameworks that keep their documentation
  and an endpoint list that ends, without undefined behaviour.  If it succeeds, both pipes have a
  mapped buffer of the endpoint's packet size, the callback object exists, and what it has done
  towards the controller is: the two start packets with consecutive numbers, if the OUT buffer has
  room for them, and then one read.  If it fails it has sent nothing and asked for nothing.
\<close>
theorem handleStart_ready:
  assumes "documented A" "finite_endpoints A" "ivars s = Some v" "interface v = Some i"
  shows "wp (handleStart A C provider) (\<lambda>r s'. \<exists>ok v'. r = Some ok \<and> ivars s' = Some v' \<and> ub s' = ub s \<and>
      enabled v' = enabled v \<and>
      (if ok then started v' \<and>
         actions (calls s') = actions (calls s) @ start_actions (outCounter v) (out_capacity v') \<and>
         outCounter v' = outCounter v + (if 5 \<le> out_capacity v' then 2 else 0)
       else actions (calls s') = actions (calls s))) s"
  by (rule wp_mono [OF handleStart_wp [OF assms]])
    (auto simp: start_post_def after_start_def split: option.splits)

theorem handleStart_ready_witness:
  "wp (handleStart sample_startup sample_comm (Some 10)) (\<lambda>r s'. r \<noteq> None \<and> ub s' = []) unstarted"
  by (rule wp_mono [OF handleStart_ready [OF sample_documented sample_finite unstarted_fresh(2,3)]])
    (auto simp: unstarted_def)

text \<open>
  A provider that is not a USB interface is reported as started: \<^verbatim>\<open>Start\<close> returns
  success without opening anything, without calling the base class, and with a null interface.
\<close>
lemma start_wrong_provider:
  assumes "ivars s = Some v" "OSDynamicCast (is_IOUSBHostInterface A) provider = None"
  shows "run_state (XboxOneInputInterface_Start A super_start provider) s =
    (kIOReturnSuccess, s\<lparr>ivars := Some (v\<lparr>interface := None\<rparr>)\<rparr>)"
  using assms
  by (cases s) (simp add: XboxOneInputInterface_Start_def iv_def set_iv_def member_def set_member_def)

subsection \<open>Pipes\<close>



text \<open>
  C18. If every pipe can be copied, the search succeeds exactly when the interface has an interrupt
  endpoint in each direction, in whatever order and among whatever other endpoints they come.
\<close>
theorem init_pipes_finds_both:
  assumes "pipes_available A" "ivars s = Some v" "interface v = Some i"
    "pipe (inPipe v) = None" "pipe (outPipe v) = None"
    "enumerates (next_endpoint A (configurationDescriptor v) (interfaceDescriptor v)) None eps"
  shows "wp (InitPipes A) (\<lambda>r s'. r = Some (finds A In_slot eps \<and> finds A Out_slot eps)) s"
proof -
  have slots: "(\<forall>sl. P sl) \<longleftrightarrow> P In_slot \<and> P Out_slot" for P by (metis slot.exhaust)
  have none: "pipe (get_pipe sl v) = None" for sl
    using assms(4,5) by (cases sl) simp_all
  then have "\<exists>sl. pipe (get_pipe sl v) = None" by blast
  from InitPipes_list_finds [OF assms(1-3) this, of eps] show ?thesis
    unfolding InitPipes_eq_list [OF assms(2,6)] by (simp add: none slots)
qed

theorem init_pipes_finds_both_witness:
  "wp (InitPipes sample_startup) (\<lambda>r s'. r = Some True) unstarted"
proof -
  have "pipes_available sample_startup" "pipe (inPipe new_ivars) = None" "pipe (outPipe new_ivars) = None"
    "enumerates (next_endpoint sample_startup cd ifd) None [1, 2]" for cd ifd
    by (simp_all add: pipes_available_def sample_startup_def new_ivars_def zeroed_ivars_def default_pipe_def)
  from init_pipes_finds_both [OF this(1) unstarted_fresh(2,3) this(2,3,4)] show ?thesis
    by (simp add: finds_def sample_startup_def slot_of_def)
qed

text \<open>
  C20. Setting up one pipe: no undefined behaviour on any answer, the other pipe is left alone, and
  success means that the pipe has an interval and a packet size other than 0 and a mapped buffer of
  exactly that packet size.
\<close>
theorem setup_pipe_ready:
  assumes "documented A" "ivars s = Some v" "interface v = Some i" "pipe (get_pipe sl v) = Some p"
  shows "wp (SetupPipe A sl) (\<lambda>ok s'. \<exists>v'. ivars s' = Some v' \<and> ub s' = ub s \<and>
      get_pipe (other sl) v' = get_pipe (other sl) v \<and> pipe (get_pipe sl v') = Some p \<and>
      (ok \<longrightarrow> pipe_set_up (get_pipe sl v'))) s"
  by (rule wp_mono [OF SetupPipe_wp [OF assms]]) (auto simp: quiet_def)

theorem setup_pipe_ready_witness:
  "wp (SetupPipe sample_startup In_slot) (\<lambda>ok s'. ub s' = []) running"
proof -
  have "interface running_ivars = Some 10" "pipe (get_pipe In_slot running_ivars) = Some 21"
    by (simp_all add: running_ivars_def sample_pipe_def)
  then show ?thesis
    by (intro wp_mono [OF setup_pipe_ready [OF sample_documented running_ready(2)]]) (auto simp: running_def)
qed

text \<open>
  C38. After the set-up of both pipes the report size of the IN pipe is the driver's maximum output
  report size, not its maximum input report size, and the report size of the OUT pipe has never
  been written.
\<close>
theorem report_sizes_misplaced:
  assumes "documented A" "ivars s = Some v" "interface v = Some i"
    "pipe (inPipe v) = Some p" "pipe (outPipe v) = Some q"
  shows "wp (SetupPipes A) (\<lambda>ok s'. ok \<longrightarrow> (\<exists>v'. ivars s' = Some v' \<and>
      reportSize (inPipe v') =
        property_UInt64 A (snd (on_CopyProperties A (calls s))) kIOHIDMaxOutputReportSizeKey \<and>
      reportSize (outPipe v') = reportSize (outPipe v))) s"
  by (rule wp_mono [OF SetupPipes_wp [OF assms]]) auto

theorem report_sizes_misplaced_witness:
  "wp (SetupPipes (sample_startup\<lparr>property_UInt64 := \<lambda>p k. if k = kIOHIDMaxOutputReportSizeKey then 13 else 18\<rparr>))
     (\<lambda>ok s'. ok \<longrightarrow> (\<exists>v'. ivars s' = Some v' \<and> reportSize (inPipe v') = 13)) running"
proof -
  let ?A = "sample_startup\<lparr>property_UInt64 := \<lambda>p k. if k = kIOHIDMaxOutputReportSizeKey then 13 else 18\<rparr>"
  have "documented ?A" using sample_documented by (simp add: documented_def)
  moreover have "interface running_ivars = Some 10" "pipe (inPipe running_ivars) = Some 21"
    "pipe (outPipe running_ivars) = Some 22"
    by (simp_all add: running_ivars_def sample_pipe_def)
  ultimately show ?thesis
    by (intro wp_mono [OF report_sizes_misplaced [OF _ running_ready(2)]]) auto
qed

subsection \<open>Sending\<close>

text \<open>
  C17. \<^verbatim>\<open>SendInterruptData\<close> sends the data with byte 2 replaced by the packet counter and
  advances the counter, or, if the OUT buffer is too small, refuses and changes nothing.
\<close>
theorem send_numbers_packet:
  assumes "out_ready s" "2 < unat sz" "unat sz \<le> length data"
  shows "wp (SendInterruptData C data sz) (\<lambda>ret s'.
      if unat sz \<le> out_capacity (input_ivars s)
      then out_ready s' \<and> outCounter (input_ivars s') = outCounter (input_ivars s) + 1 \<and>
        packets_sent (calls s') =
          packets_sent (calls s) @ [(take (unat sz) data)[2 := outCounter (input_ivars s)]]
      else ret = kIOReturnBadArgument \<and> s' = s) s"
proof (cases "unat sz \<le> out_capacity (input_ivars s)")
  case True
  then show ?thesis
    by (intro wp_mono [OF sender.send_fits [OF assms]]) (auto simp: wire_packet_def)
next
  case False
  with assms(1) show ?thesis
    by (intro wp_mono [OF sender.send_refuses]) auto
qed

lemma running_out_ready: "out_ready running"
  by (simp add: out_ready_def input_ivars_def running_def running_ivars_def sample_pipe_def pipe_ready_def
      mapped_def)

theorem send_numbers_packet_witness:
  "wp (SendInterruptData sample_comm INIT_PACKET INIT_PACKET_SIZE)
     (\<lambda>ret s'. packets_sent (calls s') = [[0x05, 0x20, 0x00, 0x01, 0x00]]) running"
  by (rule wp_mono [OF send_numbers_packet [OF running_out_ready]])
    (auto simp: running_def running_ivars_def sample_pipe_def input_ivars_def out_capacity_def INIT_PACKET_def)

text \<open>
  C16. However many packets are sent, whatever their data, and whether or not each of them fits: the
  packets on the wire are numbered one after the other from 0, modulo 256.
\<close>
theorem sends_stay_numbered:
  assumes "out_ready s" "numbered (outCounter (input_ivars s)) (packets_sent (calls s))"
    "\<forall>(d, n) \<in> set ps. 2 < unat n \<and> unat n \<le> length d"
  shows "wp (run_all (\<lambda>(d, n). do { _ \<leftarrow> SendInterruptData C d n; return () }) ps)
    (\<lambda>_ s'. numbered (outCounter (input_ivars s')) (packets_sent (calls s'))) s"
proof -
  let ?I = "\<lambda>s. out_ready s \<and> numbered (outCounter (input_ivars s)) (packets_sent (calls s))"
  have "wp (run_all (\<lambda>(d, n). do { _ \<leftarrow> SendInterruptData C d n; return () }) ps) (\<lambda>_. ?I) s"
  proof (rule wp_run_all)
    show "wp (case x of (d, n) \<Rightarrow> do { _ \<leftarrow> SendInterruptData C d n; return () }) (\<lambda>_. ?I) t"
      if "?I t" "x \<in> set ps" for x t
      using that assms(3)
      by (auto simp: wp_bind wp_return split: prod.split intro!: wp_mono [OF sender.send_numbered])
  qed (use assms in simp)
  then show ?thesis by (rule wp_mono) simp
qed

theorem sends_stay_numbered_witness:
  "wp (run_all (\<lambda>(d, n). do { _ \<leftarrow> SendInterruptData sample_comm d n; return () })
       [(INIT_PACKET, 5), (SWAP_TO_WIRED_PACKET, 5)])
    (\<lambda>_ s'. numbered (outCounter (input_ivars s')) (packets_sent (calls s'))) running"
  by (rule sends_stay_numbered [OF running_out_ready])
    (simp_all add: running_def running_ivars_def input_ivars_def numbered_Nil)

subsection \<open>The callback\<close>

text \<open>
  C7. The callback does what its specification says: it ignores failed transfers and everything
  while disabled; it hands a button packet and a guide packet to the HID stack as they are; it
  answers a guide packet that asks for it, once the HID stack has taken it; it ignores every other
  packet; and it always asks for the next packet.
\<close>
theorem got_data_refines_spec:
  assumes "ivars s = Some v" "comm_ready C v"
  shows "wp (GotData C status n t) (\<lambda>_ s'. \<exists>new v'. calls s' = calls s @ new \<and>
      ivars s' = Some v' \<and> ub s' = ub s \<and> comm_ready C v' \<and>
      (actions new, spec_of v') = spec_got_data (spec_of v) (status = kIOReturnSuccess) (in_memory v) n
        (on_handleReport C t (in_memory v) n (calls s) = kIOReturnSuccess)) s"
  by (rule wp_mono [OF GotData_refines [OF assms refl]]) auto

theorem got_data_refines_spec_witness:
  "wp (GotData sample_comm kIOReturnSuccess 64 1)
     (\<lambda>_ s'. ub s' = [] \<and> actions (calls s') = [Listen]) running"
  by (rule wp_mono [OF got_data_refines_spec [OF running_ready(2,1)]])
    (auto simp: running_def running_ivars_def sample_pipe_def in_memory_def spec_of_def spec_got_data_def
      classify_def header_of_def byte_at_def XBOXONE_IN_BUTTON_def XBOXONE_IN_GUIDE_def)

text \<open>
  The callback asks for the next packet exactly once, as the last thing it does, whatever the
  status of the transfer, the packet, the switch and the answers of the frameworks.
\<close>
lemma got_data_listens_once:
  assumes "ivars s = Some v" "comm_ready C v"
  shows "wp (GotData C status n t)
    (\<lambda>_ s'. \<exists>as. actions (calls s') = actions (calls s) @ as @ [Listen] \<and> Listen \<notin> set as) s"
  by (rule wp_mono [OF GotData_refines [OF assms refl]])
    (auto dest!: spec_listens_last [OF sym])

text \<open>
  C40. The callback does not check that the buffer holds a whole header: with a mapped buffer of
  one to three bytes, which the set-up accepts, a first byte 0x20 makes it read past the buffer.
\<close>
theorem short_buffer_overread:
  assumes "ivars s = Some v" "enabled v" "address (memory (inPipe v)) = Some mem"
    "0 < length mem" "length mem \<le> 3" "mem ! 0 = XBOXONE_IN_BUTTON"
  shows "wp (GotData C kIOReturnSuccess n t) (\<lambda>_ s'. Read_out_of_bounds 3 (length mem) \<in> set (ub s')) s"
proof -
  have "byte_at mem 0 = XBOXONE_IN_BUTTON" "byte_at mem 3 = 0"
    using assms(4-6) by (auto simp: byte_at_def)
  with assms show ?thesis
    by (auto simp: GotData_def HandleControllerReport_def HandleGuideReport_def HandleReportGeneric_def
        RequestAsyncInterruptData_def read_byte_def wp_simps wp_deref XBOXONE_IN_BUTTON_def
        XBOXONE_IN_GUIDE_def split: option.split)
qed

theorem short_buffer_overread_witness:
  "wp (GotData sample_comm kIOReturnSuccess 2 1) (\<lambda>_ s'. ub s' \<noteq> [])
     (running\<lparr>ivars := Some (transfer [XBOXONE_IN_BUTTON, 0] running_ivars)\<rparr>)"
  by (rule wp_mono [OF short_buffer_overread [where v = "transfer [XBOXONE_IN_BUTTON, 0] running_ivars"
          and mem = "[XBOXONE_IN_BUTTON, 0]"]])
    (auto simp: transfer_def running_ivars_def)

end
