(* ===== verification/Loader_Model.thy ===== *)
theory Loader_Model
  imports Dext_Prelude
begin

text \<open>
  The application that installs and removes the driver: \<^verbatim>\<open>SimpleDriverLoaderModel.swift\<close>
  looks for a bundle in the system extension directory of its own bundle and asks the system to
  activate or deactivate the extension of that name, and reports what comes of it;
  \<^verbatim>\<open>SimpleDriverLoadingView.swift\<close> has a button for each.  The file system and the texts the
  system gives for results and errors are parameters.
\<close>

subsection \<open>The model\<close>

datatype request_kind = activationRequest | deactivationRequest

datatype loader_call = submitRequest request_kind string | print_line string

datatype ReplacementAction = replace | cancel

text \<open>
  \<open>appendingPathComponent\<close>: a path below a directory; \<open>enumerator\<close>: the paths below a
  directory, if it can be read; \<open>fileExists\<close>: whether something is there and whether it is a
  directory; \<open>bundleIdentifier\<close>: the identifier of the bundle at a path, if there is a bundle
  and it has one.
\<close>
record file_api =
  appendingPathComponent :: "string \<Rightarrow> string \<Rightarrow> string"
  enumerator :: "string \<Rightarrow> string list option"
  fileExists :: "string \<Rightarrow> bool option"
  bundleIdentifier :: "string \<Rightarrow> string option"

definition sysExPath :: string where
  "sysExPath = ''Contents/Library/SystemExtensions''"

fun dext_loop :: "file_api \<Rightarrow> string list \<Rightarrow> string option" where
  "dext_loop F [] = None"
| "dext_loop F (targetURL # rest) =
     (if fileExists F targetURL = Some True
      then (case bundleIdentifier F targetURL of
          Some identifier \<Rightarrow> Some identifier
        | None \<Rightarrow> dext_loop F rest)
      else dext_loop F rest)"

definition dextBundleIdentifier :: "file_api \<Rightarrow> string \<Rightarrow> string option" where
  "dextBundleIdentifier F bundleURL =
     (case enumerator F (appendingPathComponent F bundleURL sysExPath) of
        None \<Rightarrow> None
      | Some urls \<Rightarrow> dext_loop F urls)"

definition activateDext :: "file_api \<Rightarrow> string \<Rightarrow> (loader_call world, unit) state" where
  "activateDext F bundleURL =
     (case dextBundleIdentifier F bundleURL of
        None \<Rightarrow> return ()
      | Some identifier \<Rightarrow> emit (submitRequest activationRequest identifier))"

definition deactivateDext :: "file_api \<Rightarrow> string \<Rightarrow> (loader_call world, unit) state" where
  "deactivateDext F bundleURL =
     (case dextBundleIdentifier F bundleURL of
        None \<Rightarrow> return ()
      | Some identifier \<Rightarrow> emit (submitRequest deactivationRequest identifier))"

subsection \<open>What the system tells the model\<close>

text \<open>The answer about an extension that is already there, from the properties of both.\<close>
definition actionForReplacingExtension :: "'p \<Rightarrow> 'p \<Rightarrow> ReplacementAction" where
  "actionForReplacingExtension existing ext = replace"

definition requestNeedsUserApproval :: "(loader_call world, unit) state" where
  "requestNeedsUserApproval = emit (print_line ''requestNeedsUserApproval'')"

definition didFinishWithResult :: "('r \<Rightarrow> string) \<Rightarrow> 'r \<Rightarrow> (loader_call world, unit) state" where
  "didFinishWithResult description result =
     emit (print_line (''didFinishWithResult: '' @ description result))"

definition didFailWithError :: "('e \<Rightarrow> string) \<Rightarrow> 'e \<Rightarrow> (loader_call world, unit) state" where
  "didFailWithError localizedDescription error =
     emit (print_line (''didFailWithError: '' @ localizedDescription error))"

subsection \<open>The view\<close>

text \<open>The two buttons, by their labels, and their actions.\<close>
datatype view_button = Install_Update_Driver | Uninstall_Driver

fun button_action :: "file_api \<Rightarrow> string \<Rightarrow> view_button \<Rightarrow> (loader_call world, unit) state" where
  "button_action F bundleURL Install_Update_Driver = activateDext F bundleURL"
| "button_action F bundleURL Uninstall_Driver = deactivateDext F bundleURL"

text \<open>What happens in the application: a button is pressed, or the system tells the model something.\<close>
datatype ('r, 'e) loader_event =
  Pressed view_button | Needs_approval | Finished 'r | Failed 'e

fun loader_handle :: "file_api \<Rightarrow> string \<Rightarrow> ('r \<Rightarrow> string) \<Rightarrow> ('e \<Rightarrow> string) \<Rightarrow> ('r, 'e) loader_event \<Rightarrow>
    (loader_call world, unit) state" where
  "loader_handle F url d l (Pressed b) = button_action F url b"
| "loader_handle F url d l Needs_approval = requestNeedsUserApproval"
| "loader_handle F url d l (Finished r) = didFinishWithResult d r"
| "loader_handle F url d l (Failed e) = didFailWithError l e"

subsection \<open>What it amounts to\<close>

text \<open>The identifiers of the directories of a list that are bundles, in order.\<close>
definition identifiers :: "file_api \<Rightarrow> string list \<Rightarrow> string list" where
  "identifiers F urls =
     concat (map (\<lambda>u. case bundleIdentifier F u of None \<Rightarrow> [] | Some x \<Rightarrow> [x])
       (filter (\<lambda>u. fileExists F u = Some True) urls))"

text \<open>The first of them below the system extension directory.\<close>
definition first_bundle :: "file_api \<Rightarrow> string \<Rightarrow> string list" where
  "first_bundle F url = (case enumerator F (appendingPathComponent F url sysExPath) of
     None \<Rightarrow> [] | Some urls \<Rightarrow> take 1 (identifiers F urls))"

fun requested :: "('r, 'e) loader_event \<Rightarrow> request_kind list" where
  "requested (Pressed Install_Update_Driver) = [activationRequest]"
| "requested (Pressed Uninstall_Driver) = [deactivationRequest]"
| "requested _ = []"

definition requests :: "loader_call list \<Rightarrow> (request_kind \<times> string) list" where
  "requests cs = concat (map (\<lambda>c. case c of submitRequest k x \<Rightarrow> [(k, x)] | _ \<Rightarrow> []) cs)"

lemma dext_loop_eq: "dext_loop F urls = (case identifiers F urls of [] \<Rightarrow> None | x # xs \<Rightarrow> Some x)"
  by (induction urls) (auto simp: identifiers_def split: option.splits)

lemma dextBundleIdentifier_eq:
  "dextBundleIdentifier F url = (case first_bundle F url of [] \<Rightarrow> None | x # xs \<Rightarrow> Some x)"
  by (simp add: dextBundleIdentifier_def first_bundle_def dext_loop_eq split: option.split list.split)

lemma first_bundle_cases: "first_bundle F url = [] \<or> (\<exists>x. first_bundle F url = [x])"
  by (auto simp: first_bundle_def take_Suc split: option.split)

lemma requests_append [simp]: "requests (xs @ ys) = requests xs @ requests ys"
  by (simp add: requests_def)

lemma loader_handle_requests:
  "wp (loader_handle F url d l e) (\<lambda>_ s'. requests (calls s') =
     requests (calls s) @ List.product (requested e) (first_bundle F url)) s"
  using first_bundle_cases [of F url]
  by (cases e rule: requested.cases)
    (auto simp: requests_def activateDext_def deactivateDext_def dextBundleIdentifier_eq wp_simps
      requestNeedsUserApproval_def didFinishWithResult_def didFailWithError_def)

end
