(* ===== verification/Client_Correctness.thy ===== *)
theory Client_Correctness
  imports Sample_Frameworks Loader_Model
begin

text \<open>
  Properties of what the driver offers to the rest of the system: the calls of the user client, the
  description of the device for the HID stack, and the two programs beside the driver, the tester
  and the loader.
\<close>

subsection \<open>Licensing\<close>

lemma connected_client:
  "client_ivars connected = Some \<lparr>inputInterface = Some 10\<rparr>" "ivars connected = Some running_ivars"
  "arguments connected = licence_arguments 0" "calls connected = []" "ub connected = []"
  by (simp_all add: connected_def)

text \<open>
  C21. A licensing call on a connected client switches the driver: it succeeds, the driver is enabled
  afterwards exactly if the scalar input is not 0, the scalar output says so, and nothing else has
  changed.
\<close>
theorem licensing_switches_driver:
  assumes "dispatch_law m" "client_ivars s = Some w" "inputInterface w = Some r" "ivars s = Some v"
    "arguments s = licence_arguments x"
  shows "run_state (ExternalMethod m this ExternalMethodType_Licensing d target) s =
    (kIOReturnSuccess, s\<lparr>ivars := Some (v\<lparr>enabled := x \<noteq> 0\<rparr>),
      arguments := (licence_arguments x)\<lparr>scalarOutput := [of_bool (x \<noteq> 0)]\<rparr>\<rparr>)"
proof -
  have "wp (ExternalMethod m this ExternalMethodType_Licensing d target) (\<lambda>ret s'.
      (ret, s') = (kIOReturnSuccess, s\<lparr>ivars := Some (v\<lparr>enabled := x \<noteq> 0\<rparr>),
        arguments := (licence_arguments x)\<lparr>scalarOutput := [of_bool (x \<noteq> 0)]\<rparr>\<rparr>)) s"
    using assms
    by (simp add: wp_licensing licence_arguments_def wp_HandleLicensing)
  then show ?thesis by (simp add: wp_def split: prod.splits)
qed

theorem licensing_switches_driver_witness:
  "map_option enabled (ivars (snd (run_state
     (ExternalMethod sample_super 7 ExternalMethodType_Licensing None None) connected))) = Some False"
  using licensing_switches_driver [OF sample_dispatch_law connected_client(1) _ connected_client(2,3)]
  by simp

text \<open>The last of a sequence of settings wins, and everything else is as before the first.\<close>
lemma last_setting_wins:
  assumes "ivars s = Some v"
  shows "wp (run_all SetEnable bs)
    (\<lambda>_ s'. map_option enabled (ivars s') = Some (last (enabled v # bs)) \<and> but_switch s' = but_switch s) s"
  using wp_conj [OF enabling.last_setting [of s "enabled v" bs] enabling.settings_keep_rest [of bs s]] assms
  by simp

text \<open>
  C32. Every other call leaves the driver alone: selector 0 is not found, and a licensing call whose
  arguments are not one scalar in and one scalar out, without structures and completion, is refused
  before the handler runs.
\<close>
theorem bad_calls_refused:
  assumes "dispatch_law m"
  shows "run_state (ExternalMethod m this ExternalMethodType_Unknown d target) s = (kIOReturnNotFound, s) \<and>
    (\<not> accepts licensing_dispatch (arguments s) \<longrightarrow>
      run_state (ExternalMethod m this ExternalMethodType_Licensing d target) s = (kIOReturnBadArgument, s))"
proof -
  have "run_state (ExternalMethod m this ExternalMethodType_Licensing d target) s = (kIOReturnBadArgument, s)"
    if "\<not> accepts licensing_dispatch (arguments s)"
  proof -
    have "wp (ExternalMethod m this ExternalMethodType_Licensing d target)
        (\<lambda>ret s'. (ret, s') = (kIOReturnBadArgument, s)) s"
      using that by (simp only: wp_licensing [OF assms] if_False)
    then show ?thesis by (simp add: wp_def split: prod.splits)
  qed
  then show ?thesis by (simp add: ExternalMethod_def)
qed

theorem bad_calls_refused_witness:
  "fst (run_state (ExternalMethod sample_super 7 ExternalMethodType_Licensing None None)
     (connected\<lparr>arguments := (licence_arguments 1)\<lparr>scalarInput := []\<rparr>\<rparr>)) = kIOReturnBadArgument"
  using bad_calls_refused [OF sample_dispatch_law, of 7 None None
      "connected\<lparr>arguments := (licence_arguments 1)\<lparr>scalarInput := []\<rparr>\<rparr>"]
  by simp

text \<open>
  A selector has an entry of the method table exactly if it is the licensing selector: the
  lookup in the table is never outside it, and never finds the empty entry.
\<close>
lemma dispatch_table_bounds:
  "(ExternalMethodType_Unknown < selector \<and> selector < kNumberOfExternalMethods) =
     (selector = ExternalMethodType_Licensing) \<and>
   length externalMethodChecks = unat kNumberOfExternalMethods \<and>
   dispatch_function (externalMethodChecks ! unat ExternalMethodType_Licensing) = Some Fn_StaticHandleLicensing"
  using external_selectors(1,2) external_selectors(3) [of selector]
  by (simp add: ExternalMethodType_Unknown_def ExternalMethodType_Licensing_def licensing_dispatch_def)

text \<open>
  C31. A new user client, whatever the creation of the object does within its law: on success the
  client is of the right class, has its stored variables, is connected to this very driver and is the
  one reference handed to the caller; on failure no reference and no stored variables are left.  The
  driver is as before.
\<close>
theorem new_user_client_connected:
  assumes "create_law U create" "client_ivars s = None" "is_XboxOneInputInterface U this"
  shows "wp (NewUserClient U create this old) (\<lambda>(ret, client) s'. ub s' = ub s \<and> ivars s' = ivars s \<and>
      (if ret = kIOReturnSuccess
       then \<exists>c. client = Some c \<and> is_XboxOneUserClient U c \<and>
         map_option inputInterface (client_ivars s') = Some (Some this) \<and>
         (\<forall>r. balance r (calls s') = balance r (calls s) + of_bool (r = c))
       else client_ivars s' = None \<and> (\<forall>r. balance r (calls s') = balance r (calls s)))) s"
  by (rule wp_mono [OF NewUserClient_connects [OF assms]]) (auto simp: connects_def aside_def)

theorem new_user_client_connected_witness:
  "wp (NewUserClient sample_client sample_create 7 None) (\<lambda>(ret, client) s'. ub s' = [] \<and>
     (if ret = kIOReturnSuccess then client \<noteq> None else client_ivars s' = None)) (connected\<lparr>client_ivars := None\<rparr>)"
proof -
  have "client_ivars (connected\<lparr>client_ivars := None\<rparr>) = None" "is_XboxOneInputInterface sample_client 7"
    by (simp_all add: sample_client_def)
  from new_user_client_connected [OF sample_create_law this] show ?thesis
    by (rule wp_mono) (auto simp: connected_client split: if_splits)
qed

subsection \<open>The description of the device\<close>

definition sample_string :: string_descriptor where
  "sample_string = \<lparr>string_descriptor_ref = 50, bLength = 8, bString = [0x4d, 0, 0x53, 0, 0, 0, 0x21, 0]\<rparr>"

definition sample_description :: description_api where
  "sample_description =
     \<lparr>on_Interface_CopyProperties = (\<lambda>i h. Some 51), on_CopyDevice = (\<lambda>i h. Some 1),
      on_DeviceDescriptor = (\<lambda>d h. Some \<lparr>device_descriptor_ref = 2, bNumConfigurations = 1,
        idVendor = 0x45e, idProduct = 0x2ea, bcdDevice = 0x408, iManufacturer = 1, iProduct = 0,
        iSerialNumber = 0\<rparr>),
      on_CopyStringDescriptor = (\<lambda>i k l h. Some sample_string),
      on_OSStringCreate = (\<lambda>t h. Some 52), on_withCapacity = (\<lambda>n h. Some 53),
      on_withBytesNoCopy = (\<lambda>b n h. Some 54), dictionary_value = (\<lambda>d k. None),
      dictionary_UInt64 = (\<lambda>d k. 0), USBToHost16 = (\<lambda>x. x), kIOUSBHostPortTypeInternal = 2\<rparr>"

lemma sample_strings: "strings_complete sample_description"
  by (simp add: strings_complete_def sample_description_def string_complete_def sample_string_def)

text \<open>
  C23. Reading a string of the device: no read and no write is out of bounds, although the length
  byte comes from the device; the string object gets the characters of the descriptor before the
  first null, the low byte of each; the descriptor is given back; and index 0 asks for nothing.
\<close>
theorem copy_string_text:
  assumes "strings_complete D" "ivars s = Some v" "interface v = Some i"
  shows "wp (CopyStringAtIndex D k l) (\<lambda>ret s'. ivars s' = ivars s \<and> ub s' = ub s \<and>
      (if k = 0 then ret = None \<and> calls s' = calls s
       else \<exists>sd. calls s' = calls s @ string_calls i k l sd ret \<and>
         (case sd of None \<Rightarrow> ret = None | Some d \<Rightarrow> unat (bLength d) < 2 \<longrightarrow> ret = None))) s"
  by (rule CopyStringAtIndex_calls [OF assms])

theorem copy_string_text_witness:
  "wp (CopyStringAtIndex sample_description 1 0x0409) (\<lambda>ret s'. ub s' = [] \<and> calls s' \<noteq> []) running"
  by (rule wp_mono [OF copy_string_text [OF sample_strings running_ready(2), of 10]])
    (auto simp: running_def running_ivars_def string_calls_def)



subsection \<open>The tester\<close>

definition sample_tester :: tester_api where
  "sample_tester =
     \<lparr>on_GetMatching = (\<lambda>n it h. (kIOReturnSuccess, 5)),
      on_Next = (\<lambda>it h. if it = 5 \<and> nexts it h < 2 then [8, 9] ! nexts it h else 0),
      on_ServiceOpen = (\<lambda>sv t c h. if sv = 9 then (kIOReturnSuccess, 77) else (kIOReturnError, c)),
      on_CallScalar = (\<lambda>c sel inp n out m h. (kIOReturnSuccess, inp, 1)),
      kIOHIDServerConnectType = 0\<rparr>"

lemma tester_main_wp:
  assumes "on_GetMatching T dextIdentifier IO_OBJECT_NULL [] = (ret, it)" "iterates T it services"
  shows "wp (tester_main T) (\<lambda>code s'. ub s' = [] \<and>
      (code = Some EXIT_FAILURE \<and> opened (calls s') = [] \<and> scalar_calls (calls s') = [] \<or>
       code = Some 0 \<and> (\<exists>sv conn. sv \<in> set services \<and> opened (calls s') = [(sv, conn)] \<and>
         scalar_calls (calls s') = [(conn, 1, [1], 1)])))
    \<lparr>calls = [], ub = []\<rparr>"
proof -
  let ?s = "\<lparr>calls = [IOServiceGetMatchingServices dextIdentifier (ret, it)], ub = []\<rparr> :: tester_state"
  have "nexts it (calls ?s) = 0" by (simp add: nexts_def)
  note eq = search_eq_list [OF assms(2) this]
  have "IO_OBJECT_NULL \<notin> set services" using assms(2) by (simp add: iterates_def)
  note list = search_list_wp [OF this, where s = ?s and T = T and it = it and connection = IO_OBJECT_NULL]
  show ?thesis
    by (simp add: tester_main_def wp_bind wp_invoke assms(1) eq)
      (rule wp_mono [OF list], auto simp: wp_simps split: if_splits)
qed

text \<open>
  C33. The tester ends on every finite list of services.  Its exit code is 0 exactly if a service
  opened; then it has made one call, of the licensing selector with the input 1 and room for one output, on
  the connection of the one service it opened, and otherwise it has made no call.
\<close>
theorem tester_calls_once:
  assumes "on_GetMatching T dextIdentifier IO_OBJECT_NULL [] = (ret, it)" "iterates T it services"
  shows "wp (tester_main T) (\<lambda>code s'. ub s' = [] \<and>
      (code = Some EXIT_FAILURE \<and> opened (calls s') = [] \<and> scalar_calls (calls s') = [] \<or>
       code = Some 0 \<and> (\<exists>sv conn. sv \<in> set services \<and> opened (calls s') = [(sv, conn)] \<and>
         scalar_calls (calls s') = [(conn, 1, [1], 1)])))
    \<lparr>calls = [], ub = []\<rparr>"
  by (rule tester_main_wp [OF assms])

theorem tester_calls_once_witness:
  "wp (tester_main sample_tester) (\<lambda>code s'. code \<noteq> None \<and> length (scalar_calls (calls s')) \<le> 1)
    \<lparr>calls = [], ub = []\<rparr>"
proof -
  have "on_GetMatching sample_tester dextIdentifier IO_OBJECT_NULL [] = (kIOReturnSuccess, 5)"
    "iterates sample_tester 5 [8, 9]"
    by (simp_all add: sample_tester_def iterates_def IO_OBJECT_NULL_def)
  from tester_calls_once [OF this] show ?thesis by (rule wp_mono) auto
qed

subsection \<open>The loader\<close>

text \<open>
  C36. The loader, over any sequence of button presses and of messages of the system: every press
  of a button is one request, of activation or of deactivation as the button says, for the first bundle
  below the system extension directory; there is no other request, and none at all if the directory
  cannot be read or has no bundle.
\<close>
theorem loader_names_first_bundle:
  "wp (run_all (loader_handle F url d l) es) (\<lambda>_ s'. requests (calls s') =
     requests (calls s) @ List.product (concat (map requested es)) (first_bundle F url)) s"
proof (induction es arbitrary: s)
  case Nil
  then show ?case by (simp add: wp_simps)
next
  case (Cons e es)
  show ?case
    by (simp add: wp_bind)
      (rule wp_mono [OF loader_handle_requests], rule wp_mono [OF Cons.IH], simp add: product_concat_map)
qed

end
