(* ===== verification/Read_Liveness.thy ===== *)
theory Read_Liveness
  imports Call_Properties
begin

text \<open>
  Why the driver never stops listening: if the IN pipe accepts every read, every state of the running
  driver has exactly one read outstanding.  That every read in the list of calls was accepted is a
  property of the calls that the start and the callback keep.
\<close>

text \<open>The pipe accepts every read.\<close>
definition always_reads :: "comm_api \<Rightarrow> bool" where
  "always_reads C \<longleftrightarrow> (\<forall>p b n a h. on_AsyncIO C p b n a h = kIOReturnSuccess)"

definition read_ok :: "call \<Rightarrow> bool" where
  "read_ok c = (case c of Pipe_AsyncIO p b n a ret \<Rightarrow> ret = kIOReturnSuccess | _ \<Rightarrow> True)"

lemma reads_started_all:
  "list_all read_ok cs \<Longrightarrow> reads_started cs = count_list (actions cs) Listen"
proof (induction cs)
  case (Cons c cs)
  then show ?case
    by (cases c) (auto simp: reads_started_def read_started_def actions_of_def read_ok_def)
qed (simp add: reads_started_def)

lemma read_ok_quiet: "actions cs = [] \<Longrightarrow> list_all read_ok cs"
proof (induction cs)
  case (Cons c cs)
  then show ?case by (cases c) (auto simp: actions_of_def read_ok_def)
qed simp

interpretation reading: call_property C "\<lambda>cs. always_reads C \<longrightarrow> list_all read_ok cs"
  by unfold_locales (auto simp: traffic_call_def read_ok_def always_reads_def split: call.splits)

definition live_inv :: "environment \<Rightarrow> system \<Rightarrow> bool" where
  "live_inv E \<sigma> \<longleftrightarrow> always_reads (env_comm E) \<and> system_inv E \<sigma> \<and> list_all read_ok (calls (drv \<sigma>)) \<and>
     (phase \<sigma> = Running \<longrightarrow> reads \<sigma> = 1)"

lemma live_inv_start:
  assumes C: "always_reads (env_comm E)" and E: "well_behaved E" and start: "system_start E \<sigma>"
  shows "live_inv E \<sigma>"
proof -
  have ok: "list_all read_ok (calls (drv \<sigma>))"
    using start
  proof (cases rule: system_start.cases)
    case (started_up s s1 s2 v)
    obtain u after t where u:
      "run_state (handleStart (env_startup E) (env_comm E) (Some (provider_ref E))) u = (Some True, t)"
      "ivars u = Some (opened_ivars E)" "ub u = []" "aside (\<lambda>r. 0) 1 (calls u)" "aside (\<lambda>r. 0) 0 after"
      "s2 = t\<lparr>calls := calls t @ after\<rparr>"
      by (rule start_runs_handleStart [OF E started_up(2-6)])
    have "list_all read_ok (calls u)" "list_all read_ok after"
      using u(4,5) by (simp_all add: aside_def read_ok_quiet)
    with reading.handleStart_K [OF u(1)] C u(6) started_up(1) show ?thesis by simp
  qed
  obtain v where v: "actions (calls (drv \<sigma>)) = start_actions 0 (out_capacity v)"
    "reads \<sigma> = reads_started (calls (drv \<sigma>))"
    using started_state [OF E start] by metis
  have "reads \<sigma> = 1"
    unfolding v(2) reads_started_all [OF ok] v(1) by (simp add: start_actions_def)
  with ok C system_inv_start [OF E start] show ?thesis by (simp add: live_inv_def)
qed

lemma live_inv_read:
  assumes inv: "live_inv E \<sigma>" and v: "ivars (drv \<sigma>) = Some v" "phase \<sigma> = Running"
    and mem: "length mem = length (in_memory v)"
    and run: "run_state (GotData (env_comm E) status n t) ((drv \<sigma>)\<lparr>ivars := Some (transfer mem v)\<rparr>) = ((), s')"
  shows "list_all read_ok (calls s')" "reads_started (calls s') = Suc (reads_started (calls (drv \<sigma>)))"
proof -
  from inv have C: "always_reads (env_comm E)" "list_all read_ok (calls (drv \<sigma>))" and sys: "system_inv E \<sigma>"
    by (simp_all add: live_inv_def)
  have live: "phase \<sigma> \<noteq> Freed" using v(2) by simp
  obtain new w ok where new: "calls s' = calls (drv \<sigma>) @ new"
    "spec_got_data (spec_of v) (status = kIOReturnSuccess) mem n ok = (actions new, spec_of w)"
    by (rule read_refines [OF sys v(1) live mem run])
  show ok': "list_all read_ok (calls s')"
    using reading.GotData_K [OF run] C by simp
  show "reads_started (calls s') = Suc (reads_started (calls (drv \<sigma>)))"
    using spec_one_listen [OF new(2)] ok' C(2) new(1) by (simp add: reads_started_all)
qed

lemma live_inv_step:
  assumes E: "well_behaved E" and inv: "live_inv E \<sigma>" and step: "system_step E \<sigma> e \<tau>"
  shows "live_inv E \<tau>"
proof -
  have sys: "system_inv E \<sigma>" and sys': "system_inv E \<tau>"
    using inv system_inv_step [OF E _ step] by (simp_all add: live_inv_def)
  show ?thesis
  proof (cases "\<exists>mem status n t. e = Read_done mem status n t")
    case False
    with quiet_step [OF E sys step] obtain new where
      "calls (drv \<tau>) = calls (drv \<sigma>) @ new" "actions new = []" by blast
    moreover have "phase \<tau> = Running \<longrightarrow> phase \<sigma> = Running \<and> reads \<tau> = reads \<sigma>"
      using step False by (auto elim!: system_stepE split: if_splits)
    ultimately show ?thesis
      using inv sys' by (simp add: live_inv_def read_ok_quiet)
  next
    case True
    then obtain mem status n t where e: "e = Read_done mem status n t" by blast
    from step [unfolded e] show ?thesis
    proof cases
      case (read_done v s')
      have "reads \<sigma> = 1" "always_reads (env_comm E)"
        using inv read_done(2) by (simp_all add: live_inv_def)
      with live_inv_read [OF inv read_done(4,2,5,6)] read_done(1) have
        "reads \<tau> = 1" "list_all read_ok (calls (drv \<tau>))" "always_reads (env_comm E)" by simp_all
      with sys' show ?thesis by (simp add: live_inv_def)
    qed
  qed
qed

interpretation live: invariant_system "\<lambda>\<sigma>. always_reads (env_comm E) \<and> life_start E \<sigma>" "life_step E" "live_inv E"
  by unfold_locales (auto intro: live_inv_start live_inv_step)

text \<open>A packet can come in, and is followed by the next read.\<close>
lemma read_possible:
  assumes inv: "live_inv E \<sigma>" "phase \<sigma> = Running" "ivars (drv \<sigma>) = Some v" "length mem = length (in_memory v)"
  shows "reads \<sigma> = 1" "\<exists>\<tau>. system_step E \<sigma> (Read_done mem status n t) \<tau> \<and> reads \<tau> = 1 \<and> phase \<tau> = Running \<and>
    drv \<tau> = snd (run_state (GotData (env_comm E) status n t) ((drv \<sigma>)\<lparr>ivars := Some (transfer mem v)\<rparr>))"
proof -
  show one: "reads \<sigma> = 1" using inv(1,2) by (simp add: live_inv_def)
  obtain s' where run: "run_state (GotData (env_comm E) status n t) ((drv \<sigma>)\<lparr>ivars := Some (transfer mem v)\<rparr>) = ((), s')"
    by (rule run_unit)
  from one have "system_step E \<sigma> (Read_done mem status n t) (\<sigma>\<lparr>drv := s',
      reads := reads \<sigma> - 1 + (reads_started (calls s') - reads_started (calls (drv \<sigma>)))\<rparr>)"
    by (intro read_done [OF inv(2) _ inv(3,4) run]) simp
  moreover have "reads_started (calls s') = Suc (reads_started (calls (drv \<sigma>)))"
    by (rule live_inv_read(2) [OF inv(1,3,2,4) run])
  ultimately show "\<exists>\<tau>. system_step E \<sigma> (Read_done mem status n t) \<tau> \<and> reads \<tau> = 1 \<and> phase \<tau> = Running \<and>
      drv \<tau> = snd (run_state (GotData (env_comm E) status n t) ((drv \<sigma>)\<lparr>ivars := Some (transfer mem v)\<rparr>))"
    using one inv(2) run by (intro exI [of _ "\<sigma>\<lparr>drv := s', reads := 1\<rparr>"]) simp
qed

end
