(* ===== verification/System_Refinement.thy ===== *)
theory System_Refinement
  imports Driver_System
begin

text \<open>
  Whole runs of the driver against an abstract machine: a switch, a packet counter and the size of
  the OUT pipe, with one reaction to each event.  The streams of a run follow from the machine: which
  reports reach the HID stack and which packets reach the controller.  The end of a life: nothing
  is sent or asked for after \<^verbatim>\<open>Stop\<close>, and the driver can always be stopped.
\<close>

subsection \<open>The abstract driver\<close>

definition spec_event :: "bool \<Rightarrow> event \<Rightarrow> spec_state \<Rightarrow> action list \<times> spec_state" where
  "spec_event accepted e a =
     (case e of
        Read_done mem status n t \<Rightarrow> spec_got_data a (status = kIOReturnSuccess) mem n accepted
      | External_call c selector args \<Rightarrow> ([], a\<lparr>spec_on := switched selector args (spec_on a)\<rparr>)
      | _ \<Rightarrow> ([], a))"

definition spec_rel :: "system \<Rightarrow> spec_state \<Rightarrow> bool" where
  "spec_rel \<sigma> a \<longleftrightarrow> (\<forall>v. ivars (drv \<sigma>) = Some v \<longrightarrow> spec_of v = a)"

definition seen :: "system \<Rightarrow> action list" where
  "seen \<sigma> = actions (calls (drv \<sigma>))"

lemma spec_of_switch [simp]: "spec_of (v\<lparr>enabled := b\<rparr>) = (spec_of v)\<lparr>spec_on := b\<rparr>"
  by (simp add: spec_of_def out_capacity_def)

lemma spec_on_spec_of [simp]: "spec_on (spec_of v) = enabled v"
  by (simp add: spec_of_def)

lemma spec_event_quiet:
  "\<forall>mem status n t. e \<noteq> Read_done mem status n t \<Longrightarrow>
   spec_event b e a = ([], a\<lparr>spec_on := on_after e (spec_on a)\<rparr>)"
  by (cases e) (simp_all add: spec_event_def)

lemma step_simulates:
  assumes E: "well_behaved E" and inv: "system_inv E \<sigma>" and step: "system_step E \<sigma> e \<tau>" and rel: "spec_rel \<sigma> a"
  shows "\<exists>b os a'. spec_event b e a = (os, a') \<and> seen \<tau> = seen \<sigma> @ os \<and> spec_rel \<tau> a'"
proof (cases "\<exists>mem status n t. e = Read_done mem status n t")
  case False
  then have e: "\<forall>mem status n t. e \<noteq> Read_done mem status n t" by blast
  from quiet_step [OF E inv step e] rel show ?thesis
    by (cases "ivars (drv \<sigma>)") (auto simp: spec_event_quiet [OF e] seen_def spec_rel_def)
next
  case True
  then obtain mem status n t where e: "e = Read_done mem status n t" by blast
  from step [unfolded e] show ?thesis
  proof cases
    case (read_done v s')
    have live: "phase \<sigma> \<noteq> Freed" using read_done(2) by simp
    obtain new w ok where new: "calls s' = calls (drv \<sigma>) @ new" "ivars s' = Some w"
      "spec_got_data (spec_of v) (status = kIOReturnSuccess) mem n ok = (actions new, spec_of w)"
      by (rule read_refines [OF inv read_done(4) live read_done(5,6)])
    then have "spec_event ok e a = (actions new, spec_of w)"
      using rel read_done(4) by (simp add: e spec_event_def spec_rel_def)
    with new read_done(1) show ?thesis
      by (intro exI [of _ ok]) (simp add: seen_def spec_rel_def)
  qed
qed

interpretation abstract_driver: refinement "life_start E" "life_step E" "system_inv E" spec_event spec_rel seen
  by unfold_locales (blast intro: step_simulates)

subsection \<open>Streams\<close>

text \<open>The reports handed to the HID stack.\<close>
fun reports :: "action list \<Rightarrow> u8 list list" where
  "reports [] = []"
| "reports (Deliver bs n ok # as) = bs # reports as"
| "reports (_ # as) = reports as"

text \<open>
  The packets of a list of events that are to reach the HID stack: they came in without an error while
  the switch was on, and are button or guide packets.
\<close>
fun wanted :: "bool \<Rightarrow> event list \<Rightarrow> u8 list list" where
  "wanted on [] = []"
| "wanted on (e # es) =
     (case e of Read_done mem status n t \<Rightarrow>
        if on \<and> status = kIOReturnSuccess \<and> classify mem \<noteq> Unknown_packet then [mem] else []
      | _ \<Rightarrow> []) @ wanted (on_after e on) es"

text \<open>The packets that ask for an answer, and how many of them the HID stack has taken.\<close>
definition asks :: "u8 list \<Rightarrow> bool" where
  "asks mem \<longleftrightarrow> classify mem = Guide_packet True"

fun taken_asks :: "action list \<Rightarrow> nat" where
  "taken_asks [] = 0"
| "taken_asks (Deliver bs n ok # as) = of_bool (ok \<and> asks bs) + taken_asks as"
| "taken_asks (_ # as) = taken_asks as"

lemma reports_append [simp]: "reports (xs @ ys) = reports xs @ reports ys"
  by (induction xs rule: reports.induct) auto

lemma taken_asks_append [simp]: "taken_asks (xs @ ys) = taken_asks xs + taken_asks ys"
  by (induction xs rule: taken_asks.induct) auto

lemma spec_event_on:
  "spec_event b e a = (os, a') \<Longrightarrow> spec_on a' = on_after e (spec_on a)"
  by (cases e) (auto simp: spec_event_def dest: spec_frame(1))

lemma spec_event_reports:
  assumes "spec_event b e a = (os, a')"
  shows "reports os @ wanted (spec_on a') es = wanted (spec_on a) (e # es)"
  using assms spec_event_on [OF assms]
  by (cases e) (auto simp: spec_event_def spec_got_data_def split: if_splits packet_class.splits)

lemma machine_reports:
  assumes "length cs = length es" "machine spec_event (zip cs es) a = (os, a')"
  shows "reports os = wanted (spec_on a) es"
  using assms
proof (induction cs es arbitrary: a os rule: list_induct2)
  case (Cons c cs e es)
  obtain os1 a1 os2 where m: "spec_event c e a = (os1, a1)" "machine spec_event (zip cs es) a1 = (os2, a')"
    "os = os1 @ os2"
    using Cons.prems by (auto split: prod.splits)
  show ?case
    using Cons.IH [OF m(2)] spec_event_reports [OF m(1), of es] m(3) by simp
qed simp

text \<open>Answers with consecutive numbers.\<close>
primrec answers :: "u8 \<Rightarrow> nat \<Rightarrow> u8 list list" where
  "answers n 0 = []"
| "answers n (Suc k) = spec_reply n # answers (n + 1) k"

text \<open>One answer for each packet taken that asks for it, if the OUT pipe can carry one.\<close>
lemma spec_event_answers:
  assumes "spec_event b e a = (os, a')"
  shows "spec_mtu a' = spec_mtu a"
    "transmitted os @ answers (spec_next a') k =
       answers (spec_next a) ((if 9 \<le> spec_mtu a then taken_asks os else 0) + k)"
  using assms
  by (cases e; auto simp: spec_event_def spec_got_data_def asks_def split: if_splits packet_class.splits)+

lemma machine_answers:
  assumes "length cs = length es" "machine spec_event (zip cs es) a = (os, a')"
  shows "transmitted os = answers (spec_next a) (if 9 \<le> spec_mtu a then taken_asks os else 0)"
  using assms
proof (induction cs es arbitrary: a os rule: list_induct2)
  case (Cons c cs e es)
  obtain os1 a1 os2 where m: "spec_event c e a = (os1, a1)" "machine spec_event (zip cs es) a1 = (os2, a')"
    "os = os1 @ os2"
    using Cons.prems by (auto split: prod.splits)
  from Cons.IH [OF m(2)] spec_event_answers [OF m(1)] m(3) show ?case by (simp split: if_splits)
qed simp

subsection \<open>The end of a life\<close>

lemma stopped_step:
  assumes "well_behaved E" "system_inv E \<sigma>" "system_step E \<sigma> e \<tau>" "phase \<sigma> \<noteq> Running"
  shows "phase \<tau> \<noteq> Running \<and> seen \<tau> = seen \<sigma>"
proof -
  have "\<forall>mem status n t. e \<noteq> Read_done mem status n t"
    using assms(3,4) by (auto elim: system_stepE)
  from quiet_step [OF assms(1-3) this] have "seen \<tau> = seen \<sigma>" by (auto simp: seen_def)
  with assms(3,4) show ?thesis by (auto elim!: system_stepE)
qed

lemma stopped_steps:
  assumes E: "well_behaved E" and "steps (system_step E) \<sigma> es \<tau>" "system_inv E \<sigma>" "phase \<sigma> \<noteq> Running"
  shows "phase \<tau> \<noteq> Running \<and> seen \<tau> = seen \<sigma>"
  using assms(2-)
proof (induction rule: steps.induct)
  case (steps_snoc \<sigma> es \<tau> e \<upsilon>)
  have "system_inv E \<tau>"
    using run.inv_steps [OF life_steps [OF E steps_snoc.hyps(1)]] steps_snoc.prems by simp
  from stopped_step [OF E this steps_snoc.hyps(2)] steps_snoc show ?case by simp
qed simp

text \<open>All clients can leave, one after the other.\<close>
lemma clients_can_leave:
  assumes "\<forall>c. clients \<sigma> c \<noteq> None \<longrightarrow> c \<in> set cs"
  shows "\<exists>es \<tau>. steps (system_step E) \<sigma> es \<tau> \<and> clients \<tau> = (\<lambda>c. None) \<and> phase \<tau> = phase \<sigma>"
  using assms
proof (induction cs arbitrary: \<sigma>)
  case Nil
  then show ?case by (intro exI [of _ "[]"] exI [of _ \<sigma>]) (auto intro: steps_Nil)
next
  case (Cons c cs)
  show ?case
  proof (cases "clients \<sigma> c")
    case None
    with Cons.prems have "\<forall>d. clients \<sigma> d \<noteq> None \<longrightarrow> d \<in> set cs" by auto
    then show ?thesis by (rule Cons.IH)
  next
    case (Some w)
    obtain s' where run: "run_state (client_end (env_client E) (Some (this_ref E)))
      ((drv \<sigma>)\<lparr>client_ivars := Some w\<rparr>) = ((), s')" by (rule run_unit)
    define \<sigma>' where "\<sigma>' = \<sigma>\<lparr>drv := s', clients := (clients \<sigma>)(c := client_ivars s')\<rparr>"
    have step: "system_step E \<sigma> (Disconnect c) \<sigma>'"
      unfolding \<sigma>'_def by (rule disconnected [OF Some run])
    have "\<forall>d. clients \<sigma>' d \<noteq> None \<longrightarrow> d \<in> set cs"
      using Cons.prems leave_effect [OF run] by (auto simp: \<sigma>'_def)
    from Cons.IH [OF this] obtain es \<tau> where "steps (system_step E) \<sigma>' es \<tau>" "clients \<tau> = (\<lambda>c. None)"
      "phase \<tau> = phase \<sigma>'" by blast
    then show ?thesis using steps_Cons [of "system_step E", OF step] by (auto simp: \<sigma>'_def)
  qed
qed

text \<open>From every phase the next one can be reached.\<close>
lemma can_be_freed:
  assumes E: "well_behaved E" and inv: "system_inv E \<sigma>" and phase: "phase \<sigma> = Stopped"
  shows "\<exists>es \<tau>. steps (system_step E) \<sigma> es \<tau> \<and> phase \<tau> = Freed"
proof -
  have "\<forall>c. clients \<sigma> c \<noteq> None \<longrightarrow> c \<in> set (handed_out \<sigma>)" using inv by (auto simp: system_inv_def)
  from clients_can_leave [OF this, of E] obtain es \<tau> where
    \<tau>: "steps (system_step E) \<sigma> es \<tau>" "clients \<tau> = (\<lambda>c. None)" "phase \<tau> = Stopped"
    using phase by auto
  obtain s' where "run_state XboxOneInputInterface_free (drv \<tau>) = ((), s')" by (rule run_unit)
  from last_release [OF \<tau>(3,2) this] have "system_step E \<tau> Last_release (\<tau>\<lparr>drv := s', phase := Freed\<rparr>)" .
  from steps_snoc [OF \<tau>(1) this] show ?thesis by (auto intro!: exI)
qed

lemma can_be_stopped:
  assumes "system_inv E \<sigma>" "phase \<sigma> \<noteq> Freed"
  shows "\<exists>es \<tau>. steps (system_step E) \<sigma> es \<tau> \<and> phase \<tau> = Stopped"
proof -
  have stopping: "\<exists>es \<upsilon>. steps (system_step E) \<tau> es \<upsilon> \<and> phase \<upsilon> = Stopped" if "phase \<tau> = Stopping" for \<tau>
  proof -
    obtain s' where "run_state (Stop_finalize (env_startup E) (this_ref E) (Some (provider_ref E))) (drv \<tau>) = ((), s')"
      by (rule run_unit)
    from steps_single [of "system_step E", OF cancelled [OF that this]] show ?thesis by (auto intro!: exI)
  qed
  show ?thesis
  proof (cases "phase \<sigma>")
    case Running
    with assms(1) obtain v where v: "ivars (drv \<sigma>) = Some v" "gotDataAction v \<noteq> None"
      by (auto simp: system_inv_def)
    obtain ret s' where "run_state (XboxOneInputInterface_Stop (env_startup E) (this_ref E) (Some (provider_ref E)))
      (drv \<sigma>) = (ret, s')" by fastforce
    from stop_driver [OF Running v(1) this] v(2) obtain \<tau> where
      "system_step E \<sigma> Stop_driver \<tau>" "phase \<tau> = Stopping" by auto
    with stopping [of \<tau>] show ?thesis using steps_Cons [of "system_step E"] by blast
  next
    case Stopping
    then show ?thesis by (rule stopping)
  next
    case Stopped
    then show ?thesis using steps_Nil [of "system_step E"] by blast
  qed (use assms(2) in simp)
qed

text \<open>So the end of the life can be reached from everywhere.\<close>
lemma can_end:
  assumes E: "well_behaved E" and \<sigma>: "reachable (system_start E) (system_step E) \<sigma>"
  shows "\<exists>es \<tau>. steps (system_step E) \<sigma> es \<tau> \<and> phase \<tau> = Freed"
proof (cases "phase \<sigma> = Freed")
  case True
  then show ?thesis using steps_Nil [of "system_step E" \<sigma>] by blast
next
  case False
  from can_be_stopped [OF system_inv_reachable [OF assms] this] obtain es \<tau> where
    \<tau>: "steps (system_step E) \<sigma> es \<tau>" "phase \<tau> = Stopped" by blast
  from can_be_freed [OF E system_inv_reachable [OF E reachable_steps [OF \<tau>(1) \<sigma>]] \<tau>(2)] show ?thesis
    using steps_append [OF \<tau>(1)] by blast
qed

end
