(* ===== verification/Tester_Session.thy ===== *)
theory Tester_Session
  imports Driver_System Client_Tester
begin

text \<open>
  A call of the tester as it arrives at the driver: how the system hands it to the user client, and
  what the driver does with it.
\<close>

text \<open>
  What the system makes of a scalar call of an application: the inputs and as many outputs as asked
  for, without structures and completion.
\<close>
definition delivers :: "u32 \<times> u32 \<times> u64 list \<times> u32 \<Rightarrow> IOUserClientMethodArguments \<Rightarrow> bool" where
  "delivers call a = (case call of (conn, selector, inputs, outputs) \<Rightarrow>
     completion a = None \<and> scalarInput a = inputs \<and> structureInputSize a = 0 \<and>
     length (scalarOutput a) = unat outputs \<and> structureOutputSize a = 0)"

definition selector_of :: "u32 \<times> u32 \<times> u64 list \<times> u32 \<Rightarrow> u64" where
  "selector_of call = (case call of (conn, selector, inputs, outputs) \<Rightarrow> ucast selector)"

lemma licensing_step:
  assumes E: "well_behaved E" and inv: "system_inv E \<sigma>" and c: "clients \<sigma> c = Some w"
    and a: "delivers (conn, 1, [1], 1) a" and step: "system_step E \<sigma> (External_call c 1 a) \<tau>"
  shows "(\<exists>v. ivars (drv \<tau>) = Some v \<and> enabled v) \<and> scalarOutput (arguments (drv \<tau>)) = [1]"
  using step
proof cases
  case (external_call w' d target ret s')
  obtain y where a': "completion a = None" "scalarInput a = [1]" "structureInputSize a = 0" "scalarOutput a = [y]"
    "structureOutputSize a = 0"
    using a by (auto simp: delivers_def length_Suc_conv)
  have w: "inputInterface w' = Some (this_ref E)" and "phase \<sigma> \<noteq> Freed"
    using inv external_call(2) by (auto simp: system_inv_def)
  with inv obtain v where v: "ivars (drv \<sigma>) = Some v" by (auto simp: system_inv_def)
  have m: "dispatch_law (env_ExternalMethod E)" using E by (simp add: well_behaved_def)
  have "wp (ExternalMethod (env_ExternalMethod E) c ExternalMethodType_Licensing d target)
      (\<lambda>_ s'. (\<exists>v. ivars s' = Some v \<and> enabled v) \<and> scalarOutput (arguments s') = [1])
      ((drv \<sigma>)\<lparr>client_ivars := Some w', arguments := a\<rparr>)"
    using a' w v by (simp add: wp_licensing [OF m] wp_HandleLicensing)
  from wp_run [OF this external_call(4) [folded ExternalMethodType_Licensing_def]] external_call(1) show ?thesis
    by simp
qed

end
