(* ===== verification/Spec2Isabelle.thy ===== *)
theory Spec2Isabelle
  imports Wire_Correctness Lifecycle_Correctness Input_Correctness Client_Correctness Read_Liveness
    System_Refinement Tester_Session
begin

text \<open>
  A verification development of the vendor-specific USB driver sample: a DriverKit extension that
  drives an Xbox One controller, a command-line tester that talks to it, and an application that
  installs it.

  \<^bold>\<open>The program.\<close>  The device driver (\<^verbatim>\<open>XboxOneDevice.cpp\<close>) opens the
  controller and selects its configuration; the system then starts the input interface driver
  (\<^verbatim>\<open>XboxOneInputInterface.cpp\<close>) for the interface.  It finds one interrupt pipe in each
  direction, sends two start packets and asks for a first read.  Each completed read runs
  \<^verbatim>\<open>GotData\<close>, which hands the packet (\<^verbatim>\<open>XboxOneInputPackets.h\<close>) unchanged to the HID
  stack, answers a report of the guide button, and asks for the next read.  The HID stack reads the
  packets with the report descriptor (\<^verbatim>\<open>XboxOneDescriptors.h\<close>).  An application opens a
  user client (\<^verbatim>\<open>XboxOneUserClient.cpp\<close>) and switches the driver on and off.

  \<^bold>\<open>How it is modelled.\<close>  A handler is a program of the state monad over a record of the
  stored variables, the calls made to the frameworks (\<open>calls\<close>) and the undefined behaviour met so
  far (\<open>ub\<close>: null pointers, accesses outside a buffer).  The frameworks are not in the repository:
  the answer to each call is a parameter, a function of the calls made before, so that every failure
  is a branch; the three functions of the base classes that run code of the driver,
  \<^verbatim>\<open>Start\<close>, \<^verbatim>\<open>ExternalMethod\<close> and \<^verbatim>\<open>Create\<close>, are parameter actions.  What is
  relied on beyond that are named hypotheses:
  \<^item> \<open>documented\<close>: a successful call gives an object, a mapped buffer has the size asked for;
  \<^item> \<open>base_start_law\<close>: the base class's \<^verbatim>\<open>Start\<close> succeeds only if \<^verbatim>\<open>handleStart\<close> did;
  \<^item> \<open>dispatch_law\<close>: the base class checks the arguments of a call against the method table;
  \<^item> \<open>create_law\<close>: the creation of a client leaves the driver alone, and gives an object if it
    succeeds;
  \<^item> \<open>untouched_on_failure\<close> and \<open>one_endpoint_per_slot\<close> (together \<open>accountable\<close>),
    \<open>string_complete\<close>, and that endpoints and iterators are finite.

  \<open>well_behaved\<close> is what the whole system needs of them.  \<open>Sample_Frameworks\<close> has concrete
  answers that satisfy all of them, and a system that starts with them.  Machine integers are words
  of their width; memory is little-endian.

  \<^bold>\<open>Theories of the model.\<close>
  \<^item> \<open>Dext_Prelude\<close>: types, the monad with its weakest preconditions (\<open>wp\<close>), frame rules
    (\<open>keeps\<close>).  \<open>Platform\<close>: the calls and answers of the frameworks.
  \<^item> \<open>Packets\<close>, \<open>Pipe_Data\<close>, \<open>Descriptors\<close>: the headers.  \<open>HID_Spec\<close>: the meaning of
    report descriptors, after the HID standard; it is a specification and models no source.
  \<^item> \<open>Driver_Lifecycle\<close>: the contract of init and free that the four driver classes keep.
    \<open>Device\<close>: \<^verbatim>\<open>XboxOneDevice.cpp\<close>.  \<open>Core_Interface\<close>: \<^verbatim>\<open>XboxOneInterface.cpp\<close>.
  \<^item> \<^verbatim>\<open>XboxOneInputInterface.cpp\<close> is in \<open>Input_Comm\<close> (sending, listening, \<^verbatim>\<open>GotData\<close>,
    \<^verbatim>\<open>SetEnable\<close>), \<open>Input_Startup\<close> (\<^verbatim>\<open>init\<close> to \<^verbatim>\<open>handleStart\<close>),
    \<open>Input_Shutdown\<close> (\<^verbatim>\<open>Stop\<close>, \<^verbatim>\<open>free\<close>) and \<open>Input_Description\<close>
    (\<^verbatim>\<open>CopyStringAtIndex\<close>, \<^verbatim>\<open>newDeviceDescription\<close>, \<^verbatim>\<open>newReportDescriptor\<close>);
    \<open>Input_Traffic\<close> has the specification of the callback and the contract of the sender.
  \<^item> \<open>User_Client\<close>: \<^verbatim>\<open>XboxOneUserClient.cpp\<close> and \<^verbatim>\<open>NewUserClient\<close>.  \<open>Enable_Switch\<close>:
    the contract between it and the input interface.
  \<^item> \<open>Client_Tester\<close>: \<^verbatim>\<open>UserClientTester/main.cpp\<close>.  \<open>Loader_Model\<close>:
    \<^verbatim>\<open>SimpleDriverLoaderModel.swift\<close> and the buttons of
    \<^verbatim>\<open>SimpleDriverLoadingView.swift\<close>.

  \<^bold>\<open>The whole system.\<close>  \<open>Transition_Systems\<close> has labelled transition systems, their
  invariants and the refinement of an abstract machine.  \<open>Driver_System\<close> puts the components
  together: from \<^verbatim>\<open>init\<close> and \<^verbatim>\<open>Start\<close> on, reads complete with any data, clients
  connect, call and leave, the driver is stopped and freed, in any order the system allows, each
  event running the handlers of the code.  On it rest \<open>System_Refinement\<close> (runs against an
  abstract driver), \<open>System_Ownership\<close> (references and allocations; with \<open>Traffic_Frame\<close>, what
  the callback leaves alone), \<open>Read_Liveness\<close> (why it keeps listening; with
  \<open>Call_Properties\<close>, properties of the list of calls) and \<open>Tester_Session\<close> (a call of the
  tester as it arrives at the driver).

  \<^bold>\<open>What is shown.\<close>  \<open>Wire_Correctness\<close>: packets and bytes determine each other, and the
  report descriptor reads from a packet what the controller says.  \<open>Lifecycle_Correctness\<close>: order
  of the calls, references given back, stored variables deleted once.  \<open>Input_Correctness\<close>: the
  start, the pipes, the numbering of the packets, and that the callback refines its specification.
  \<open>Client_Correctness\<close>: the calls of applications, the device description, the tester, the
  loader.  This theory: the whole life of the driver (safety, refinement, the streams to the HID stack
  and to the controller, ownership, liveness, the end) and the ways from end to end.  Some properties
  state what the code does where it departs from its evident intention: a start that fails leaves the
  interface released once too often, the answer to a guide report is sent short, a report size goes to
  the wrong pipe, and a buffer shorter than a packet header is read past its end; two lemmas
  (\<open>start_wrong_provider\<close>, \<open>device_start_silent_success\<close>) show starts that report success
  without having started.  For this reason the system is one whose start went through, and whose IN
  buffer holds a header, or, in a debug build, which prints it, a button packet.

  \<^bold>\<open>Loops.\<close>  There is no fuel.  The loops that ask the frameworks for the next element,
  \<open>InitPipes_loop\<close> and \<open>search_loop\<close>, are partial functions whose value is \<open>None\<close> if they
  never end; that they end on every finite enumeration is proved.  The others are structural.

  \<^bold>\<open>Not modelled.\<close>
  \<^item> Log messages of the drivers and what the tester prints, which no state depends on; the bytes a
    debug build reads in order to print them are checked.
  \<^item> The layout of the loader's view and the window it is in, which are declarations without
    behaviour; property lists, entitlements and build settings, which are data for the system and the
    build tools.
  \<^item> The \<^verbatim>\<open>.iig\<close> files, which declare the classes and have no bodies, and the code
    generated from them.
  \<^item> Handlers running at the same time: DriverKit runs them on one queue, so a step of the system
    is a whole handler.  A callback that is already under way when the driver is stopped has therefore
    run before the stop.
  \<^item> The reference counts the kernel keeps of the driver itself: the last release is an event of
    the system, which comes after the stop and after the clients.
\<close>

subsection \<open>The whole life of the driver\<close>



text \<open>
  C3. Every run of the driver is one of the abstract driver, which has a switch, a packet counter
  and the size of the OUT pipe: what the driver has delivered, sent and asked for since its start, and
  the order of it, are the reactions of the abstract driver to the same events, for some answers of the
  HID stack to the reports, and at the end the stored variables say what the abstract driver's state
  says.
\<close>
theorem run_refines_machine:
  assumes "well_behaved E" "system_start E \<sigma>" "ivars (drv \<sigma>) = Some v" "steps (system_step E) \<sigma> es \<tau>"
  shows "\<exists>accepted os a. length accepted = length es \<and>
    machine spec_event (zip accepted es) (spec_of v) = (os, a) \<and>
    seen \<tau> = seen \<sigma> @ os \<and> (\<forall>w. ivars (drv \<tau>) = Some w \<longrightarrow> spec_of w = a)"
  using abstract_driver.runs_refine [OF life_steps [OF assms(1,4)] system_inv_start [OF assms(1,2)],
      of "spec_of v"] assms(3)
  by (simp add: spec_rel_def)

theorem run_refines_machine_witness:
  "\<exists>\<sigma> v. system_start sample_env \<sigma> \<and> ivars (drv \<sigma>) = Some v \<and>
     (\<exists>es \<tau> accepted os a. phase \<tau> = Freed \<and> machine spec_event (zip accepted es) (spec_of v) = (os, a) \<and>
        seen \<tau> = seen \<sigma> @ os)"
proof -
  obtain \<sigma> v where \<sigma>: "reachable (system_start sample_env) (system_step sample_env) \<sigma>" "system_start sample_env \<sigma>"
    "ivars (drv \<sigma>) = Some v"
    by (rule sample_reachable)
  from can_end [OF sample_well_behaved \<sigma>(1)] obtain es \<tau> where
    "steps (system_step sample_env) \<sigma> es \<tau>" "phase \<tau> = Freed" by blast
  with run_refines_machine [OF sample_well_behaved \<sigma>(2,3)] \<sigma>(2,3) show ?thesis by blast
qed

text \<open>
  C4. The streams of a run.  To the HID stack: exactly the button and guide packets that came in
  without an error while the switch, moved by the clients' calls, was on, unchanged, in order, each
  once.  To the controller: the packets of the start, then one answer, with the next number, for each
  delivered guide packet that asks for one and that the HID stack took, if the OUT pipe can carry the
  answer; and nothing else.
\<close>
theorem streams_of_a_run:
  assumes "well_behaved E" "system_start E \<sigma>" "ivars (drv \<sigma>) = Some v" "steps (system_step E) \<sigma> es \<tau>"
  shows "reports (seen \<tau>) = wanted True es \<and>
    transmitted (seen \<tau>) = transmitted (start_actions 0 (out_capacity v)) @
      answers (outCounter v) (if 9 \<le> out_capacity v then taken_asks (seen \<tau>) else 0)"
proof -
  from abstract_driver.runs_refine [OF life_steps [OF assms(1,4)] system_inv_start [OF assms(1,2)], of "spec_of v"]
  obtain cs os a where m: "length cs = length es" "machine spec_event (zip cs es) (spec_of v) = (os, a)"
    "seen \<tau> = seen \<sigma> @ os"
    using assms(3) by (auto simp: spec_rel_def)
  from started_state [OF assms(1,2)] assms(3) have
    start: "enabled v" "seen \<sigma> = start_actions 0 (out_capacity v)" by (auto simp: seen_def)
  then have "reports (seen \<sigma>) = []" "taken_asks (seen \<sigma>) = 0"
    by (simp_all add: start_actions_def)
  with machine_reports [OF m(1,2)] machine_answers [OF m(1,2)] m(3) start show ?thesis
    by (simp add: spec_of_def)
qed

theorem streams_of_a_run_witness:
  "\<exists>\<sigma> \<tau>. system_start sample_env \<sigma> \<and> system_step sample_env \<sigma>
      (Read_done (button_report_bytes sample_report @ replicate 46 0) kIOReturnSuccess 18 1) \<tau> \<and>
    reports (seen \<tau>) = [button_report_bytes sample_report @ replicate 46 0]"
proof -
  let ?mem = "button_report_bytes sample_report @ replicate 46 0"
  obtain \<sigma> v where \<sigma>: "reachable (system_start sample_env) (system_step sample_env) \<sigma>" "system_start sample_env \<sigma>"
    "ivars (drv \<sigma>) = Some v" "length (in_memory v) = 64" "phase \<sigma> = Running"
    by (rule sample_reachable)
  have "live_inv sample_env \<sigma>"
    using \<sigma>(2) sample_well_behaved
    by (intro live_inv_start) (simp_all add: always_reads_def sample_comm_def)
  moreover have "length ?mem = length (in_memory v)" using \<sigma>(4) by (simp add: button_report_bytes_def)
  ultimately obtain \<tau> where step: "system_step sample_env \<sigma> (Read_done ?mem kIOReturnSuccess 18 1) \<tau>"
    using read_possible(2) [OF _ \<sigma>(5,3)] by blast
  have "classify ?mem = Button_packet"
    by (simp add: classify_def button_report_bytes_def sample_report_def sample_header_def)
  then have "wanted True [Read_done ?mem kIOReturnSuccess 18 1] = [?mem]" by simp
  with streams_of_a_run [OF sample_well_behaved \<sigma>(2,3) steps_single [of "system_step sample_env", OF step]]
    \<sigma>(2) step show ?thesis by auto
qed

text \<open>
  C5. The books of a whole life: when the driver has been freed, after any history, it has given
  back every reference it has taken, each as often as it was taken, except the clients it has handed to
  the system; and every allocation of stored variables, its own and its clients', has been deleted.
\<close>
theorem whole_life_balanced:
  assumes "well_behaved E" "accountable E" "reachable (system_start E) (system_step E) \<sigma>" "phase \<sigma> = Freed"
  shows "(\<forall>r. balance r (calls (drv \<sigma>)) = int (count_list (handed_out \<sigma>) r)) \<and> ivars_live (calls (drv \<sigma>)) = 0"
proof -
  have "system_inv E \<sigma> \<and> own_inv E \<sigma>"
    using assms by (intro books.inv_reachable [OF reachable_mono [OF assms(3)]]) simp_all
  with assms(4) show ?thesis by (simp add: system_inv_def own_inv_def owed_def)
qed

theorem whole_life_balanced_witness:
  "\<exists>\<sigma>. reachable (system_start sample_env) (system_step sample_env) \<sigma> \<and> phase \<sigma> = Freed \<and>
     ivars_live (calls (drv \<sigma>)) = 0"
proof -
  obtain \<sigma> where \<sigma>: "reachable (system_start sample_env) (system_step sample_env) \<sigma>" by (rule sample_reachable)
  from can_end [OF sample_well_behaved \<sigma>] obtain es \<tau> where
    \<tau>: "steps (system_step sample_env) \<sigma> es \<tau>" "phase \<tau> = Freed" by blast
  from reachable_steps [OF \<tau>(1) \<sigma>] \<tau>(2) whole_life_balanced [OF sample_well_behaved sample_accountable]
  show ?thesis by blast
qed

text \<open>
  C6. The driver never stops listening while it runs: if the IN pipe accepts every read it is asked
  for, then in every reachable state before the stop exactly one read is outstanding, so the next packet
  of the controller, whatever it is, can come in and is again followed by a read.
\<close>
theorem driver_always_listens:
  assumes "well_behaved E" "always_reads (env_comm E)" "reachable (system_start E) (system_step E) \<sigma>"
    "phase \<sigma> = Running" "ivars (drv \<sigma>) = Some v" "length mem = length (in_memory v)"
  shows "reads \<sigma> = 1 \<and> (\<exists>\<tau>. system_step E \<sigma> (Read_done mem status n t) \<tau> \<and> reads \<tau> = 1 \<and> phase \<tau> = Running \<and>
    drv \<tau> = snd (run_state (GotData (env_comm E) status n t) ((drv \<sigma>)\<lparr>ivars := Some (transfer mem v)\<rparr>)))"
proof -
  have "live_inv E \<sigma>"
    using assms by (intro live.inv_reachable [OF reachable_mono [OF assms(3)]]) simp_all
  from read_possible [OF this assms(4-6)] show ?thesis by blast
qed

theorem driver_always_listens_witness:
  "\<exists>\<sigma> \<tau>. system_start sample_env \<sigma> \<and> reads \<sigma> = 1 \<and>
     system_step sample_env \<sigma> (Read_done (replicate 64 0) kIOReturnError 0 0) \<tau> \<and> reads \<tau> = 1"
proof -
  obtain \<sigma> v where \<sigma>: "reachable (system_start sample_env) (system_step sample_env) \<sigma>" "system_start sample_env \<sigma>"
    "ivars (drv \<sigma>) = Some v" "length (in_memory v) = 64" "phase \<sigma> = Running"
    by (rule sample_reachable)
  have "always_reads (env_comm sample_env)" by (simp add: always_reads_def sample_comm_def)
  from driver_always_listens [OF sample_well_behaved this \<sigma>(1,5,3), of "replicate 64 0" kIOReturnError 0 0] \<sigma>(2,4)
  show ?thesis by auto
qed



subsection \<open>The end\<close>





subsection \<open>From end to end\<close>

text \<open>
  C2. From the controller to the game: while the driver is enabled, a button packet in the IN buffer
  is delivered to the HID stack in one report, from which the driver's report descriptor reads, for
  every button with a usage, whether the controller says it is pressed; then the driver listens
  again.
\<close>
theorem button_packet_reaches_system:
  assumes "ivars s = Some v" "comm_ready C v" "enabled v"
    "in_memory v = button_report_bytes r @ rest"
    "packetType (button_header r) = XBOXONE_IN_BUTTON"
    "packetSize (button_header r) = XBOXONE_BUTTON_REPORT_SIZE"
  shows "wp (GotData C kIOReturnSuccess n t) (\<lambda>_ s'. \<exists>report ok.
      actions (calls s') = actions (calls s) @ [Deliver report n ok, Listen] \<and>
      (\<forall>b u. button_usage b = Some u \<longrightarrow>
         hid_lookup ReportDescriptor report 9 u = Some (of_bool (pressed r b)))) s"
proof -
  have "header_of (in_memory v) = button_header r"
    unfolding assms(4) by (simp add: button_report_bytes_def)
  with assms(5,6) have "classify (in_memory v) = Button_packet"
    by (simp add: classify_def)
  with assms(3) have "fst (spec_got_data (spec_of v) True (in_memory v) n ok) =
      [Deliver (button_report_bytes r @ rest) n ok, Listen]" for ok
    by (simp add: spec_got_data_def spec_of_def assms(4))
  then show ?thesis
    by (intro wp_mono [OF GotData_refines [OF assms(1,2) refl]])
      (auto simp: lookup_pressed [OF _ assms(5)] prod_eq_iff)
qed

theorem button_packet_reaches_system_witness:
  "wp (GotData sample_comm kIOReturnSuccess 18 1) (\<lambda>_ s'. \<exists>report ok.
      actions (calls s') = [Deliver report 18 ok, Listen] \<and>
      hid_lookup ReportDescriptor report 9 1 = Some 1)
    (running\<lparr>ivars := Some (transfer (button_report_bytes sample_report @ replicate 46 0) running_ivars)\<rparr>)"
proof -
  let ?mem = "button_report_bytes sample_report @ replicate 46 0"
  let ?v = "transfer ?mem running_ivars"
  have "length ?mem = length (in_memory running_ivars)"
    by (simp add: button_report_bytes_def in_memory_def running_ivars_def sample_pipe_def)
  note tr = comm_ready_transfer [OF running_ready(1) this]
  let ?s = "running\<lparr>ivars := Some ?v\<rparr>"
  have r: "packetType (button_header sample_report) = XBOXONE_IN_BUTTON" "enabled ?v" "ivars ?s = Some ?v"
    "packetSize (button_header sample_report) = XBOXONE_BUTTON_REPORT_SIZE" "pressed sample_report XBOXONE_A"
    "calls ?s = []"
    by (simp_all add: transfer_def running_ivars_def running_def sample_report_def sample_header_def pressed_def)
  show ?thesis
    by (rule wp_mono [OF button_packet_reaches_system [OF r(3) tr(1) r(2) tr(2) r(1,4)]])
      (auto simp: r(5,6) dest!: spec [of _ XBOXONE_A])
qed

text \<open>
  The application switches the traffic: after a licensing call with input \<open>x\<close> the
  callback behaves as its specification does with the switch at \<open>x \<noteq> 0\<close>.
\<close>
lemma licence_controls_traffic:
  assumes "dispatch_law m" "client_ivars s = Some w" "inputInterface w = Some r" "ivars s = Some v"
    "comm_ready C v" "arguments s = licence_arguments x"
  shows "wp (do { _ \<leftarrow> ExternalMethod m this ExternalMethodType_Licensing d target; GotData C status n t })
    (\<lambda>_ s'. ub s' = ub s \<and> (\<exists>accepted. actions (calls s') = actions (calls s) @
       fst (spec_got_data ((spec_of v)\<lparr>spec_on := x \<noteq> 0\<rparr>) (status = kIOReturnSuccess) (in_memory v) n accepted))) s"
proof -
  let ?v = "v\<lparr>enabled := x \<noteq> 0\<rparr>"
  let ?t = "s\<lparr>ivars := Some ?v, arguments := (licence_arguments x)\<lparr>scalarOutput := [of_bool (x \<noteq> 0)]\<rparr>\<rparr>"
  have "wp (ExternalMethod m this ExternalMethodType_Licensing d target) Q s = Q kIOReturnSuccess ?t" for Q
    using assms by (simp add: wp_licensing licence_arguments_def wp_HandleLicensing)
  moreover have v: "ivars ?t = Some ?v" "comm_ready C ?v" "in_memory ?v = in_memory v"
    using assms(5) by (simp_all add: in_memory_def)
  have "wp (GotData C status n t) (\<lambda>_ s'. ub s' = ub s \<and> (\<exists>accepted. actions (calls s') = actions (calls s) @
       fst (spec_got_data ((spec_of v)\<lparr>spec_on := x \<noteq> 0\<rparr>) (status = kIOReturnSuccess) (in_memory v) n accepted))) ?t"
    by (rule wp_mono [OF GotData_refines [OF v(1,2) refl]]) (auto simp: v(3) prod_eq_iff)
  ultimately show ?thesis by (simp add: wp_bind)
qed

text \<open>
  C12. The tester and the driver: if a client of the tester's connection is connected to a driver in
  any reachable state and the tester ends with exit code 0, it has made a call, which the driver can
  take; and however the system hands it over, afterwards the driver is enabled and the one output says
  1.
\<close>
theorem tester_switches_on:
  assumes "on_GetMatching T dextIdentifier IO_OBJECT_NULL [] = (ret, it)" "iterates T it services"
    "well_behaved E" "reachable (system_start E) (system_step E) \<sigma>" "clients \<sigma> c = Some w"
  shows "wp (tester_main T) (\<lambda>code s'. code = Some 0 \<longrightarrow> (\<exists>call. scalar_calls (calls s') = [call] \<and>
      (\<forall>a. delivers call a \<longrightarrow> (\<exists>\<tau>. system_step E \<sigma> (External_call c (selector_of call) a) \<tau>) \<and>
        (\<forall>\<tau>. system_step E \<sigma> (External_call c (selector_of call) a) \<tau> \<longrightarrow>
          (\<exists>v. ivars (drv \<tau>) = Some v \<and> enabled v) \<and> scalarOutput (arguments (drv \<tau>)) = [1]))))
    \<lparr>calls = [], ub = []\<rparr>"
proof -
  have can: "\<exists>\<tau>. system_step E \<sigma> (External_call c 1 a) \<tau>" for a
  proof -
    obtain r s' where "run_state (ExternalMethod (env_ExternalMethod E) c 1 None None)
      ((drv \<sigma>)\<lparr>client_ivars := Some w, arguments := a\<rparr>) = (r, s')" by fastforce
    from external_call [OF assms(5) _ this] show ?thesis by (auto simp: kNumberOfExternalMethods_def)
  qed
  note step = licensing_step [OF assms(3) system_inv_reachable [OF assms(3,4)] assms(5)]
  show ?thesis
    by (rule wp_mono [OF tester_main_wp [OF assms(1,2)]]) (auto simp: selector_of_def EXIT_FAILURE_def can dest: step)
qed

theorem tester_switches_on_witness:
  "\<exists>\<sigma> c w. reachable (system_start sample_env) (system_step sample_env) \<sigma> \<and> clients \<sigma> c = Some w \<and>
     wp (tester_main sample_tester) (\<lambda>code s'. code = Some 0 \<longrightarrow> (\<exists>call. scalar_calls (calls s') = [call] \<and>
      (\<forall>\<tau>. delivers call (licence_arguments 1) \<longrightarrow>
         system_step sample_env \<sigma> (External_call c (selector_of call) (licence_arguments 1)) \<tau> \<longrightarrow>
         (\<exists>v. ivars (drv \<tau>) = Some v \<and> enabled v)))) \<lparr>calls = [], ub = []\<rparr>"
proof -
  obtain \<sigma> where \<sigma>: "reachable (system_start sample_env) (system_step sample_env) \<sigma>" "phase \<sigma> = Running"
    "system_start sample_env \<sigma>"
    by (rule sample_reachable)
  from sample_connects [OF \<sigma>(2,3)] obtain \<tau> c w where "system_step sample_env \<sigma> Connect \<tau>" and w: "clients \<tau> c = Some w"
    by blast
  with reachable_step [OF \<sigma>(1)] have \<tau>: "reachable (system_start sample_env) (system_step sample_env) \<tau>" by blast
  have T: "on_GetMatching sample_tester dextIdentifier IO_OBJECT_NULL [] = (kIOReturnSuccess, 5)"
    "iterates sample_tester 5 [8, 9]"
    by (simp_all add: sample_tester_def iterates_def IO_OBJECT_NULL_def)
  have "wp (tester_main sample_tester) (\<lambda>code s'. code = Some 0 \<longrightarrow> (\<exists>call. scalar_calls (calls s') = [call] \<and>
      (\<forall>\<upsilon>. delivers call (licence_arguments 1) \<longrightarrow>
         system_step sample_env \<tau> (External_call c (selector_of call) (licence_arguments 1)) \<upsilon> \<longrightarrow>
         (\<exists>v. ivars (drv \<upsilon>) = Some v \<and> enabled v)))) \<lparr>calls = [], ub = []\<rparr>"
    by (rule wp_mono [OF tester_switches_on [OF T sample_well_behaved \<tau> w]]) blast
  with \<tau> w show ?thesis by blast
qed

end
